theory Spec2Isabelle
  imports Main "HOL-Library.Extended_Nat"
begin

section \<open>The Poll of MACI's core (core/ts/Poll.ts)\<close>

text \<open>
  A shallow embedding of the \<^verbatim>\<open>Poll\<close> class. JavaScript \<^verbatim>\<open>bigint\<close> values are
  \<^typ>\<open>int\<close>; array lengths, counters, batch sizes and tree depths (JavaScript numbers
  that only ever hold natural numbers) are \<^typ>\<open>nat\<close>. A method that mutates the
  object takes the poll and returns the new one; a method that can throw returns
  \<open>exn + result\<close>, with \<open>Inl\<close> for the exception that aborts the call (the partly
  mutated object of an aborted call is not tracked). The domain objects, the hash
  functions, the Merkle paths and the random sources are collaborators outside of
  Poll.ts; they are arguments of the model (record \<open>externals\<close>, salts, fresh keys).
\<close>

subsection \<open>Exceptions\<close>

datatype processMessageErrors =
    InvalidStateLeafIndex
  | InvalidSignature
  | InvalidNonce
  | InvalidVoteOptionIndex
  | InsufficientVoiceCredits
  | FailedDecryption

datatype exn =
    ProcessMessageError processMessageErrors
  | AssertionError string
  | TypeError
  | RangeError
  | SyntaxError
  | ExternalError

text \<open>Reading an array at a JavaScript number: \<open>None\<close> is \<^verbatim>\<open>undefined\<close>.\<close>

definition nth_opt :: "'a list \<Rightarrow> nat \<Rightarrow> 'a option" where
  "nth_opt xs i = (if i < length xs then Some (xs ! i) else None)"

text \<open>Sequencing: \<open>orThrow v e f\<close> throws \<open>e\<close> when the value \<open>v\<close> is missing (the
  source reads a field of \<^verbatim>\<open>undefined\<close>, or a callee throws) and goes on with \<open>f\<close>
  otherwise; \<open>andThen r f\<close> goes on with \<open>f\<close> unless \<open>r\<close> is an exception.\<close>

fun orThrow :: "'a option \<Rightarrow> exn \<Rightarrow> ('a \<Rightarrow> exn + 'b) \<Rightarrow> exn + 'b" where
  "orThrow None e f = Inl e"
| "orThrow (Some x) e f = f x"

fun andThen :: "exn + 'a \<Rightarrow> ('a \<Rightarrow> exn + 'b) \<Rightarrow> exn + 'b" where
  "andThen (Inl e) f = Inl e"
| "andThen (Inr x) f = f x"

subsection \<open>Domain objects\<close>

type_synonym pubKey = "int \<times> int"

record keypair =
  kp_privKey :: int
  kp_pubKey :: pubKey

record stateLeaf =
  sl_pubKey :: pubKey
  voiceCreditBalance :: int
  timestamp :: int

record ballot =
  nonce :: int
  votes :: "int list"

record message =
  msgType :: int
  data :: "int list"

record pCommand =
  stateIndex :: int
  newPubKey :: pubKey
  voteOptionIndex :: int
  newVoteWeight :: int
  cmd_nonce :: int
  cmd_pollId :: int
  salt :: int

text \<open>A TCommand is built from \<^verbatim>\<open>message.data[0]\<close> and \<^verbatim>\<open>message.data[1]\<close>, which are
  \<^verbatim>\<open>undefined\<close> when the data array is too short.\<close>

record tCommand =
  t_stateIndex :: "int option"
  amount :: "int option"
  t_pollId :: int

datatype command = PCmd pCommand | TCmd tCommand | OtherCmd string

text \<open>Modelled from the spec: \<^verbatim>\<open>Ballot.genBlankBallot\<close> and \<^verbatim>\<open>new Ballot\<close> of the domain
  library are missing; by the spec index 0 holds the empty ballot, a zero nonce and a zero
  weight for each of the vote options.\<close>

definition genBlankBallot :: "nat \<Rightarrow> ballot" where
  "genBlankBallot numVoteOptions = \<lparr>nonce = 0, votes = replicate numVoteOptions 0\<rparr>"

text \<open>Modelled from the spec: \<^verbatim>\<open>SNARK_FIELD_SIZE\<close> of the crypto library is missing; it is
  the BN254 scalar field prime.\<close>

definition SNARK_FIELD_SIZE :: int where
  "SNARK_FIELD_SIZE =
     21888242871839275222246405745257275088548364400416034343698204186575808495617"

subsection \<open>The incremental tree\<close>

text \<open>Modelled from the spec: \<^verbatim>\<open>IncrementalQuinTree\<close> of the crypto library is missing.
  By the spec it is an append-only tree of fixed arity with update in place; the model
  keeps its depth, its zero value and the leaves inserted so far, so that \<^verbatim>\<open>nextIndex\<close>
  is their number. The spec gives \<^verbatim>\<open>insert\<close> no failure. \<^verbatim>\<open>update\<close> replaces an existing
  leaf; for an index at or beyond \<^verbatim>\<open>nextIndex\<close> the model reports none. Roots and paths
  are functions of the tree computed by the library (see \<open>externals\<close>).\<close>

record tree =
  t_depth :: nat
  zeroValue :: int
  leaves :: "int list"

definition newTree :: "nat \<Rightarrow> int \<Rightarrow> tree" where
  "newTree d z = \<lparr>t_depth = d, zeroValue = z, leaves = []\<rparr>"

definition nextIndex :: "tree \<Rightarrow> nat" where
  "nextIndex t = length (leaves t)"

definition insert_leaf :: "tree \<Rightarrow> int \<Rightarrow> tree" where
  "insert_leaf t v = t\<lparr>leaves := leaves t @ [v]\<rparr>"

definition update_leaf :: "tree \<Rightarrow> nat \<Rightarrow> int \<Rightarrow> tree option" where
  "update_leaf t i v =
     (if i < length (leaves t) then Some (t\<lparr>leaves := (leaves t)[i := v]\<rparr>) else None)"

subsection \<open>The collaborators\<close>

type_synonym pathElements = "int list list"

text \<open>The functions of the crypto and domain libraries that Poll.ts calls. \<open>decrypt\<close>
  gives \<open>None\<close> where \<^verbatim>\<open>PCommand.decrypt\<close> throws; the path functions give \<open>None\<close> where
  the tree library throws. \<open>voteTreePath d vs i\<close> is the path of index \<open>i\<close> in a fresh
  tree of depth \<open>d\<close> with zero value 0 into which the values \<open>vs\<close> are inserted in turn
  (\<open>None\<close> among them is \<^verbatim>\<open>undefined\<close>).\<close>

record externals =
  NOTHING_UP_MY_SLEEVE :: int
  blankStateLeaf :: stateLeaf
  genEcdhSharedKey :: "int \<Rightarrow> pubKey \<Rightarrow> pubKey"
  decrypt :: "message \<Rightarrow> pubKey \<Rightarrow> (pCommand \<times> int) option"
  verifySignature :: "pCommand \<Rightarrow> int \<Rightarrow> pubKey \<Rightarrow> bool"
  hashStateLeaf :: "stateLeaf \<Rightarrow> int"
  hashBallot :: "ballot \<Rightarrow> int"
  hashMessage :: "message \<Rightarrow> pubKey \<Rightarrow> int"
  genMerklePath :: "tree \<Rightarrow> nat \<Rightarrow> pathElements option"
  genMerkleSubrootPath :: "tree \<Rightarrow> nat \<Rightarrow> nat \<Rightarrow> pathElements option"
  voteTreePath :: "nat \<Rightarrow> int option list \<Rightarrow> nat \<Rightarrow> pathElements option"

subsection \<open>MaciState and Poll\<close>

text \<open>The fields of \<^verbatim>\<open>MaciState\<close> that Poll.ts reads and writes. A poll holds a reference
  to the MaciState it was made for; the model passes the shared MaciState next to the
  poll and returns it updated.\<close>

record maciState =
  ms_stateLeaves :: "stateLeaf list"
  ms_stateTree :: tree
  ms_stateTreeDepth :: nat
  numSignUps :: nat
  numPolls :: nat
  pollBeingProcessed :: bool
  currentPollBeingProcessed :: "nat option"

record treeDepths =
  intStateTreeDepth :: nat
  messageTreeDepth :: nat
  messageTreeSubDepth :: nat
  voteOptionTreeDepth :: nat

record batchSizes =
  tallyBatchSize :: nat
  subsidyBatchSize :: nat
  messageBatchSize :: nat

record maxValues =
  maxMessages :: nat
  maxVoteOptions :: nat

text \<open>The fields of a Poll. \<^verbatim>\<open>stateTree\<close>, \<^verbatim>\<open>ballotTree\<close> and
  \<^verbatim>\<open>currentMessageBatchIndex\<close> are declared without a value: \<open>None\<close> is \<^verbatim>\<open>undefined\<close>.
  The salt dictionaries are maps.\<close>

record poll =
  coordinatorKeypair :: keypair
  p_treeDepths :: treeDepths
  p_batchSizes :: batchSizes
  p_maxValues :: maxValues
  stateTreeDepth :: nat
  pollEndTimestamp :: int
  ballots :: "ballot list"
  ballotTree :: "tree option"
  messages :: "message list"
  messageTree :: tree
  commands :: "command list"
  encPubKeys :: "pubKey list"
  stateCopied :: bool
  stateLeaves :: "stateLeaf list"
  stateTree :: "tree option"
  numBatchesProcessed :: nat
  currentMessageBatchIndex :: "nat option"
  pollId :: nat
  sbSalts :: "nat \<rightharpoonup> int"
  resultRootSalts :: "nat \<rightharpoonup> int"
  preVOSpentVoiceCreditsRootSalts :: "nat \<rightharpoonup> int"
  spentVoiceCreditSubtotalSalts :: "nat \<rightharpoonup> int"
  tallyResult :: "int list"
  perVOSpentVoiceCredits :: "int list"
  numBatchesTallied :: nat
  totalSpentVoiceCredits :: int
  subsidy :: "int list"
  subsidySalts :: "(nat \<times> nat) \<rightharpoonup> int"
  rbi :: nat
  cbi :: nat
  MM :: nat
  WW :: nat
  emptyBallot :: ballot

text \<open>The constructor.\<close>

definition newPoll ::
  "externals \<Rightarrow> int \<Rightarrow> keypair \<Rightarrow> treeDepths \<Rightarrow> batchSizes \<Rightarrow> maxValues \<Rightarrow> maciState \<Rightarrow> poll"
where
  "newPoll ex endTimestamp kp td bs mv ms =
     \<lparr>coordinatorKeypair = kp,
      p_treeDepths = td,
      p_batchSizes = bs,
      p_maxValues = mv,
      stateTreeDepth = ms_stateTreeDepth ms,
      pollEndTimestamp = endTimestamp,
      ballots = [genBlankBallot (maxVoteOptions mv)],
      ballotTree = None,
      messages = [],
      messageTree = newTree (messageTreeDepth td) (NOTHING_UP_MY_SLEEVE ex),
      commands = [],
      encPubKeys = [],
      stateCopied = False,
      stateLeaves = [blankStateLeaf ex],
      stateTree = None,
      numBatchesProcessed = 0,
      currentMessageBatchIndex = None,
      pollId = numPolls ms,
      sbSalts = Map.empty,
      resultRootSalts = Map.empty,
      preVOSpentVoiceCreditsRootSalts = Map.empty,
      spentVoiceCreditSubtotalSalts = Map.empty,
      tallyResult = replicate (maxVoteOptions mv) 0,
      perVOSpentVoiceCredits = replicate (maxVoteOptions mv) 0,
      numBatchesTallied = 0,
      totalSpentVoiceCredits = 0,
      subsidy = replicate (maxVoteOptions mv) 0,
      subsidySalts = Map.empty,
      rbi = 0,
      cbi = 0,
      MM = 50,
      WW = 4,
      emptyBallot = genBlankBallot (maxVoteOptions mv)\<rparr>"

subsection \<open>Message ingest\<close>

text \<open>The pad key that \<^verbatim>\<open>topupMessage\<close> stores for a topup message.\<close>

definition padKey :: pubKey where
  "padKey =
     (10457101036533406547632367118273992217979173478358440826365724437999023779287,
      19824078218392094440610104313265183977899662750282163392862422243483260492317)"

text \<open>The loop \<^verbatim>\<open>for (const d of message.data) assert(d < SNARK_FIELD_SIZE)\<close>.\<close>

definition dataInRange :: "message \<Rightarrow> bool" where
  "dataInRange m = list_all (\<lambda>d. d < SNARK_FIELD_SIZE) (data m)"

definition topupMessage :: "externals \<Rightarrow> poll \<Rightarrow> message \<Rightarrow> exn + poll" where
  "topupMessage ex p m =
     (if msgType m \<noteq> 2 then Inl (AssertionError ''A Topup message must have msgType 2'')
      else if \<not> dataInRange m
        then Inl (AssertionError ''The message data is not in the correct range'')
      else
        let command = \<lparr>t_stateIndex = nth_opt (data m) 0, amount = nth_opt (data m) 1,
                        t_pollId = int (pollId p)\<rparr>
        in Inr (p\<lparr>messages := messages p @ [m],
                  encPubKeys := encPubKeys p @ [padKey],
                  messageTree := insert_leaf (messageTree p) (hashMessage ex m padKey),
                  commands := commands p @ [TCmd command]\<rparr>))"

text \<open>\<^verbatim>\<open>publishMessage\<close>. When decryption throws, the command stored is a PCommand of
  zeros with the public key of a freshly generated keypair, here the argument
  \<open>freshPubKey\<close>.\<close>

definition publishMessage :: "externals \<Rightarrow> pubKey \<Rightarrow> poll \<Rightarrow> message \<Rightarrow> pubKey \<Rightarrow> exn + poll"
where
  "publishMessage ex freshPubKey p m encPubKey =
     (if msgType m \<noteq> 1
        then Inl (AssertionError ''A vote or key change message must have msgType 1'')
      else if \<not> (fst encPubKey < SNARK_FIELD_SIZE \<and> snd encPubKey < SNARK_FIELD_SIZE)
        then Inl (AssertionError ''The public key is not in the correct range'')
      else if \<not> dataInRange m
        then Inl (AssertionError ''The message data is not in the correct range'')
      else
        let p1 = p\<lparr>encPubKeys := encPubKeys p @ [encPubKey],
                   messages := messages p @ [m],
                   messageTree := insert_leaf (messageTree p) (hashMessage ex m encPubKey)\<rparr>;
            sharedKey = genEcdhSharedKey ex (kp_privKey (coordinatorKeypair p)) encPubKey
        in (case decrypt ex m sharedKey of
              Some (command, signature) \<Rightarrow> Inr (p1\<lparr>commands := commands p1 @ [PCmd command]\<rparr>)
            | None \<Rightarrow>
                let command = \<lparr>stateIndex = 0, newPubKey = freshPubKey, voteOptionIndex = 0,
                                newVoteWeight = 0, cmd_nonce = 0, cmd_pollId = 0, salt = 0\<rparr>
                in Inr (p1\<lparr>commands := commands p1 @ [PCmd command]\<rparr>)))"

subsection \<open>Counting the batches\<close>

text \<open>\<^verbatim>\<open>Math.floor(length / batchSize)\<close> is \<^verbatim>\<open>Infinity\<close> for a batch size of 0 (the length
  is positive in that branch); \<^verbatim>\<open>length % 0\<close> is \<^verbatim>\<open>NaN\<close>, and \<^verbatim>\<open>NaN > 0\<close> is false.\<close>

definition totalBatches :: "poll \<Rightarrow> enat" where
  "totalBatches p =
     (let batchSize = messageBatchSize (p_batchSizes p);
          n = length (messages p);
          total = (if n \<le> batchSize then 1
                   else if batchSize = 0 then \<infinity> else enat (n div batchSize))
      in if n > batchSize \<and> batchSize \<noteq> 0 \<and> n mod batchSize > 0 then total + 1 else total)"

definition hasUnprocessedMessages :: "poll \<Rightarrow> bool" where
  "hasUnprocessedMessages p = (enat (numBatchesProcessed p) < totalBatches p)"

subsection \<open>The state snapshot\<close>

text \<open>The loop of \<^verbatim>\<open>copyStateFromMaci\<close>: while there are fewer ballots than state leaves,
  insert the hash of the empty ballot into the ballot tree and push the empty ballot.\<close>

function fillBallots :: "int \<Rightarrow> ballot \<Rightarrow> nat \<Rightarrow> tree \<times> ballot list \<Rightarrow> tree \<times> ballot list"
where
  "fillBallots h eb n (t, bs) =
     (if length bs < n then fillBallots h eb n (insert_leaf t h, bs @ [eb]) else (t, bs))"
  by pat_completeness auto
termination
  by (relation "measure (\<lambda>(h, eb, n, t, bs). n - length bs)") auto

definition copyStateFromMaci :: "externals \<Rightarrow> poll \<Rightarrow> maciState \<Rightarrow> exn + poll" where
  "copyStateFromMaci ex p ms =
     (if length (ms_stateLeaves ms) \<noteq> nextIndex (ms_stateTree ms) then Inl (AssertionError [])
      else
        let emptyBallotHash = hashBallot ex (emptyBallot p);
            bt0 = insert_leaf (newTree (stateTreeDepth p) emptyBallotHash) emptyBallotHash;
            (bt, bs) = fillBallots emptyBallotHash (emptyBallot p)
                         (length (ms_stateLeaves ms)) (bt0, ballots p)
        in Inr (p\<lparr>stateLeaves := ms_stateLeaves ms,
                  stateTree := Some (ms_stateTree ms),
                  ballotTree := Some bt,
                  ballots := bs,
                  stateCopied := True\<rparr>))"

subsection \<open>The command state machine\<close>

record processMessagesOutput =
  stateLeafIndex :: nat
  newStateLeaf :: stateLeaf
  originalStateLeaf :: stateLeaf
  originalStateLeafPathElements :: pathElements
  originalVoteWeight :: int
  originalVoteWeightsPathElements :: pathElements
  newBallot :: ballot
  originalBallot :: ballot
  originalBallotPathElements :: pathElements
  o_command :: pCommand

text \<open>The body of the \<^verbatim>\<open>try\<close> block of \<^verbatim>\<open>processMessage\<close>. Reading a field of
  \<^verbatim>\<open>undefined\<close> is a \<open>TypeError\<close>, \<^verbatim>\<open>BigInt("undefined")\<close> a \<open>SyntaxError\<close>; an exception
  of a collaborator is an \<open>ExternalError\<close>.\<close>

definition processMessageBody ::
  "externals \<Rightarrow> poll \<Rightarrow> message \<Rightarrow> pubKey \<Rightarrow> exn + processMessagesOutput"
where
  "processMessageBody ex p m encPubKey =
     (let sharedKey = genEcdhSharedKey ex (kp_privKey (coordinatorKeypair p)) encPubKey in
      orThrow (decrypt ex m sharedKey) ExternalError (\<lambda>(command, signature).
      let sli = stateIndex command in
      if sli \<ge> int (length (ballots p)) \<or> sli < 1
        then Inl (ProcessMessageError InvalidStateLeafIndex)
      else orThrow (stateTree p) TypeError (\<lambda>st.
      if sli \<ge> int (nextIndex st)
        then Inl (ProcessMessageError InvalidStateLeafIndex)
      else orThrow (nth_opt (stateLeaves p) (nat sli)) TypeError (\<lambda>stateLeaf.
      let ballot = ballots p ! nat sli in
      if \<not> verifySignature ex command signature (sl_pubKey stateLeaf)
        then Inl (ProcessMessageError InvalidSignature)
      else if cmd_nonce command \<noteq> nonce ballot + 1
        then Inl (ProcessMessageError InvalidNonce)
      else if voteOptionIndex command < 0
              \<or> voteOptionIndex command \<ge> int (maxVoteOptions (p_maxValues p))
        then Inl (ProcessMessageError InvalidVoteOptionIndex)
      else
      let voi = nat (voteOptionIndex command) in
      orThrow (nth_opt (votes ballot) voi) SyntaxError (\<lambda>ovw.
      let voiceCreditsLeft =
            voiceCreditBalance stateLeaf + ovw * ovw
              - newVoteWeight command * newVoteWeight command in
      if voiceCreditsLeft < 0
        then Inl (ProcessMessageError InsufficientVoiceCredits)
      else
      let nsl = stateLeaf\<lparr>voiceCreditBalance := voiceCreditsLeft,
                          sl_pubKey := newPubKey command\<rparr>;
          nb = ballot\<lparr>nonce := nonce ballot + 1,
                      votes := (votes ballot)[voi := newVoteWeight command]\<rparr> in
      orThrow (genMerklePath ex st (nat sli)) ExternalError (\<lambda>slPath.
      orThrow (ballotTree p) TypeError (\<lambda>bt.
      orThrow (genMerklePath ex bt (nat sli)) ExternalError (\<lambda>bPath.
      orThrow (voteTreePath ex (voteOptionTreeDepth (p_treeDepths p))
                 (map (nth_opt (votes ballot)) [0 ..< length (votes (ballots p ! 0))]) voi)
        ExternalError (\<lambda>vPath.
          Inr \<lparr>stateLeafIndex = nat sli,
               newStateLeaf = nsl,
               originalStateLeaf = stateLeaf,
               originalStateLeafPathElements = slPath,
               originalVoteWeight = ovw,
               originalVoteWeightsPathElements = vPath,
               newBallot = nb,
               originalBallot = ballot,
               originalBallotPathElements = bPath,
               o_command = command\<rparr>)))))))))"

text \<open>The \<^verbatim>\<open>catch\<close> of \<^verbatim>\<open>processMessage\<close>: a ProcessMessageError is thrown again, every
  other exception becomes \<open>FailedDecryption\<close>.\<close>

definition processMessage ::
  "externals \<Rightarrow> poll \<Rightarrow> message \<Rightarrow> pubKey \<Rightarrow> exn + processMessagesOutput"
where
  "processMessage ex p m encPubKey =
     (case processMessageBody ex p m encPubKey of
        Inr r \<Rightarrow> Inr r
      | Inl (ProcessMessageError e) \<Rightarrow> Inl (ProcessMessageError e)
      | Inl _ \<Rightarrow> Inl (ProcessMessageError FailedDecryption))"

subsection \<open>The batch processor\<close>

text \<open>The six arrays of \<^verbatim>\<open>processMessages\<close> that collect the data of the batch; a vote
  weight read beyond a ballot's votes is \<^verbatim>\<open>undefined\<close>.\<close>

record batchWitness =
  currentStateLeaves :: "stateLeaf list"
  currentStateLeavesPathElements :: "pathElements list"
  currentBallots :: "ballot list"
  currentBallotsPathElements :: "pathElements list"
  currentVoteWeights :: "int option list"
  currentVoteWeightsPathElements :: "pathElements list"

definition emptyWitness :: batchWitness where
  "emptyWitness = \<lparr>currentStateLeaves = [], currentStateLeavesPathElements = [],
                    currentBallots = [], currentBallotsPathElements = [],
                    currentVoteWeights = [], currentVoteWeightsPathElements = []\<rparr>"

text \<open>The blank data put in front of the arrays for a rejected command and for a slot
  beyond the messages: the state leaf, the ballot and the vote weight of index 0 with
  their paths.\<close>

definition unshiftBlank :: "externals \<Rightarrow> poll \<Rightarrow> batchWitness \<Rightarrow> exn + batchWitness" where
  "unshiftBlank ex p w =
     orThrow (nth_opt (stateLeaves p) 0) TypeError (\<lambda>leaf0.
     orThrow (stateTree p) TypeError (\<lambda>st.
     orThrow (genMerklePath ex st 0) ExternalError (\<lambda>slPath.
     orThrow (nth_opt (ballots p) 0) TypeError (\<lambda>ballot0.
     orThrow (ballotTree p) TypeError (\<lambda>bt.
     orThrow (genMerklePath ex bt 0) ExternalError (\<lambda>bPath.
     orThrow (voteTreePath ex (voteOptionTreeDepth (p_treeDepths p))
                [nth_opt (votes ballot0) 0] 0) ExternalError (\<lambda>vPath.
       Inr (w\<lparr>currentStateLeaves := leaf0 # currentStateLeaves w,
               currentStateLeavesPathElements := slPath # currentStateLeavesPathElements w,
               currentBallots := ballot0 # currentBallots w,
               currentBallotsPathElements := bPath # currentBallotsPathElements w,
               currentVoteWeights := nth_opt (votes ballot0) 0 # currentVoteWeights w,
               currentVoteWeightsPathElements :=
                 vPath # currentVoteWeightsPathElements w\<rparr>))))))))"

text \<open>A slot with a message of type 1. An \<^verbatim>\<open>encPubKeys[idx]\<close> that is \<^verbatim>\<open>undefined\<close> makes
  the key agreement inside \<^verbatim>\<open>processMessage\<close> throw, which its \<^verbatim>\<open>catch\<close> turns into
  \<open>FailedDecryption\<close>. The index of an accepted command is within \<open>stateLeaves\<close> and
  \<open>ballots\<close>, so the two assignments replace an element.\<close>

definition processVoteSlot ::
  "externals \<Rightarrow> nat \<Rightarrow> message \<Rightarrow> poll \<times> batchWitness \<Rightarrow> exn + poll \<times> batchWitness"
where
  "processVoteSlot ex idx m s =
     (let p = fst s; w = snd s in
      case (case nth_opt (encPubKeys p) idx of
              None \<Rightarrow> Inl (ProcessMessageError FailedDecryption)
            | Some encPubKey \<Rightarrow> processMessage ex p m encPubKey) of
        Inr r \<Rightarrow>
          (let index = stateLeafIndex r;
               w1 = w\<lparr>currentStateLeaves := originalStateLeaf r # currentStateLeaves w,
                      currentBallots := originalBallot r # currentBallots w,
                      currentVoteWeights := Some (originalVoteWeight r) # currentVoteWeights w,
                      currentVoteWeightsPathElements :=
                        originalVoteWeightsPathElements r # currentVoteWeightsPathElements w,
                      currentStateLeavesPathElements :=
                        originalStateLeafPathElements r # currentStateLeavesPathElements w,
                      currentBallotsPathElements :=
                        originalBallotPathElements r # currentBallotsPathElements w\<rparr>
           in orThrow (stateTree p) TypeError (\<lambda>st.
              orThrow (update_leaf st index (hashStateLeaf ex (newStateLeaf r)))
                ExternalError (\<lambda>st1.
              orThrow (ballotTree p) TypeError (\<lambda>bt.
              orThrow (update_leaf bt index (hashBallot ex (newBallot r)))
                ExternalError (\<lambda>bt1.
                Inr (p\<lparr>stateLeaves := (stateLeaves p)[index := newStateLeaf r],
                        stateTree := Some st1,
                        ballots := (ballots p)[index := newBallot r],
                        ballotTree := Some bt1\<rparr>, w1))))))
      | Inl (ProcessMessageError e) \<Rightarrow>
          (case unshiftBlank ex p w of Inl x \<Rightarrow> Inl x | Inr w1 \<Rightarrow> Inr (p, w1))
      | Inl e \<Rightarrow> Inl e)"

text \<open>A slot with a message of type 2 (a topup). A negative or missing \<^verbatim>\<open>data[0]\<close> reads
  \<^verbatim>\<open>undefined\<close> from \<open>stateLeaves\<close>; adding a missing \<^verbatim>\<open>data[1]\<close> to a bigint is a
  \<open>TypeError\<close> as well.\<close>

definition processTopupSlot ::
  "externals \<Rightarrow> message \<Rightarrow> poll \<times> batchWitness \<Rightarrow> exn + poll \<times> batchWitness"
where
  "processTopupSlot ex m s =
     (let p = fst s; w = snd s in
      orThrow (nth_opt (data m) 0) TypeError (\<lambda>d0.
      let outside = (d0 \<ge> int (length (ballots p)));
          amountOpt = (if outside then Some 0 else nth_opt (data m) 1) in
      if \<not> outside \<and> d0 < 0 then Inl TypeError
      else
      let stateIndex = (if outside then 0 else nat d0) in
      orThrow (nth_opt (stateLeaves p) stateIndex) TypeError (\<lambda>leaf.
      orThrow (stateTree p) TypeError (\<lambda>st.
      orThrow (genMerklePath ex st stateIndex) ExternalError (\<lambda>slPath.
      orThrow amountOpt TypeError (\<lambda>amt.
      let nsl = leaf\<lparr>voiceCreditBalance := voiceCreditBalance leaf + amt\<rparr> in
      orThrow (update_leaf st stateIndex (hashStateLeaf ex nsl)) ExternalError (\<lambda>st1.
      orThrow (nth_opt (ballots p) stateIndex) TypeError (\<lambda>currentBallot.
      orThrow (ballotTree p) TypeError (\<lambda>bt.
      orThrow (genMerklePath ex bt stateIndex) ExternalError (\<lambda>bPath.
      orThrow (nth_opt (ballots p) 0) TypeError (\<lambda>ballot0.
      orThrow (voteTreePath ex (voteOptionTreeDepth (p_treeDepths p))
                 (map (nth_opt (votes currentBallot)) [0 ..< length (votes ballot0)]) 0)
        ExternalError (\<lambda>vPath.
        Inr (p\<lparr>stateLeaves := (stateLeaves p)[stateIndex := nsl],
                stateTree := Some st1\<rparr>,
             w\<lparr>currentStateLeaves := leaf # currentStateLeaves w,
               currentStateLeavesPathElements := slPath # currentStateLeavesPathElements w,
               currentBallots := currentBallot # currentBallots w,
               currentBallotsPathElements := bPath # currentBallotsPathElements w,
               currentVoteWeights := nth_opt (votes currentBallot) 0 # currentVoteWeights w,
               currentVoteWeightsPathElements :=
                 vPath # currentVoteWeightsPathElements w\<rparr>)))))))))))))"

text \<open>One round of the loop over the batch, for the message index \<open>idx\<close>.\<close>

definition processSlot ::
  "externals \<Rightarrow> nat \<Rightarrow> poll \<times> batchWitness \<Rightarrow> exn + poll \<times> batchWitness"
where
  "processSlot ex idx s =
     (if idx < length (messages (fst s)) then
        (let m = messages (fst s) ! idx in
         if msgType m = 1 then processVoteSlot ex idx m s
         else if msgType m = 2 then processTopupSlot ex m s
         else Inr s)
      else (case unshiftBlank ex (fst s) (snd s) of
              Inl x \<Rightarrow> Inl x
            | Inr w1 \<Rightarrow> Inr (fst s, w1)))"

text \<open>The loop \<^verbatim>\<open>for (let i = 0; i < batchSize; i++)\<close> from its round \<open>i\<close> on, for the
  batch that starts at \<open>start\<close>.\<close>

function processBatchLoop ::
  "externals \<Rightarrow> nat \<Rightarrow> nat \<Rightarrow> nat \<Rightarrow> poll \<times> batchWitness \<Rightarrow> exn + poll \<times> batchWitness"
where
  "processBatchLoop ex start batchSize i s =
     (if i < batchSize then
        (case processSlot ex (start + batchSize - i - 1) s of
           Inl e \<Rightarrow> Inl e
         | Inr s1 \<Rightarrow> processBatchLoop ex start batchSize (i + 1) s1)
      else Inr s)"
  by pat_completeness auto
termination
  by (relation "measure (\<lambda>(ex, start, batchSize, i, s). batchSize - i)") auto

subsection \<open>The circuit inputs of a batch\<close>

text \<open>The loop \<^verbatim>\<open>while (xs.length % batchSize > 0) xs.push(xs[xs.length - 1])\<close>; for a
  batch size of 0 the remainder is \<^verbatim>\<open>NaN\<close> and the loop does not run.\<close>

function padLast :: "nat \<Rightarrow> 'a list \<Rightarrow> 'a list" where
  "padLast batchSize xs =
     (if batchSize \<noteq> 0 \<and> length xs mod batchSize > 0
      then padLast batchSize (xs @ [last xs]) else xs)"
  by pat_completeness auto
termination
proof (relation "measure (\<lambda>(b, xs). (b - length xs mod b) mod b)", goal_cases)
  case 1
  show ?case by simp
next
  case (2 b xs)
  then have b: "0 < b" and r: "0 < length xs mod b" by simp_all
  have lt: "length xs mod b < b" using b by simp
  show ?case
  proof (cases "Suc (length xs mod b) = b")
    case True
    then have "Suc (length xs) mod b = 0" by (simp add: mod_Suc)
    moreover have "(b - length xs mod b) mod b = 1" using True r b by (cases b) auto
    ultimately show ?thesis by simp
  next
    case False
    then have "Suc (length xs) mod b = Suc (length xs mod b)" by (simp add: mod_Suc)
    moreover have "Suc (length xs mod b) < b" using False lt by simp
    ultimately show ?thesis using r lt by simp
  qed
qed

text \<open>The loop \<^verbatim>\<open>while (messageTree.nextIndex < n) messageTree.insert(zeroValue)\<close>.\<close>

function padTree :: "nat \<Rightarrow> tree \<Rightarrow> tree" where
  "padTree n t = (if nextIndex t < n then padTree n (insert_leaf t (zeroValue t)) else t)"
  by pat_completeness auto
termination
  by (relation "measure (\<lambda>(n, t). n - nextIndex t)")
     (auto simp: nextIndex_def insert_leaf_def)

text \<open>\<^verbatim>\<open>Array.prototype.slice(a, b)\<close> for numbers \<open>a \<le> b\<close>.\<close>

definition slice :: "'a list \<Rightarrow> nat \<Rightarrow> nat \<Rightarrow> 'a list" where
  "slice xs a b = take (b - a) (drop a xs)"

text \<open>What the model keeps of the circuit inputs: the packed values, the messages and
  keys of the batch, the salts and the six arrays of the batch. The roots, the
  commitments and the input hash are hashes of these by the crypto library and are left
  out.\<close>

record circuitInputs =
  packedVals :: int
  msgs :: "message list"
  ci_encPubKeys :: "pubKey list"
  msgSubrootPathElements :: pathElements
  currentSbSalt :: "int option"
  newSbSalt :: "int option"
  ci_witness :: batchWitness

text \<open>\<^verbatim>\<open>genProcessMessagesCircuitInputsPartial\<close>. A command restored from JSON with an
  unknown \<^verbatim>\<open>cmdType\<close> has no \<^verbatim>\<open>copy\<close> method. The subroot path of the library is checked
  by an assertion; both are one failure of the collaborator here.\<close>

definition genProcessMessagesCircuitInputsPartial ::
  "externals \<Rightarrow> poll \<Rightarrow> maciState \<Rightarrow> nat \<Rightarrow> exn + poll \<times> circuitInputs"
where
  "genProcessMessagesCircuitInputsPartial ex p ms index =
     (let messageBatchSize = messageBatchSize (p_batchSizes p) in
      if \<not> index \<le> length (messages p)
        then Inl (AssertionError ''The index must be <= the number of messages'')
      else if messageBatchSize = 0 \<or> index mod messageBatchSize \<noteq> 0
        then Inl (AssertionError ''The index must be a multiple of the message batch size'')
      else
      let msgs1 = slice (padLast messageBatchSize (messages p)) index (index + messageBatchSize)
      in
      if \<exists>c \<in> set (commands p). case c of OtherCmd t \<Rightarrow> True | _ \<Rightarrow> False
        then Inl TypeError
      else
      let mt = padTree (index + messageBatchSize) (messageTree p) in
      orThrow (genMerkleSubrootPath ex mt index (index + messageBatchSize)) ExternalError
        (\<lambda>subrootPath.
      let batchEndIndex = (if index + messageBatchSize > length (messages p)
                           then length (messages p) else index + messageBatchSize);
          keys = slice (padLast messageBatchSize (encPubKeys p)) index
                   (index + messageBatchSize) in
      orThrow (stateTree p) TypeError (\<lambda>st.
      orThrow (ballotTree p) TypeError (\<lambda>bt.
        Inr (p\<lparr>messageTree := mt\<rparr>,
             \<lparr>packedVals =
                int (maxVoteOptions (p_maxValues p)) + int (numSignUps ms) * 2 ^ 50
                  + int index * 2 ^ 100 + int batchEndIndex * 2 ^ 150,
              msgs = msgs1,
              ci_encPubKeys = keys,
              msgSubrootPathElements = subrootPath,
              currentSbSalt =
                (case currentMessageBatchIndex p of
                   None \<Rightarrow> None | Some c \<Rightarrow> sbSalts p c),
              newSbSalt = None,
              ci_witness = emptyWitness\<rparr>)))))"

subsection \<open>\<^verbatim>\<open>processMessages\<close>\<close>

text \<open>The index of the first batch: \<^verbatim>\<open>length - batchSize\<close> when the remainder \<open>r\<close> is 0
  and \<^verbatim>\<open>length - r\<close> otherwise, for a positive length. \<open>None\<close> is \<^verbatim>\<open>NaN\<close> (a batch
  size of 0).\<close>

definition firstBatchIndex :: "nat \<Rightarrow> nat \<Rightarrow> nat option" where
  "firstBatchIndex n batchSize =
     (if n > 0 then
        (if batchSize = 0 then None
         else if n mod batchSize = 0 then Some (n - batchSize)
         else Some (n - n mod batchSize))
      else Some n)"

text \<open>The salts: \<^verbatim>\<open>genRandomSalt()\<close> is called until its value differs from the salt
  stored for the index. The model takes the values the source of randomness will give,
  in order; when they run out before a different one is found, the loop has not ended
  yet.\<close>

fun pickSalt :: "int option \<Rightarrow> int list \<Rightarrow> int option" where
  "pickSalt old [] = None"
| "pickSalt old (s # rest) = (if old = Some s then pickSalt old rest else Some s)"

text \<open>The first part of \<^verbatim>\<open>processMessages\<close>, up to the state snapshot: the lock on the
  MaciState, the index of the batch and its two assertions.\<close>

definition startBatch ::
  "externals \<Rightarrow> nat \<Rightarrow> poll \<times> maciState \<Rightarrow> exn + poll \<times> maciState"
where
  "startBatch ex pid s =
     (let p = fst s; ms = snd s; batchSize = messageBatchSize (p_batchSizes p) in
      if \<not> hasUnprocessedMessages p
        then Inl (AssertionError ''No more messages to process'')
      else if numBatchesProcessed p = 0 \<and> currentMessageBatchIndex p \<noteq> None
        then Inl (AssertionError
          ''The current message batch index should not be defined if this is the first batch'')
      else
      let ms1 = (if numBatchesProcessed p = 0
                 then ms\<lparr>pollBeingProcessed := True, currentPollBeingProcessed := Some pid\<rparr>
                 else ms) in
      if pollBeingProcessed ms1 \<and> currentPollBeingProcessed ms1 \<noteq> Some pid
        then Inl (AssertionError ''Another poll is currently being processed'')
      else
      let p1 = (if numBatchesProcessed p = 0
                then (case firstBatchIndex (length (messages p)) batchSize of
                        None \<Rightarrow> p\<lparr>currentMessageBatchIndex := None\<rparr>
                      | Some c \<Rightarrow> p\<lparr>currentMessageBatchIndex := Some c,
                                     sbSalts := (sbSalts p)(c \<mapsto> 0)\<rparr>)
                else p) in
      case currentMessageBatchIndex p1 of
        None \<Rightarrow> Inl (AssertionError ''The starting index must be >= 0'')
      | Some c \<Rightarrow>
          if batchSize = 0 \<or> c mod batchSize \<noteq> 0
            then Inl (AssertionError
              ''The starting index must be a multiple of the batch size'')
          else if \<not> stateCopied p1
            then (case copyStateFromMaci ex p1 ms1 of
                    Inl e \<Rightarrow> Inl e | Inr p2 \<Rightarrow> Inr (p2, ms1))
          else Inr (p1, ms1))"

text \<open>The rest of \<^verbatim>\<open>processMessages\<close>: the circuit inputs of the batch, the loop over its
  slots, the counters, the new salt and the release of the lock.\<close>

definition finishBatch ::
  "externals \<Rightarrow> int list \<Rightarrow> poll \<times> maciState
     \<Rightarrow> (exn + poll \<times> maciState \<times> circuitInputs) option"
where
  "finishBatch ex salts s =
     (let p = fst s; ms = snd s; batchSize = messageBatchSize (p_batchSizes p) in
      case currentMessageBatchIndex p of
        None \<Rightarrow> Some (Inl TypeError)
      | Some start \<Rightarrow>
      (case genProcessMessagesCircuitInputsPartial ex p ms start of
         Inl e \<Rightarrow> Some (Inl e)
       | Inr (p1, inputs) \<Rightarrow>
      (case processBatchLoop ex start batchSize 0 (p1, emptyWitness) of
         Inl e \<Rightarrow> Some (Inl e)
       | Inr (p2, w) \<Rightarrow>
      (let next = (if start > 0 then start - batchSize else start) in
       case pickSalt (sbSalts p2 next) salts of
         None \<Rightarrow> None
       | Some newSalt \<Rightarrow>
         (let p3 = p2\<lparr>numBatchesProcessed := numBatchesProcessed p2 + 1,
                     currentMessageBatchIndex := Some next,
                     sbSalts := (sbSalts p2)(next \<mapsto> newSalt)\<rparr>;
              ms1 = (if numBatchesProcessed p3 * batchSize \<ge> length (messages p3)
                     then ms\<lparr>pollBeingProcessed := False\<rparr> else ms)
          in Some (Inr (p3, ms1,
                        inputs\<lparr>ci_witness := w, newSbSalt := Some newSalt\<rparr>)))))))"

definition processMessages ::
  "externals \<Rightarrow> int list \<Rightarrow> nat \<Rightarrow> poll \<times> maciState
     \<Rightarrow> (exn + poll \<times> maciState \<times> circuitInputs) option"
where
  "processMessages ex salts pid s =
     (case startBatch ex pid s of
        Inl e \<Rightarrow> Some (Inl e)
      | Inr s1 \<Rightarrow> finishBatch ex salts s1)"

subsection \<open>The tally\<close>

definition hasUntalliedBallots :: "poll \<Rightarrow> bool" where
  "hasUntalliedBallots p =
     (numBatchesTallied p * tallyBatchSize (p_batchSizes p) < length (ballots p))"

text \<open>The loop over the vote options \<open>j\<close> of one ballot in \<^verbatim>\<open>tallyVotes\<close>, from \<open>j\<close> on.
  \<^verbatim>\<open>BigInt(`${x}`)\<close> of an \<^verbatim>\<open>undefined\<close> \<open>x\<close> is a \<open>SyntaxError\<close>.\<close>

function tallyOptions :: "ballot \<Rightarrow> nat \<Rightarrow> nat \<Rightarrow> poll \<Rightarrow> exn + poll" where
  "tallyOptions b numOptions j p =
     (if j < numOptions then
        (case nth_opt (votes b) j of
           None \<Rightarrow> Inl SyntaxError
         | Some v \<Rightarrow>
        (case nth_opt (tallyResult p) j of
           None \<Rightarrow> Inl SyntaxError
         | Some t \<Rightarrow>
        (case nth_opt (perVOSpentVoiceCredits p) j of
           None \<Rightarrow> Inl SyntaxError
         | Some c \<Rightarrow>
             tallyOptions b numOptions (j + 1)
               (p\<lparr>tallyResult := (tallyResult p)[j := t + v],
                  perVOSpentVoiceCredits := (perVOSpentVoiceCredits p)[j := c + v * v],
                  totalSpentVoiceCredits := totalSpentVoiceCredits p + v * v\<rparr>))))
      else Inr p)"
  by pat_completeness auto
termination
  by (relation "measure (\<lambda>(b, numOptions, j, p). numOptions - j)") auto

text \<open>The loop over the ballots \<open>i\<close> of the batch, from \<open>i\<close> on, with its \<^verbatim>\<open>break\<close> at the
  end of the ballots; \<open>acc\<close> is the array of the ballots of the batch.\<close>

function tallyBallots ::
  "nat \<Rightarrow> nat \<Rightarrow> poll \<times> ballot list \<Rightarrow> exn + poll \<times> ballot list"
where
  "tallyBallots i stop s =
     (if i < stop then
        (if i \<ge> length (ballots (fst s)) then Inr s
         else
           (case tallyOptions (ballots (fst s) ! i)
                   (maxVoteOptions (p_maxValues (fst s))) 0 (fst s) of
              Inl e \<Rightarrow> Inl e
            | Inr p1 \<Rightarrow> tallyBallots (i + 1) stop (p1, snd s @ [ballots (fst s) ! i])))
      else Inr s)"
  by pat_completeness auto
termination
  by (relation "measure (\<lambda>(i, stop, s). stop - i)") auto

text \<open>The loop \<^verbatim>\<open>while (xs.length < n) xs.push(x)\<close>.\<close>

function padTo :: "nat \<Rightarrow> 'a \<Rightarrow> 'a list \<Rightarrow> 'a list" where
  "padTo n x xs = (if length xs < n then padTo n x (xs @ [x]) else xs)"
  by pat_completeness auto
termination
  by (relation "measure (\<lambda>(n, x, xs). n - length xs)") auto

text \<open>The two commitments over the spent voice credits read \<^verbatim>\<open>ballots[i].votes[j]\<close> for
  the first \<open>n\<close> ballots and every \<open>j\<close> below the length of \<open>tallyResult\<close>, and throw a
  \<open>SyntaxError\<close> at a missing vote. Their values are hashes and are left out.\<close>

definition votesReadable :: "poll \<Rightarrow> nat \<Rightarrow> bool" where
  "votesReadable p n =
     list_all (\<lambda>b. length (tallyResult p) \<le> length (votes b)) (take n (ballots p))"

record tallyInputs =
  ti_ballots :: "ballot list"
  currentResults :: "int list"
  currentPerVOSpentVoiceCredits :: "int list"
  currentSpentVoiceCreditSubtotal :: int
  ballotPathElements :: pathElements

text \<open>\<^verbatim>\<open>tallyVotes\<close>; the three new salts are arguments.\<close>

definition tallyVotes ::
  "externals \<Rightarrow> int \<times> int \<times> int \<Rightarrow> poll \<Rightarrow> exn + poll \<times> tallyInputs"
where
  "tallyVotes ex salts p =
     (let batchSize = tallyBatchSize (p_batchSizes p) in
      if \<not> hasUntalliedBallots p then Inl (AssertionError ''No more ballots to tally'')
      else
      let batchStartIndex = numBatchesTallied p * batchSize in
      if \<not> votesReadable p batchStartIndex then Inl SyntaxError
      else
      (case tallyBallots batchStartIndex (batchStartIndex + batchSize) (p, []) of
         Inl e \<Rightarrow> Inl e
       | Inr (p1, bs) \<Rightarrow>
      let bs1 = padTo batchSize (genBlankBallot (maxVoteOptions (p_maxValues p))) bs;
          p2 = p1\<lparr>resultRootSalts := (resultRootSalts p1)(batchStartIndex \<mapsto> fst salts),
                  preVOSpentVoiceCreditsRootSalts :=
                    (preVOSpentVoiceCreditsRootSalts p1)
                      (batchStartIndex \<mapsto> fst (snd salts)),
                  spentVoiceCreditSubtotalSalts :=
                    (spentVoiceCreditSubtotalSalts p1)
                      (batchStartIndex \<mapsto> snd (snd salts))\<rparr> in
      if \<not> votesReadable p2 (batchStartIndex + batchSize) then Inl SyntaxError
      else
      orThrow (stateTree p2) TypeError (\<lambda>st.
      orThrow (ballotTree p2) TypeError (\<lambda>bt.
      orThrow (genMerkleSubrootPath ex bt batchStartIndex (batchStartIndex + batchSize))
        ExternalError (\<lambda>path.
        Inr (p2\<lparr>numBatchesTallied := numBatchesTallied p2 + 1\<rparr>,
             \<lparr>ti_ballots = bs1,
              currentResults = tallyResult p,
              currentPerVOSpentVoiceCredits = perVOSpentVoiceCredits p,
              currentSpentVoiceCreditSubtotal = totalSpentVoiceCredits p,
              ballotPathElements = path\<rparr>))))))"

text \<open>A run of \<^verbatim>\<open>tallyVotes\<close> calls, one for each triple of salts.\<close>

fun tallyRun :: "externals \<Rightarrow> (int \<times> int \<times> int) list \<Rightarrow> poll \<Rightarrow> exn + poll" where
  "tallyRun ex [] p = Inr p"
| "tallyRun ex (salts # rest) p =
     (case tallyVotes ex salts p of
        Inl e \<Rightarrow> Inl e
      | Inr (p1, inputs) \<Rightarrow> tallyRun ex rest p1)"

subsection \<open>The subsidy\<close>

definition hasUnfinishedSubsidyCalculation :: "poll \<Rightarrow> bool" where
  "hasUnfinishedSubsidyCalculation p =
     (rbi p * subsidyBatchSize (p_batchSizes p) < length (ballots p)
      \<and> cbi p * subsidyBatchSize (p_batchSizes p) < length (ballots p))"

text \<open>The division of two bigints rounds towards zero.\<close>

definition bigintDiv :: "int \<Rightarrow> int \<Rightarrow> int" where
  "bigintDiv a b = sgn a * sgn b * (\<bar>a\<bar> div \<bar>b\<bar>)"

text \<open>The loop of \<^verbatim>\<open>coefficientCalculation\<close> from \<open>q\<close> on; calling \<^verbatim>\<open>valueOf\<close> on a
  missing vote is a \<open>TypeError\<close>.\<close>

function dotProduct :: "ballot \<Rightarrow> ballot \<Rightarrow> nat \<Rightarrow> nat \<Rightarrow> int \<Rightarrow> exn + int" where
  "dotProduct rowBallot colBallot numOptions q acc =
     (if q < numOptions then
        (case nth_opt (votes rowBallot) q of
           None \<Rightarrow> Inl TypeError
         | Some vi \<Rightarrow>
        (case nth_opt (votes colBallot) q of
           None \<Rightarrow> Inl TypeError
         | Some vj \<Rightarrow> dotProduct rowBallot colBallot numOptions (q + 1) (acc + vi * vj)))
      else Inr acc)"
  by pat_completeness auto
termination
  by (relation "measure (\<lambda>(r, c, numOptions, q, acc). numOptions - q)") auto

text \<open>\<^verbatim>\<open>MM * 10 ** WW\<close> is a product of JavaScript numbers, exact below \<open>2^53\<close>; dividing
  a bigint by zero is a \<open>RangeError\<close>.\<close>

definition coefficientCalculation :: "poll \<Rightarrow> ballot \<Rightarrow> ballot \<Rightarrow> exn + int" where
  "coefficientCalculation p rowBallot colBallot =
     (case dotProduct rowBallot colBallot (maxVoteOptions (p_maxValues p)) 0 0 of
        Inl e \<Rightarrow> Inl e
      | Inr dot \<Rightarrow>
          if int (MM p) + dot = 0 then Inl RangeError
          else Inr (bigintDiv (int (MM p * 10 ^ WW p)) (int (MM p) + dot)))"

text \<open>\<^verbatim>\<open>row < this.ballots.length ? this.ballots[row] : emptyBallot\<close>\<close>

definition ballotAt :: "poll \<Rightarrow> nat \<Rightarrow> ballot" where
  "ballotAt p i =
     (if i < length (ballots p) then ballots p ! i
      else genBlankBallot (maxVoteOptions (p_maxValues p)))"

text \<open>The innermost loop of \<^verbatim>\<open>subsidyCalculation\<close> over the options \<open>q\<close>; \<open>cond\<close> is the
  test \<^verbatim>\<open>rowStartIndex !== colStartIndex || (rowStartIndex === colStartIndex && i < j)\<close>.\<close>

function subsidyOptions ::
  "ballot \<Rightarrow> ballot \<Rightarrow> int \<Rightarrow> bool \<Rightarrow> nat \<Rightarrow> nat \<Rightarrow> int list \<Rightarrow> exn + int list"
where
  "subsidyOptions rowBallot colBallot kij cond numOptions q sub =
     (if q < numOptions then
        (case nth_opt (votes rowBallot) q of
           None \<Rightarrow> Inl TypeError
         | Some vip \<Rightarrow>
        (case nth_opt (votes colBallot) q of
           None \<Rightarrow> Inl TypeError
         | Some vjp \<Rightarrow>
             if cond then
               (case nth_opt sub q of
                  None \<Rightarrow> Inl TypeError
                | Some old \<Rightarrow>
                    subsidyOptions rowBallot colBallot kij cond numOptions (q + 1)
                      (sub[q := old + 2 * kij * vip * vjp]))
             else subsidyOptions rowBallot colBallot kij cond numOptions (q + 1) sub))
      else Inr sub)"
  by pat_completeness auto
termination
  by (relation "measure (\<lambda>(r, c, k, cond, numOptions, q, sub). numOptions - q)") auto

text \<open>The loop over the columns \<open>j\<close> for the row \<open>i\<close>, from \<open>j\<close> on.\<close>

function subsidyCols :: "poll \<Rightarrow> nat \<Rightarrow> nat \<Rightarrow> nat \<Rightarrow> nat \<Rightarrow> int list \<Rightarrow> exn + int list"
where
  "subsidyCols p rowStartIndex colStartIndex i j sub =
     (if j < subsidyBatchSize (p_batchSizes p) then
        (let rowBallot = ballotAt p (rowStartIndex + i);
             colBallot = ballotAt p (colStartIndex + j) in
         case coefficientCalculation p rowBallot colBallot of
           Inl e \<Rightarrow> Inl e
         | Inr kij \<Rightarrow>
         (case subsidyOptions rowBallot colBallot kij
                 (rowStartIndex \<noteq> colStartIndex
                    \<or> (rowStartIndex = colStartIndex \<and> i < j))
                 (maxVoteOptions (p_maxValues p)) 0 sub of
            Inl e \<Rightarrow> Inl e
          | Inr sub1 \<Rightarrow> subsidyCols p rowStartIndex colStartIndex i (j + 1) sub1))
      else Inr sub)"
  by pat_completeness auto
termination
  by (relation "measure (\<lambda>(p, r, c, i, j, sub). subsidyBatchSize (p_batchSizes p) - j)") auto

text \<open>The loop over the rows \<open>i\<close>, from \<open>i\<close> on.\<close>

function subsidyRows :: "poll \<Rightarrow> nat \<Rightarrow> nat \<Rightarrow> nat \<Rightarrow> int list \<Rightarrow> exn + int list" where
  "subsidyRows p rowStartIndex colStartIndex i sub =
     (if i < subsidyBatchSize (p_batchSizes p) then
        (case subsidyCols p rowStartIndex colStartIndex i 0 sub of
           Inl e \<Rightarrow> Inl e
         | Inr sub1 \<Rightarrow> subsidyRows p rowStartIndex colStartIndex (i + 1) sub1)
      else Inr sub)"
  by pat_completeness auto
termination
  by (relation "measure (\<lambda>(p, r, c, i, sub). subsidyBatchSize (p_batchSizes p) - i)") auto

text \<open>\<^verbatim>\<open>subsidyCalculation\<close>: the two arrays of ballots of the first loop, and the subsidy
  updated by the loops over the pairs.\<close>

definition subsidyCalculation ::
  "poll \<Rightarrow> nat \<Rightarrow> nat \<Rightarrow> exn + poll \<times> ballot list \<times> ballot list"
where
  "subsidyCalculation p rowStartIndex colStartIndex =
     (let batchSize = subsidyBatchSize (p_batchSizes p);
          ballots1 = map (\<lambda>i. ballotAt p (rowStartIndex + i)) [0 ..< batchSize];
          ballots2 = map (\<lambda>i. ballotAt p (colStartIndex + i)) [0 ..< batchSize] in
      case subsidyRows p rowStartIndex colStartIndex 0 (subsidy p) of
        Inl e \<Rightarrow> Inl e
      | Inr sub \<Rightarrow> Inr (p\<lparr>subsidy := sub\<rparr>, ballots1, ballots2))"

text \<open>\<^verbatim>\<open>previousSubsidyIndexToString\<close>; the key \<^verbatim>\<open>"rbi-cbi"\<close> of the salts is the pair of
  the two numbers. \<^verbatim>\<open>Math.ceil(length / batchSize)\<close> is \<^verbatim>\<open>Infinity\<close> for a batch size
  of 0, a key without a salt.\<close>

definition previousSubsidyIndex :: "poll \<Rightarrow> (nat \<times> nat) option" where
  "previousSubsidyIndex p =
     (let batchSize = subsidyBatchSize (p_batchSizes p) in
      if cbi p = 0 \<and> rbi p = 0 then Some (0, 0)
      else if cbi p > rbi p then Some (rbi p, cbi p - 1)
      else if batchSize = 0 then None
      else Some (rbi p - 1, (length (ballots p) + batchSize - 1) div batchSize - 1))"

definition increaseSubsidyIndex :: "poll \<Rightarrow> poll" where
  "increaseSubsidyIndex p =
     (let batchSize = subsidyBatchSize (p_batchSizes p) in
      if cbi p * batchSize + batchSize < length (ballots p) then p\<lparr>cbi := cbi p + 1\<rparr>
      else p\<lparr>rbi := rbi p + 1, cbi := rbi p + 1\<rparr>)"

record subsidyInputs =
  currentSubsidy :: "int list"
  ballots1 :: "ballot list"
  ballots2 :: "ballot list"
  ballotPathElements1 :: pathElements
  ballotPathElements2 :: pathElements

text \<open>\<^verbatim>\<open>subsidyPerBatch\<close>; the new salt is an argument. From the second call on the
  salt of the previous index is read, and \<^verbatim>\<open>BigInt(undefined)\<close> is a \<open>TypeError\<close>.\<close>

definition subsidyPerBatch :: "externals \<Rightarrow> int \<Rightarrow> poll \<Rightarrow> exn + poll \<times> subsidyInputs" where
  "subsidyPerBatch ex newSalt p =
     (let batchSize = subsidyBatchSize (p_batchSizes p) in
      if \<not> hasUnfinishedSubsidyCalculation p
        then Inl (AssertionError ''No more subsidy batches to calculate'')
      else
      orThrow (stateTree p) TypeError (\<lambda>st.
      orThrow (ballotTree p) TypeError (\<lambda>bt.
      if (rbi p \<noteq> 0 \<or> cbi p \<noteq> 0)
         \<and> (case previousSubsidyIndex p of None \<Rightarrow> None | Some k \<Rightarrow> subsidySalts p k) = None
        then Inl TypeError
      else
      (case subsidyCalculation p (rbi p * batchSize) (cbi p * batchSize) of
         Inl e \<Rightarrow> Inl e
       | Inr (p1, bs1, bs2) \<Rightarrow>
      orThrow (genMerkleSubrootPath ex bt (rbi p * batchSize) (rbi p * batchSize + batchSize))
        ExternalError (\<lambda>path1.
      orThrow (genMerkleSubrootPath ex bt (cbi p * batchSize) (cbi p * batchSize + batchSize))
        ExternalError (\<lambda>path2.
        Inr (increaseSubsidyIndex
               (p1\<lparr>subsidySalts := (subsidySalts p1)((rbi p, cbi p) \<mapsto> newSalt)\<rparr>),
             \<lparr>currentSubsidy = subsidy p,
              ballots1 = bs1,
              ballots2 = bs2,
              ballotPathElements1 = path1,
              ballotPathElements2 = path2\<rparr>)))))))"

subsection \<open>Equality and JSON\<close>

text \<open>Modelled from the spec: the \<^verbatim>\<open>equals\<close> methods of Keypair, Message and PubKey of
  the domain library are missing; they compare the values field by field, which is
  equality of the model's values.\<close>

definition equals :: "poll \<Rightarrow> poll \<Rightarrow> bool" where
  "equals this p =
     (if \<not> (coordinatorKeypair this = coordinatorKeypair p
             \<and> intStateTreeDepth (p_treeDepths this) = intStateTreeDepth (p_treeDepths p)
             \<and> messageTreeDepth (p_treeDepths this) = messageTreeDepth (p_treeDepths p)
             \<and> messageTreeSubDepth (p_treeDepths this) = messageTreeSubDepth (p_treeDepths p)
             \<and> voteOptionTreeDepth (p_treeDepths this) = voteOptionTreeDepth (p_treeDepths p)
             \<and> tallyBatchSize (p_batchSizes this) = tallyBatchSize (p_batchSizes p)
             \<and> messageBatchSize (p_batchSizes this) = messageBatchSize (p_batchSizes p)
             \<and> maxMessages (p_maxValues this) = maxMessages (p_maxValues p)
             \<and> maxVoteOptions (p_maxValues this) = maxVoteOptions (p_maxValues p)
             \<and> length (messages this) = length (messages p)
             \<and> length (encPubKeys this) = length (encPubKeys p))
      then False
      else if \<not> list_all (\<lambda>i. messages this ! i = messages p ! i)
                   [0 ..< length (messages this)]
      then False
      else if \<not> list_all (\<lambda>i. encPubKeys this ! i = encPubKeys p ! i)
                   [0 ..< length (encPubKeys this)]
      then False
      else True)"

text \<open>The serialisers of the domain library, with \<open>'j\<close> the type of their JSON values.
  A serialised command carries its \<^verbatim>\<open>cmdType\<close>.\<close>

record 'j codec =
  messageToJSON :: "message \<Rightarrow> 'j"
  messageFromJSON :: "'j \<Rightarrow> message"
  commandToJSON :: "command \<Rightarrow> string \<times> 'j"
  pCommandFromJSON :: "'j \<Rightarrow> pCommand"
  tCommandFromJSON :: "'j \<Rightarrow> tCommand"
  ballotToJSON :: "ballot \<Rightarrow> 'j"
  ballotFromJSON :: "'j \<Rightarrow> ballot"
  pubKeySerialize :: "pubKey \<Rightarrow> string"
  pubKeyDeserialize :: "string \<Rightarrow> pubKey"
  stateLeafToJSON :: "stateLeaf \<Rightarrow> 'j"

text \<open>\<^verbatim>\<open>IJsonPoll\<close>. The decimal strings of the bigints \<^verbatim>\<open>pollEndTimestamp\<close> and
  \<^verbatim>\<open>results\<close> are read back by \<^verbatim>\<open>BigInt\<close> and are kept as the numbers they denote.\<close>

record 'j jsonPoll =
  j_pollEndTimestamp :: int
  j_treeDepths :: treeDepths
  j_batchSizes :: batchSizes
  j_maxValues :: maxValues
  j_messages :: "'j list"
  j_commands :: "(string \<times> 'j) list"
  j_ballots :: "'j list"
  j_encPubKeys :: "string list"
  j_currentMessageBatchIndex :: "nat option"
  j_stateLeaves :: "'j list"
  j_results :: "int list"
  j_numBatchesProcessed :: nat

definition toJSON :: "'j codec \<Rightarrow> poll \<Rightarrow> 'j jsonPoll" where
  "toJSON cd p =
     \<lparr>j_pollEndTimestamp = pollEndTimestamp p,
      j_treeDepths = p_treeDepths p,
      j_batchSizes = p_batchSizes p,
      j_maxValues = p_maxValues p,
      j_messages = map (messageToJSON cd) (messages p),
      j_commands = map (commandToJSON cd) (commands p),
      j_ballots = map (ballotToJSON cd) (ballots p),
      j_encPubKeys = map (pubKeySerialize cd) (encPubKeys p),
      j_currentMessageBatchIndex = currentMessageBatchIndex p,
      j_stateLeaves = map (stateLeafToJSON cd) (stateLeaves p),
      j_results = tallyResult p,
      j_numBatchesProcessed = numBatchesProcessed p\<rparr>"

definition commandFromJSON :: "'j codec \<Rightarrow> string \<times> 'j \<Rightarrow> command" where
  "commandFromJSON cd c =
     (if fst c = ''1'' then PCmd (pCommandFromJSON cd (snd c))
      else if fst c = ''2'' then TCmd (tCommandFromJSON cd (snd c))
      else OtherCmd (fst c))"

text \<open>The loop of \<^verbatim>\<open>fromJSON\<close> that fills the message tree, from \<open>i\<close> on; hashing a message
  with a key that is \<^verbatim>\<open>undefined\<close> is a \<open>TypeError\<close>.\<close>

function fillMessageTree :: "externals \<Rightarrow> nat \<Rightarrow> poll \<Rightarrow> exn + poll" where
  "fillMessageTree ex i p =
     (if i < length (messages p) then
        (case nth_opt (encPubKeys p) i of
           None \<Rightarrow> Inl TypeError
         | Some k \<Rightarrow>
             fillMessageTree ex (i + 1)
               (p\<lparr>messageTree :=
                    insert_leaf (messageTree p) (hashMessage ex (messages p ! i) k)\<rparr>))
      else Inr p)"
  by pat_completeness auto
termination
  by (relation "measure (\<lambda>(ex, i, p). length (messages p) - i)") auto

text \<open>\<^verbatim>\<open>fromJSON\<close>; the keypair of \<^verbatim>\<open>new Keypair()\<close>, a random one, is the argument
  \<open>freshKeypair\<close>.\<close>

definition fromJSON ::
  "'j codec \<Rightarrow> externals \<Rightarrow> keypair \<Rightarrow> 'j jsonPoll \<Rightarrow> maciState \<Rightarrow> exn + poll"
where
  "fromJSON cd ex freshKeypair json ms =
     (let poll0 = newPoll ex (j_pollEndTimestamp json) freshKeypair (j_treeDepths json)
                    (j_batchSizes json) (j_maxValues json) ms;
          poll1 = poll0\<lparr>ballots := map (ballotFromJSON cd) (j_ballots json),
                        encPubKeys := map (pubKeyDeserialize cd) (j_encPubKeys json),
                        messages := map (messageFromJSON cd) (j_messages json),
                        commands := map (commandFromJSON cd) (j_commands json),
                        tallyResult := j_results json,
                        currentMessageBatchIndex := j_currentMessageBatchIndex json,
                        numBatchesProcessed := j_numBatchesProcessed json\<rparr>
      in case fillMessageTree ex 0 poll1 of
           Inl e \<Rightarrow> Inl e
         | Inr poll2 \<Rightarrow> copyStateFromMaci ex poll2 ms)"

subsection \<open>Runs of ingest calls\<close>

text \<open>A call of \<^verbatim>\<open>publishMessage\<close> (with the key of the keypair it generates when
  decryption fails) or of \<^verbatim>\<open>topupMessage\<close>. In both, every assertion comes before the
  first change of the poll, so a call that throws leaves the poll as it was.\<close>

datatype ingestCall = PublishCall message pubKey pubKey | TopupCall message

fun ingest :: "externals \<Rightarrow> ingestCall \<Rightarrow> poll \<Rightarrow> exn + poll" where
  "ingest ex (PublishCall m encPubKey freshPubKey) p = publishMessage ex freshPubKey p m encPubKey"
| "ingest ex (TopupCall m) p = topupMessage ex p m"

fun ingestAll :: "externals \<Rightarrow> ingestCall list \<Rightarrow> poll \<Rightarrow> poll" where
  "ingestAll ex [] p = p"
| "ingestAll ex (c # cs) p =
     (case ingest ex c p of Inl e \<Rightarrow> ingestAll ex cs p | Inr p1 \<Rightarrow> ingestAll ex cs p1)"

text \<open>The second invariant of the data model.\<close>

definition ingestInvariant :: "poll \<Rightarrow> bool" where
  "ingestInvariant p =
     (length (messages p) = length (encPubKeys p)
      \<and> length (encPubKeys p) = length (commands p)
      \<and> length (commands p) = nextIndex (messageTree p))"

text \<open>The command stored when decryption fails.\<close>

definition zeroCommand :: "pubKey \<Rightarrow> pCommand" where
  "zeroCommand k = \<lparr>stateIndex = 0, newPubKey = k, voteOptionIndex = 0,
                                newVoteWeight = 0, cmd_nonce = 0, cmd_pollId = 0, salt = 0\<rparr>"

subsection \<open>The rejection rules in the words of the specification\<close>

text \<open>The five ordered rules of the specification for a decrypted command, read
  against a poll whose state tree is \<open>st\<close>: the kind of the first rule that fails, or
  \<open>None\<close> when all five pass.\<close>

definition specRejection ::
  "externals \<Rightarrow> poll \<Rightarrow> tree \<Rightarrow> pCommand \<Rightarrow> int \<Rightarrow> processMessageErrors option"
where
  "specRejection ex p st command signature =
     (let i = stateIndex command;
          stateLeaf = stateLeaves p ! nat i;
          ballot = ballots p ! nat i;
          w_old = votes ballot ! nat (voteOptionIndex command);
          w_new = newVoteWeight command;
          credits_left = voiceCreditBalance stateLeaf + w_old\<^sup>2 - w_new\<^sup>2
      in if \<not> (1 \<le> i \<and> i < int (min (length (ballots p)) (nextIndex st)))
           then Some InvalidStateLeafIndex
         else if \<not> verifySignature ex command signature (sl_pubKey stateLeaf)
           then Some InvalidSignature
         else if \<not> cmd_nonce command = nonce ballot + 1
           then Some InvalidNonce
         else if \<not> (0 \<le> voteOptionIndex command
                    \<and> voteOptionIndex command < int (maxVoteOptions (p_maxValues p)))
           then Some InvalidVoteOptionIndex
         else if credits_left < 0
           then Some InsufficientVoiceCredits
         else None)"

subsection \<open>Running the slots of a batch\<close>

text \<open>The rounds of the loop over a batch for a list of message indices, in the order
  of the list.\<close>

fun runSlots ::
  "externals \<Rightarrow> nat list \<Rightarrow> poll \<times> batchWitness \<Rightarrow> exn + poll \<times> batchWitness"
where
  "runSlots ex [] s = Inr s"
| "runSlots ex (idx # rest) s =
     (case processSlot ex idx s of Inl e \<Rightarrow> Inl e | Inr s1 \<Rightarrow> runSlots ex rest s1)"


text \<open>Two polls that differ at most in the state leaves, the ballots and their two
  trees.\<close>

definition sameButState :: "poll \<Rightarrow> poll \<Rightarrow> bool" where
  "sameButState p q =
     (\<exists>sl st bl bt. q = p\<lparr>stateLeaves := sl, stateTree := st, ballots := bl, ballotTree := bt\<rparr>)"

subsection \<open>The state of the tally\<close>

text \<open>Two polls that differ at most in the tally: \<open>tallyResult\<close>,
  \<open>perVOSpentVoiceCredits\<close> and \<open>totalSpentVoiceCredits\<close>.\<close>

definition tallyOnly :: "poll \<Rightarrow> poll \<Rightarrow> bool" where
  "tallyOnly p q = (\<exists>tr pv t. q = p\<lparr>tallyResult := tr, perVOSpentVoiceCredits := pv,
                       totalSpentVoiceCredits := t\<rparr>)"


text \<open>The tally covers the ballots of the batches tallied so far: each entry of
  \<open>tallyResult\<close> is the sum of the votes for its option, each entry of
  \<open>perVOSpentVoiceCredits\<close> the sum of their squares, and \<open>totalSpentVoiceCredits\<close>
  the sum of all the squares.\<close>

definition tallyInv :: "poll \<Rightarrow> bool" where
  "tallyInv p =
     (let k = maxVoteOptions (p_maxValues p);
          n = min (numBatchesTallied p * tallyBatchSize (p_batchSizes p)) (length (ballots p))
      in length (tallyResult p) = k \<and> length (perVOSpentVoiceCredits p) = k
       \<and> (\<forall>j < k. tallyResult p ! j = (\<Sum>x = 0 ..< n. votes (ballots p ! x) ! j))
       \<and> (\<forall>j < k. perVOSpentVoiceCredits p ! j = (\<Sum>x = 0 ..< n. (votes (ballots p ! x) ! j)\<^sup>2))
       \<and> totalSpentVoiceCredits p
           = (\<Sum>x = 0 ..< n. \<Sum>j = 0 ..< k. (votes (ballots p ! x) ! j)\<^sup>2))"

subsection \<open>The subsidy in the words of the specification\<close>

text \<open>The coefficient \<open>k\<close> of two ballots: \<open>MM * 10^WW\<close> divided by \<open>MM\<close> plus the sum
  over the options of the products of their votes, rounded down.\<close>

definition specCoefficient :: "poll \<Rightarrow> ballot \<Rightarrow> ballot \<Rightarrow> int" where
  "specCoefficient p rowBallot colBallot =
     int (MM p * 10 ^ WW p)
       div (int (MM p)
            + (\<Sum>q = 0 ..< maxVoteOptions (p_maxValues p).
                 votes rowBallot ! q * votes colBallot ! q))"

text \<open>What the pair \<open>(i, j)\<close> of the row block at \<open>rowStart\<close> and the column block at
  \<open>colStart\<close> adds to the subsidy of option \<open>q\<close>: \<open>2 * k * v\<^sub>i[q] * v\<^sub>j[q]\<close> when the blocks
  differ or \<open>i < j\<close>, and nothing otherwise. A ballot beyond the ballots is the empty
  ballot.\<close>

definition specPairSubsidy :: "poll \<Rightarrow> nat \<Rightarrow> nat \<Rightarrow> nat \<Rightarrow> nat \<Rightarrow> nat \<Rightarrow> int" where
  "specPairSubsidy p rowStart colStart i j q =
     (if rowStart \<noteq> colStart \<or> i < j
      then 2 * specCoefficient p (ballotAt p (rowStart + i)) (ballotAt p (colStart + j))
             * (votes (ballotAt p (rowStart + i)) ! q)
             * (votes (ballotAt p (colStart + j)) ! q)
      else 0)"

text \<open>The sum over all pairs of the two blocks.\<close>

definition specSubsidyIncrease :: "poll \<Rightarrow> nat \<Rightarrow> nat \<Rightarrow> nat \<Rightarrow> int" where
  "specSubsidyIncrease p rowStart colStart q =
     (\<Sum>i = 0 ..< subsidyBatchSize (p_batchSizes p).
        \<Sum>j = 0 ..< subsidyBatchSize (p_batchSizes p).
          specPairSubsidy p rowStart colStart i j q)"

text \<open>The polls the subsidy is computed for: every ballot has a vote for each option and
  no negative vote (invariant 5 of the data model), the subsidy has an entry for each
  option, \<open>MM\<close> is positive, and \<open>MM * 10^WW\<close> is in the range where the arithmetic of
  JavaScript numbers is exact.\<close>

definition subsidyReady :: "poll \<Rightarrow> bool" where
  "subsidyReady p =
     ((\<forall>b \<in> set (ballots p).
          maxVoteOptions (p_maxValues p) \<le> length (votes b) \<and> (\<forall>v \<in> set (votes b). 0 \<le> v))
      \<and> maxVoteOptions (p_maxValues p) \<le> length (subsidy p)
      \<and> 0 < MM p \<and> MM p * 10 ^ WW p < 2 ^ 53)"

subsection \<open>A small instance\<close>

text \<open>Collaborators simple enough to compute with: a message decrypts when its last
  word is the first coordinate of the shared key, its words are the fields of the command
  and the signature, and a signature verifies when it is the first coordinate of the
  public key.\<close>

definition ex0 :: externals where
  "ex0 = \<lparr>NOTHING_UP_MY_SLEEVE = 7,
          blankStateLeaf = \<lparr>sl_pubKey = (0, 0), voiceCreditBalance = 0, timestamp = 0\<rparr>,
          genEcdhSharedKey = (\<lambda>sk pk. pk),
          decrypt = (\<lambda>m k.
            if length (data m) = 10 \<and> data m ! 9 = fst k
            then Some (\<lparr>stateIndex = data m ! 0, newPubKey = (data m ! 1, data m ! 2),
                        voteOptionIndex = data m ! 3, newVoteWeight = data m ! 4,
                        cmd_nonce = data m ! 5, cmd_pollId = data m ! 6, salt = data m ! 7\<rparr>,
                       data m ! 8)
            else None),
          verifySignature = (\<lambda>c sg pk. sg = fst pk),
          hashStateLeaf = (\<lambda>l. fst (sl_pubKey l) + voiceCreditBalance l),
          hashBallot = (\<lambda>b. nonce b + sum_list (votes b)),
          hashMessage = (\<lambda>m k. sum_list (data m) + fst k),
          genMerklePath = (\<lambda>t i. Some []),
          genMerkleSubrootPath = (\<lambda>t i j. Some []),
          voteTreePath = (\<lambda>d vs i. Some [])\<rparr>"

text \<open>A MaciState with the blank leaf and one signup (key \<open>(11, 12)\<close>, 100 credits).\<close>

definition ms0 :: maciState where
  "ms0 = \<lparr>ms_stateLeaves =
            [\<lparr>sl_pubKey = (0, 0), voiceCreditBalance = 0, timestamp = 0\<rparr>,
             \<lparr>sl_pubKey = (11, 12), voiceCreditBalance = 100, timestamp = 1\<rparr>],
          ms_stateTree = \<lparr>t_depth = 10, zeroValue = 0, leaves = [0, 111]\<rparr>,
          ms_stateTreeDepth = 10,
          numSignUps = 1,
          numPolls = 0,
          pollBeingProcessed = False,
          currentPollBeingProcessed = None\<rparr>"

definition kp0 :: keypair where
  "kp0 = \<lparr>kp_privKey = 5, kp_pubKey = (6, 7)\<rparr>"

text \<open>A poll with three vote options and batches of two.\<close>

definition poll0 :: poll where
  "poll0 = newPoll ex0 1000 kp0
     \<lparr>intStateTreeDepth = 1, messageTreeDepth = 2, messageTreeSubDepth = 1,
      voteOptionTreeDepth = 2\<rparr>
     \<lparr>tallyBatchSize = 2, subsidyBatchSize = 2, messageBatchSize = 2\<rparr>
     \<lparr>maxMessages = 25, maxVoteOptions = 3\<rparr>
     ms0"

text \<open>A vote of the signed-up voter: weight 5 for option 2, nonce 1, new key \<open>(21, 22)\<close>,
  encrypted to the key \<open>(9, 9)\<close>.\<close>

definition vote0 :: message where
  "vote0 = \<lparr>msgType = 1, data = [1, 21, 22, 2, 5, 1, 0, 0, 11, 9]\<rparr>"

text \<open>\<open>poll0\<close> after the state snapshot, and then with \<open>vote0\<close> published.\<close>

definition poll1 :: poll where
  "poll1 = poll0
     \<lparr>stateLeaves := ms_stateLeaves ms0,
      stateTree := Some (ms_stateTree ms0),
      ballotTree := Some \<lparr>t_depth = 10, zeroValue = 0, leaves = [0, 0]\<rparr>,
      ballots := [genBlankBallot 3, genBlankBallot 3],
      stateCopied := True\<rparr>"

definition poll2 :: poll where
  "poll2 = poll1
     \<lparr>encPubKeys := [(9, 9)],
      messages := [vote0],
      messageTree := \<lparr>t_depth = 2, zeroValue = 7, leaves = [81]\<rparr>,
      commands := [PCmd \<lparr>stateIndex = 1, newPubKey = (21, 22), voteOptionIndex = 2,
                         newVoteWeight = 5, cmd_nonce = 1, cmd_pollId = 0, salt = 0\<rparr>]\<rparr>"

text \<open>A message that does not decrypt, and a topup of 50 credits for the voter.\<close>

definition garbled :: message where
  "garbled = \<lparr>msgType = 1, data = [1, 2, 3]\<rparr>"

definition topup0 :: message where
  "topup0 = \<lparr>msgType = 2, data = [1, 50, 0, 0, 0, 0, 0, 0, 0, 0]\<rparr>"

text \<open>Two more votes of the voter: one of weight 11, which costs more than the 100
  credits, and one with a wrong nonce and a vote option out of range.\<close>

definition overspend :: message where
  "overspend = \<lparr>msgType = 1, data = [1, 21, 22, 2, 11, 1, 0, 0, 11, 9]\<rparr>"

definition badNonceAndOption :: message where
  "badNonceAndOption = \<lparr>msgType = 1, data = [1, 21, 22, 7, 11, 3, 0, 0, 11, 9]\<rparr>"

text \<open>\<open>poll0\<close> with three messages published: the two votes and the topup.\<close>

definition poll3 :: poll where
  "poll3 = poll0
     \<lparr>encPubKeys := [(9, 9), (9, 9), padKey],
      messages := [vote0, overspend, topup0],
      messageTree := \<lparr>t_depth = 2, zeroValue = 7, leaves =
        [81, 87, 10457101036533406547632367118273992217979173478358440826365724437999023779338]\<rparr>,
      commands := [PCmd \<lparr>stateIndex = 1, newPubKey = (21, 22), voteOptionIndex = 2,
                         newVoteWeight = 5, cmd_nonce = 1, cmd_pollId = 0, salt = 0\<rparr>,
                   PCmd \<lparr>stateIndex = 1, newPubKey = (21, 22), voteOptionIndex = 2,
                         newVoteWeight = 11, cmd_nonce = 1, cmd_pollId = 0, salt = 0\<rparr>,
                   TCmd \<lparr>t_stateIndex = Some 1, amount = Some 50, t_pollId = 0\<rparr>]\<rparr>"


text \<open>\<open>poll1\<close> with the vote of weight 11 published.\<close>

definition poll4 :: poll where
  "poll4 = poll1
     \<lparr>encPubKeys := [(9, 9)],
      messages := [overspend],
      messageTree := \<lparr>t_depth = 2, zeroValue = 7, leaves = [87]\<rparr>,
      commands := [PCmd \<lparr>stateIndex = 1, newPubKey = (21, 22), voteOptionIndex = 2,
                         newVoteWeight = 11, cmd_nonce = 1, cmd_pollId = 0, salt = 0\<rparr>]\<rparr>"


text \<open>A second poll of the same MaciState, created after \<open>poll0\<close>.\<close>

definition pollB :: poll where
  "pollB = poll0\<lparr>pollId := 1\<rparr>"

text \<open>\<open>poll2\<close> after its only batch of messages: the vote is applied.\<close>

definition poll5 :: poll where
  "poll5 = poll2
     \<lparr>stateLeaves := [\<lparr>sl_pubKey = (0, 0), voiceCreditBalance = 0, timestamp = 0\<rparr>,
                      \<lparr>sl_pubKey = (21, 22), voiceCreditBalance = 75, timestamp = 1\<rparr>],
      stateTree := Some \<lparr>t_depth = 10, zeroValue = 0, leaves = [0, 96]\<rparr>,
      ballots := [\<lparr>nonce = 0, votes = [0, 0, 0]\<rparr>, \<lparr>nonce = 1, votes = [0, 0, 5]\<rparr>],
      ballotTree := Some \<lparr>t_depth = 10, zeroValue = 0, leaves = [0, 6]\<rparr>,
      messageTree := \<lparr>t_depth = 2, zeroValue = 7, leaves = [81, 7]\<rparr>,
      numBatchesProcessed := 1,
      currentMessageBatchIndex := Some 0,
      sbSalts := [0 \<mapsto> 5]\<rparr>"

text \<open>A poll with three ballots, two of them with votes.\<close>

definition pollS :: poll where
  "pollS = poll1
     \<lparr>ballots := [\<lparr>nonce = 0, votes = [0, 0, 0]\<rparr>, \<lparr>nonce = 1, votes = [1, 2, 0]\<rparr>,
                  \<lparr>nonce = 1, votes = [3, 0, 5]\<rparr>]\<rparr>"

text \<open>Serialisers for the round trip: a message, a ballot and a command are the lists of
  their numbers, a public key the two characters of its coordinates. A second keypair.\<close>

definition cd0 :: "int list codec" where
  "cd0 = \<lparr>messageToJSON = (\<lambda>m. msgType m # data m),
          messageFromJSON = (\<lambda>j. case j of [] \<Rightarrow> \<lparr>msgType = 0, data = []\<rparr>
                                   | t # d \<Rightarrow> \<lparr>msgType = t, data = d\<rparr>),
          commandToJSON = (\<lambda>c. case c of
              PCmd x \<Rightarrow> (''1'', [stateIndex x, fst (newPubKey x), snd (newPubKey x),
                                 voteOptionIndex x, newVoteWeight x, cmd_nonce x,
                                 cmd_pollId x, salt x])
            | TCmd x \<Rightarrow> (''2'', [case t_stateIndex x of None \<Rightarrow> 0 | Some i \<Rightarrow> i,
                                 case amount x of None \<Rightarrow> 0 | Some a \<Rightarrow> a, t_pollId x])
            | OtherCmd t \<Rightarrow> (t, [])),
          pCommandFromJSON = (\<lambda>j. \<lparr>stateIndex = j ! 0, newPubKey = (j ! 1, j ! 2),
              voteOptionIndex = j ! 3, newVoteWeight = j ! 4, cmd_nonce = j ! 5,
              cmd_pollId = j ! 6, salt = j ! 7\<rparr>),
          tCommandFromJSON = (\<lambda>j. \<lparr>t_stateIndex = Some (j ! 0), amount = Some (j ! 1),
              t_pollId = j ! 2\<rparr>),
          ballotToJSON = (\<lambda>b. nonce b # votes b),
          ballotFromJSON = (\<lambda>j. case j of [] \<Rightarrow> \<lparr>nonce = 0, votes = []\<rparr>
                                  | n # v \<Rightarrow> \<lparr>nonce = n, votes = v\<rparr>),
          pubKeySerialize = (\<lambda>k. [char_of (fst k), char_of (snd k)]),
          pubKeyDeserialize = (\<lambda>s. case s of [a, b] \<Rightarrow> (of_char a, of_char b) | _ \<Rightarrow> (0, 0)),
          stateLeafToJSON = (\<lambda>l. [fst (sl_pubKey l), snd (sl_pubKey l),
                                   voiceCreditBalance l, timestamp l])\<rparr>"

definition kp1 :: keypair where
  "kp1 = \<lparr>kp_privKey = 8, kp_pubKey = (1, 2)\<rparr>"

text \<open>\<open>pollS\<close> after its first batch of the subsidy.\<close>

definition pollS1 :: poll where
  "pollS1 = pollS\<lparr>subsidySalts := [(0, 0) \<mapsto> 20], cbi := 1\<rparr>"

section \<open>Properties\<close>

subsection \<open>The instance\<close>

text \<open>The equations of the loops are unfolded only where a proof asks for them.\<close>

declare fillBallots.simps [simp del] processBatchLoop.simps [simp del] padLast.simps [simp del]
  padTree.simps [simp del] tallyOptions.simps [simp del] tallyBallots.simps [simp del]
  padTo.simps [simp del] dotProduct.simps [simp del] subsidyOptions.simps [simp del]
  subsidyCols.simps [simp del] subsidyRows.simps [simp del] fillMessageTree.simps [simp del]

lemmas instance_defs = poll0_def poll1_def poll2_def poll3_def newPoll_def ex0_def ms0_def kp0_def
  vote0_def overspend_def topup0_def garbled_def padKey_def genBlankBallot_def

lemmas batch_defs = processMessages_def startBatch_def finishBatch_def
  hasUnprocessedMessages_def totalBatches_def firstBatchIndex_def copyStateFromMaci_def
  genProcessMessagesCircuitInputsPartial_def processSlot_def processVoteSlot_def
  processTopupSlot_def unshiftBlank_def processMessage_def processMessageBody_def
  nth_opt_def nextIndex_def newTree_def insert_leaf_def update_leaf_def slice_def
  emptyWitness_def Let_def

lemma snapshot_poll0: "copyStateFromMaci ex0 poll0 ms0 = Inr poll1"
  by (simp add: copyStateFromMaci_def poll0_def poll1_def ms0_def ex0_def newPoll_def
      nextIndex_def newTree_def insert_leaf_def genBlankBallot_def Let_def sum_list_replicate
      fillBallots.simps)

lemma publish_poll1: "publishMessage ex0 (0, 0) poll1 vote0 (9, 9) = Inr poll2"
  by (simp add: publishMessage_def poll0_def poll1_def poll2_def ms0_def ex0_def newPoll_def
      vote0_def dataInRange_def SNARK_FIELD_SIZE_def kp0_def
      nextIndex_def newTree_def insert_leaf_def genBlankBallot_def Let_def)

lemma processMessage_poll2:
  "processMessage ex0 poll2 vote0 (9, 9) =
     Inr \<lparr>stateLeafIndex = 1,
          newStateLeaf = \<lparr>sl_pubKey = (21, 22), voiceCreditBalance = 75, timestamp = 1\<rparr>,
          originalStateLeaf = \<lparr>sl_pubKey = (11, 12), voiceCreditBalance = 100, timestamp = 1\<rparr>,
          originalStateLeafPathElements = [],
          originalVoteWeight = 0,
          originalVoteWeightsPathElements = [],
          newBallot = \<lparr>nonce = 1, votes = [0, 0, 5]\<rparr>,
          originalBallot = \<lparr>nonce = 0, votes = [0, 0, 0]\<rparr>,
          originalBallotPathElements = [],
          o_command = \<lparr>stateIndex = 1, newPubKey = (21, 22), voteOptionIndex = 2,
                        newVoteWeight = 5, cmd_nonce = 1, cmd_pollId = 0, salt = 0\<rparr>\<rparr>"
  by (simp add: processMessage_def processMessageBody_def poll0_def poll1_def poll2_def
      ms0_def ex0_def newPoll_def vote0_def kp0_def nth_opt_def nextIndex_def
      genBlankBallot_def Let_def numeral_3_eq_3)

lemma ingest_poll3:
  "ingestAll ex0 [PublishCall vote0 (9, 9) (0, 0), PublishCall overspend (9, 9) (0, 0),
                  TopupCall topup0] poll0 = poll3"
  by (simp add: publishMessage_def topupMessage_def poll0_def poll3_def newPoll_def ex0_def
        vote0_def overspend_def topup0_def dataInRange_def SNARK_FIELD_SIZE_def Let_def
        insert_leaf_def newTree_def kp0_def padKey_def nth_opt_def ms0_def)

subsection \<open>Accepted commands\<close>

lemma orThrow_Inr: "orThrow v e f = Inr r \<Longrightarrow> \<exists>x. v = Some x \<and> f x = Inr r"
  by (cases v) auto

lemma if_Inl_Inr: "(if c then Inl e else x) = Inr r \<Longrightarrow> \<not> c \<and> x = Inr r"
  by (auto split: if_splits)

lemma processMessageBody_Inr:
  assumes body: "processMessageBody ex p m k = Inr r"
  shows "\<exists>command signature st stateLeaf w_old slPath bt bPath vPath.
     decrypt ex m (genEcdhSharedKey ex (kp_privKey (coordinatorKeypair p)) k)
       = Some (command, signature)
   \<and> \<not> (stateIndex command \<ge> int (length (ballots p)) \<or> stateIndex command < 1)
   \<and> stateTree p = Some st
   \<and> \<not> stateIndex command \<ge> int (nextIndex st)
   \<and> nth_opt (stateLeaves p) (nat (stateIndex command)) = Some stateLeaf
   \<and> verifySignature ex command signature (sl_pubKey stateLeaf)
   \<and> cmd_nonce command = nonce (ballots p ! nat (stateIndex command)) + 1
   \<and> \<not> (voteOptionIndex command < 0
          \<or> voteOptionIndex command \<ge> int (maxVoteOptions (p_maxValues p)))
   \<and> nth_opt (votes (ballots p ! nat (stateIndex command))) (nat (voteOptionIndex command))
       = Some w_old
   \<and> \<not> voiceCreditBalance stateLeaf + w_old * w_old
          - newVoteWeight command * newVoteWeight command < 0
   \<and> genMerklePath ex st (nat (stateIndex command)) = Some slPath
   \<and> ballotTree p = Some bt
   \<and> genMerklePath ex bt (nat (stateIndex command)) = Some bPath
   \<and> r = \<lparr>stateLeafIndex = nat (stateIndex command),
           newStateLeaf = stateLeaf
             \<lparr>voiceCreditBalance := voiceCreditBalance stateLeaf + w_old * w_old
                  - newVoteWeight command * newVoteWeight command,
              sl_pubKey := newPubKey command\<rparr>,
           originalStateLeaf = stateLeaf,
           originalStateLeafPathElements = slPath,
           originalVoteWeight = w_old,
           originalVoteWeightsPathElements = vPath,
           newBallot = (ballots p ! nat (stateIndex command))
             \<lparr>nonce := nonce (ballots p ! nat (stateIndex command)) + 1,
              votes := (votes (ballots p ! nat (stateIndex command)))
                         [nat (voteOptionIndex command) := newVoteWeight command]\<rparr>,
           originalBallot = ballots p ! nat (stateIndex command),
           originalBallotPathElements = bPath,
           o_command = command\<rparr>"
  using body
  unfolding processMessageBody_def Let_def
  apply (drule_tac orThrow_Inr)
  apply (elim exE conjE)
  apply (simp only: split_paired_all prod.case)
  apply (drule if_Inl_Inr, elim conjE)
  apply (drule orThrow_Inr, elim exE conjE)
  apply (drule if_Inl_Inr, elim conjE)
  apply (drule orThrow_Inr, elim exE conjE)
  apply (drule if_Inl_Inr, elim conjE)
  apply (drule if_Inl_Inr, elim conjE)
  apply (drule if_Inl_Inr, elim conjE)
  apply (drule orThrow_Inr, elim exE conjE)
  apply (drule if_Inl_Inr, elim conjE)
  apply (drule orThrow_Inr, elim exE conjE)
  apply (drule orThrow_Inr, elim exE conjE)
  apply (drule orThrow_Inr, elim exE conjE)
  apply (drule orThrow_Inr, elim exE conjE)
  apply (simp only: sum.inject not_not)
  subgoal for command signature st stateLeaf w_old slPath bt bPath vPath
    apply (rule exI[of _ command], rule exI[of _ signature], rule exI[of _ st],
           rule exI[of _ stateLeaf], rule exI[of _ w_old], rule exI[of _ slPath],
           rule exI[of _ bt], rule exI[of _ bPath], rule exI[of _ vPath])
    apply (intro conjI; (assumption | rule refl | (rule sym, assumption)))
    done
  done

lemma processMessage_Inr: "processMessage ex p m k = Inr r \<Longrightarrow> processMessageBody ex p m k = Inr r"
  by (simp add: processMessage_def split: sum.splits exn.splits)

text \<open>C1. Whenever \<open>processMessage\<close> accepts a message, the command decrypted from it
  passes the five rules; the new state leaf is the stored leaf with the command's new
  public key and the balance \<open>balance + w_old\<^sup>2 - w_new\<^sup>2\<close> over the integers, which is
  not negative; the new ballot is the stored ballot with the nonce increased by one and
  the new weight at the vote option; and the new balance plus \<open>w_new\<^sup>2\<close> is the old
  balance plus \<open>w_old\<^sup>2\<close>.\<close>

theorem processMessage_accepted:
  assumes "processMessage ex p m k = Inr r"
  shows "\<exists>command signature st stateLeaf ballot w_old.
           decrypt ex m (genEcdhSharedKey ex (kp_privKey (coordinatorKeypair p)) k)
             = Some (command, signature)
         \<and> o_command r = command
         \<and> stateLeafIndex r = nat (stateIndex command)
         \<and> stateTree p = Some st
         \<and> 1 \<le> stateIndex command
         \<and> stateIndex command < int (min (length (ballots p)) (nextIndex st))
         \<and> nth_opt (stateLeaves p) (stateLeafIndex r) = Some stateLeaf
         \<and> nth_opt (ballots p) (stateLeafIndex r) = Some ballot
         \<and> verifySignature ex command signature (sl_pubKey stateLeaf)
         \<and> cmd_nonce command = nonce ballot + 1
         \<and> 0 \<le> voteOptionIndex command
         \<and> voteOptionIndex command < int (maxVoteOptions (p_maxValues p))
         \<and> nth_opt (votes ballot) (nat (voteOptionIndex command)) = Some w_old
         \<and> originalStateLeaf r = stateLeaf \<and> originalBallot r = ballot
         \<and> originalVoteWeight r = w_old
         \<and> newStateLeaf r = stateLeaf
              \<lparr>sl_pubKey := newPubKey command,
               voiceCreditBalance :=
                 voiceCreditBalance stateLeaf + w_old\<^sup>2 - (newVoteWeight command)\<^sup>2\<rparr>
         \<and> newBallot r = ballot
              \<lparr>nonce := nonce ballot + 1,
               votes := (votes ballot)[nat (voteOptionIndex command) := newVoteWeight command]\<rparr>
         \<and> 0 \<le> voiceCreditBalance (newStateLeaf r)
         \<and> voiceCreditBalance (newStateLeaf r) + (newVoteWeight command)\<^sup>2
             = voiceCreditBalance stateLeaf + w_old\<^sup>2"
proof -
  from assms have "processMessageBody ex p m k = Inr r" by (rule processMessage_Inr)
  from processMessageBody_Inr[OF this]
  obtain command signature st stateLeaf w_old slPath bt bPath vPath where
    d: "decrypt ex m (genEcdhSharedKey ex (kp_privKey (coordinatorKeypair p)) k)
       = Some (command, signature)"
    and r1: "\<not> (stateIndex command \<ge> int (length (ballots p)) \<or> stateIndex command < 1)"
    and st: "stateTree p = Some st"
    and r1': "\<not> stateIndex command \<ge> int (nextIndex st)"
    and sl: "nth_opt (stateLeaves p) (nat (stateIndex command)) = Some stateLeaf"
    and r2: "verifySignature ex command signature (sl_pubKey stateLeaf)"
    and r3: "cmd_nonce command = nonce (ballots p ! nat (stateIndex command)) + 1"
    and r4: "\<not> (voteOptionIndex command < 0
          \<or> voteOptionIndex command \<ge> int (maxVoteOptions (p_maxValues p)))"
    and w: "nth_opt (votes (ballots p ! nat (stateIndex command))) (nat (voteOptionIndex command))
       = Some w_old"
    and r5: "\<not> voiceCreditBalance stateLeaf + w_old * w_old
          - newVoteWeight command * newVoteWeight command < 0"
    and "genMerklePath ex st (nat (stateIndex command)) = Some slPath"
    and "ballotTree p = Some bt"
    and "genMerklePath ex bt (nat (stateIndex command)) = Some bPath"
    and r: "r = \<lparr>stateLeafIndex = nat (stateIndex command),
           newStateLeaf = stateLeaf
             \<lparr>voiceCreditBalance := voiceCreditBalance stateLeaf + w_old * w_old
                  - newVoteWeight command * newVoteWeight command,
              sl_pubKey := newPubKey command\<rparr>,
           originalStateLeaf = stateLeaf,
           originalStateLeafPathElements = slPath,
           originalVoteWeight = w_old,
           originalVoteWeightsPathElements = vPath,
           newBallot = (ballots p ! nat (stateIndex command))
             \<lparr>nonce := nonce (ballots p ! nat (stateIndex command)) + 1,
              votes := (votes (ballots p ! nat (stateIndex command)))
                         [nat (voteOptionIndex command) := newVoteWeight command]\<rparr>,
           originalBallot = ballots p ! nat (stateIndex command),
           originalBallotPathElements = bPath,
           o_command = command\<rparr>"
    by blast
  have b: "nth_opt (ballots p) (nat (stateIndex command))
             = Some (ballots p ! nat (stateIndex command))"
  proof -
    have "nat (stateIndex command) < length (ballots p)" using r1 by linarith
    then show ?thesis by (simp add: nth_opt_def)
  qed
  have rng: "stateIndex command < int (min (length (ballots p)) (nextIndex st))"
    using r1 r1' by (simp add: min_def)
  show ?thesis
    apply (rule exI[of _ command], rule exI[of _ signature], rule exI[of _ st],
           rule exI[of _ stateLeaf], rule exI[of _ "ballots p ! nat (stateIndex command)"],
           rule exI[of _ w_old])
    using d st r1 r1' sl b r2 r3 r4 w r5 rng by (simp add: r power2_eq_square)
qed

theorem processMessage_accepted_witness:
  "\<exists>r. processMessage ex0 poll2 vote0 (9, 9) = Inr r
       \<and> voiceCreditBalance (newStateLeaf r) = 75
       \<and> sl_pubKey (newStateLeaf r) = (21, 22)
       \<and> newBallot r = \<lparr>nonce = 1, votes = [0, 0, 5]\<rparr>"
  using processMessage_accepted[OF processMessage_poll2] processMessage_poll2 by simp

subsection \<open>Counting the batches\<close>

text \<open>C10. \<open>hasUnprocessedMessages\<close> takes the number of batches to be 1 whenever there
  are at most \<open>messageBatchSize\<close> messages (none included), and the quotient of the two,
  plus one when the remainder is positive, otherwise; it compares \<open>numBatchesProcessed\<close>
  with that number, so a poll with no messages and no processed batch has unprocessed
  messages.\<close>

theorem hasUnprocessedMessages_totalBatches:
  fixes p :: poll
  defines "n \<equiv> length (messages p)" and "bs \<equiv> messageBatchSize (p_batchSizes p)"
  shows "(n \<le> bs \<longrightarrow> totalBatches p = 1)
       \<and> (bs < n \<and> 0 < bs \<longrightarrow>
            totalBatches p = enat (n div bs + (if 0 < n mod bs then 1 else 0)))
       \<and> (hasUnprocessedMessages p \<longleftrightarrow> enat (numBatchesProcessed p) < totalBatches p)
       \<and> (n = 0 \<and> numBatchesProcessed p = 0 \<longrightarrow> hasUnprocessedMessages p)"
  by (auto simp: totalBatches_def hasUnprocessedMessages_def Let_def n_def bs_def
      one_enat_def plus_enat_simps zero_enat_def)

theorem hasUnprocessedMessages_totalBatches_witness:
  "totalBatches poll0 = 1 \<and> hasUnprocessedMessages poll0
   \<and> totalBatches (poll0\<lparr>messages := replicate 5 vote0\<rparr>) = 3
   \<and> \<not> hasUnprocessedMessages (poll0\<lparr>messages := replicate 5 vote0, numBatchesProcessed := 3\<rparr>)"
proof -
  have a: "length (messages poll0) = 0" "numBatchesProcessed poll0 = 0"
    "messageBatchSize (p_batchSizes poll0) = 2"
    by (simp_all add: poll0_def newPoll_def)
  have b: "totalBatches (poll0\<lparr>messages := replicate 5 vote0\<rparr>) = enat 3"
    using hasUnprocessedMessages_totalBatches[of "poll0\<lparr>messages := replicate 5 vote0\<rparr>"] a
    by simp
  have c: "totalBatches (poll0\<lparr>messages := replicate 5 vote0, numBatchesProcessed := 3\<rparr>) = enat 3"
    using hasUnprocessedMessages_totalBatches
            [of "poll0\<lparr>messages := replicate 5 vote0, numBatchesProcessed := 3\<rparr>"] a
    by simp
  show ?thesis
    using hasUnprocessedMessages_totalBatches[of poll0] a b c
    by (simp add: hasUnprocessedMessages_def numeral_eq_enat one_enat_def zero_enat_def)
qed

subsection \<open>Message ingest\<close>

lemma publishMessage_Inr:
  assumes "publishMessage ex fresh p m k = Inr q"
  shows "messages q = messages p @ [m] \<and> encPubKeys q = encPubKeys p @ [k]
       \<and> leaves (messageTree q) = leaves (messageTree p) @ [hashMessage ex m k]
       \<and> (\<exists>c. commands q = commands p @ [PCmd c])"
  using assms
  by (auto simp: publishMessage_def Let_def insert_leaf_def split: if_splits option.splits)

lemma topupMessage_Inr:
  assumes "topupMessage ex p m = Inr q"
  shows "messages q = messages p @ [m] \<and> encPubKeys q = encPubKeys p @ [padKey]
       \<and> leaves (messageTree q) = leaves (messageTree p) @ [hashMessage ex m padKey]
       \<and> (\<exists>c. commands q = commands p @ [TCmd c])"
  using assms
  by (auto simp: topupMessage_def Let_def insert_leaf_def split: if_splits)

lemma ingest_Inr:
  assumes "ingest ex c p = Inr q"
  shows "length (messages q) = length (messages p) + 1
       \<and> length (encPubKeys q) = length (encPubKeys p) + 1
       \<and> length (commands q) = length (commands p) + 1
       \<and> nextIndex (messageTree q) = nextIndex (messageTree p) + 1"
proof (cases c)
  case (PublishCall m k fresh)
  with assms have "publishMessage ex fresh p m k = Inr q" by simp
  from publishMessage_Inr[OF this] show ?thesis by (auto simp: nextIndex_def)
next
  case (TopupCall m)
  with assms have "topupMessage ex p m = Inr q" by simp
  from topupMessage_Inr[OF this] show ?thesis by (auto simp: nextIndex_def)
qed

lemma ingest_invariant: "ingestInvariant p \<Longrightarrow> ingest ex c p = Inr q \<Longrightarrow> ingestInvariant q"
  using ingest_Inr[of ex c p q] by (simp add: ingestInvariant_def)

lemma ingestAll_invariant: "ingestInvariant p \<Longrightarrow> ingestInvariant (ingestAll ex cs p)"
proof (induction cs arbitrary: p)
  case Nil
  then show ?case by simp
next
  case (Cons c cs)
  show ?case
  proof (cases "ingest ex c p")
    case (Inl e)
    then show ?thesis using Cons by simp
  next
    case (Inr q)
    then show ?thesis using Cons ingest_invariant[of p ex c q] by simp
  qed
qed

lemma newPoll_invariant: "ingestInvariant (newPoll ex t kp td bs mv ms)"
  by (simp add: ingestInvariant_def newPoll_def nextIndex_def newTree_def)

lemma publishMessage_placeholder:
  assumes "msgType m = 1" "fst k < SNARK_FIELD_SIZE" "snd k < SNARK_FIELD_SIZE" "dataInRange m"
    and "decrypt ex m (genEcdhSharedKey ex (kp_privKey (coordinatorKeypair p)) k) = None"
  shows "\<exists>q. publishMessage ex fresh p m k = Inr q
           \<and> commands q = commands p @ [PCmd (zeroCommand fresh)]"
  using assms by (simp add: publishMessage_def Let_def zeroCommand_def)

text \<open>C5. After any run of \<open>publishMessage\<close> and \<open>topupMessage\<close> calls on a new poll
  the lengths of \<open>messages\<close>, \<open>encPubKeys\<close> and \<open>commands\<close> and the message tree's
  \<open>nextIndex\<close> are equal (and the calls keep them equal on any poll where they are);
  each call that returns adds exactly one element to each; and a \<open>publishMessage\<close>
  whose decryption fails returns with the command of zeros stored.\<close>

theorem ingest_keeps_lengths_equal:
  "ingestInvariant (ingestAll ex calls (newPoll ex t kp td bs mv ms))
   \<and> (\<forall>p. ingestInvariant p \<longrightarrow> ingestInvariant (ingestAll ex calls p))
   \<and> (\<forall>c p q. ingest ex c p = Inr q \<longrightarrow>
         length (messages q) = length (messages p) + 1
       \<and> length (encPubKeys q) = length (encPubKeys p) + 1
       \<and> length (commands q) = length (commands p) + 1
       \<and> nextIndex (messageTree q) = nextIndex (messageTree p) + 1)
   \<and> (\<forall>p m k fresh.
         msgType m = 1 \<and> fst k < SNARK_FIELD_SIZE \<and> snd k < SNARK_FIELD_SIZE \<and> dataInRange m
         \<and> decrypt ex m (genEcdhSharedKey ex (kp_privKey (coordinatorKeypair p)) k) = None
         \<longrightarrow> (\<exists>q. ingest ex (PublishCall m k fresh) p = Inr q
                  \<and> commands q = commands p @ [PCmd (zeroCommand fresh)]))"
proof (intro conjI allI impI)
  show "ingestInvariant (ingestAll ex calls (newPoll ex t kp td bs mv ms))"
    by (rule ingestAll_invariant[OF newPoll_invariant])
next
  fix p :: poll assume "ingestInvariant p"
  then show "ingestInvariant (ingestAll ex calls p)" by (rule ingestAll_invariant)
next
  fix c and p q :: poll assume q: "ingest ex c p = Inr q"
  note l = ingest_Inr[OF q]
  show "length (messages q) = length (messages p) + 1" using l by simp
  show "length (encPubKeys q) = length (encPubKeys p) + 1" using l by simp
  show "length (commands q) = length (commands p) + 1" using l by simp
  show "nextIndex (messageTree q) = nextIndex (messageTree p) + 1" using l by simp
next
  fix p :: poll and m k fresh
  assume "msgType m = 1 \<and> fst k < SNARK_FIELD_SIZE \<and> snd k < SNARK_FIELD_SIZE \<and> dataInRange m
         \<and> decrypt ex m (genEcdhSharedKey ex (kp_privKey (coordinatorKeypair p)) k) = None"
  then show "\<exists>q. ingest ex (PublishCall m k fresh) p = Inr q
                  \<and> commands q = commands p @ [PCmd (zeroCommand fresh)]"
    using publishMessage_placeholder[of m k ex p fresh] by simp
qed

theorem ingest_keeps_lengths_equal_witness:
  "ingestInvariant (ingestAll ex0 [PublishCall vote0 (9, 9) (0, 0), TopupCall topup0,
       PublishCall garbled (9, 9) (3, 4), TopupCall vote0] poll0)
   \<and> length (messages (ingestAll ex0 [PublishCall vote0 (9, 9) (0, 0), TopupCall topup0,
       PublishCall garbled (9, 9) (3, 4), TopupCall vote0] poll0)) = 3
   \<and> (\<exists>q. ingest ex0 (PublishCall garbled (9, 9) (3, 4)) poll0 = Inr q
          \<and> commands q = [PCmd (zeroCommand (3, 4))]
          \<and> length (messages q) = 1 \<and> nextIndex (messageTree q) = 1)"
proof -
  let ?calls = "[PublishCall vote0 (9, 9) (0, 0), TopupCall topup0,
       PublishCall garbled (9, 9) (3, 4), TopupCall vote0]"
  note t = ingest_keeps_lengths_equal[of ex0 ?calls 1000 kp0
     "\<lparr>intStateTreeDepth = 1, messageTreeDepth = 2, messageTreeSubDepth = 1,
      voteOptionTreeDepth = 2\<rparr>"
     "\<lparr>tallyBatchSize = 2, subsidyBatchSize = 2, messageBatchSize = 2\<rparr>"
     "\<lparr>maxMessages = 25, maxVoteOptions = 3\<rparr>" ms0, folded poll0_def]
  have d: "msgType garbled = 1" "fst (9::int, 9::int) < SNARK_FIELD_SIZE"
    "snd (9::int, 9::int) < SNARK_FIELD_SIZE" "dataInRange garbled"
    "decrypt ex0 garbled (genEcdhSharedKey ex0 (kp_privKey (coordinatorKeypair poll0)) (9, 9)) = None"
    by (simp_all add: garbled_def SNARK_FIELD_SIZE_def dataInRange_def ex0_def)
  from t d obtain q where q: "ingest ex0 (PublishCall garbled (9, 9) (3, 4)) poll0 = Inr q"
    "commands q = commands poll0 @ [PCmd (zeroCommand (3, 4))]"
    by blast
  from t q(1) have l: "length (messages q) = length (messages poll0) + 1"
     "nextIndex (messageTree q) = nextIndex (messageTree poll0) + 1" by blast+
  have n: "length (messages (ingestAll ex0 ?calls poll0)) = 3"
    by (simp add: publishMessage_def topupMessage_def poll0_def newPoll_def ex0_def vote0_def
        topup0_def garbled_def dataInRange_def SNARK_FIELD_SIZE_def Let_def)
  have z: "commands poll0 = []" "messages poll0 = []" "nextIndex (messageTree poll0) = 0"
    by (simp_all add: poll0_def newPoll_def nextIndex_def newTree_def)
  show ?thesis using t n q l z by auto
qed

subsection \<open>Rejected commands\<close>

lemma processMessage_decrypt_None:
  assumes "decrypt ex m (genEcdhSharedKey ex (kp_privKey (coordinatorKeypair p)) k) = None"
  shows "processMessage ex p m k = Inl (ProcessMessageError FailedDecryption)"
  using assms by (simp add: processMessage_def processMessageBody_def Let_def)

lemma processMessage_throws_ProcessMessageError:
  "processMessage ex p m k = Inl x \<Longrightarrow> \<exists>e. x = ProcessMessageError e"
  by (auto simp: processMessage_def split: sum.splits exn.splits)

lemma processMessage_cases:
  "(\<exists>r. processMessage ex p m k = Inr r)
   \<or> processMessage ex p m k = Inl (ProcessMessageError FailedDecryption)
   \<or> (\<exists>e. processMessageBody ex p m k = Inl (ProcessMessageError e))"
  by (auto simp: processMessage_def split: sum.splits exn.splits)

lemma orThrow_Inl_cases:
  "orThrow v e f = Inl x \<Longrightarrow> (v = None \<and> x = e) \<or> (\<exists>y. v = Some y \<and> f y = Inl x)"
  by (cases v) auto

lemma processMessageBody_rules:
  assumes d: "decrypt ex m (genEcdhSharedKey ex (kp_privKey (coordinatorKeypair p)) k)
                = Some (command, signature)"
    and st: "stateTree p = Some st"
    and len: "length (stateLeaves p) = nextIndex st"
    and wf: "\<forall>b \<in> set (ballots p). maxVoteOptions (p_maxValues p) \<le> length (votes b)"
  shows "case specRejection ex p st command signature of
           Some e \<Rightarrow> processMessageBody ex p m k = Inl (ProcessMessageError e)
         | None \<Rightarrow> \<not> (\<exists>e. processMessageBody ex p m k = Inl (ProcessMessageError e))"
proof (cases "1 \<le> stateIndex command
              \<and> stateIndex command < int (min (length (ballots p)) (nextIndex st))")
  case False
  then have "specRejection ex p st command signature = Some InvalidStateLeafIndex"
    by (simp add: specRejection_def Let_def)
  moreover have "processMessageBody ex p m k = Inl (ProcessMessageError InvalidStateLeafIndex)"
  proof (cases "stateIndex command \<ge> int (length (ballots p)) \<or> stateIndex command < 1")
    case True
    then show ?thesis by (simp add: processMessageBody_def Let_def d)
  next
    case f: False
    with False have "stateIndex command \<ge> int (nextIndex st)"
      by (simp add: min_def split: if_splits)
    with f show ?thesis by (simp add: processMessageBody_def Let_def d st)
  qed
  ultimately show ?thesis by simp
next
  case r1: True
  let ?i = "nat (stateIndex command)"
  have lt: "stateIndex command < int (length (ballots p))"
    "stateIndex command < int (nextIndex st)" "1 \<le> stateIndex command"
    using r1 by (simp_all add: min_def split: if_splits)
  have i1: "?i < length (ballots p)" and i2: "?i < length (stateLeaves p)"
    using lt len by linarith+
  have c1: "\<not> (stateIndex command \<ge> int (length (ballots p)) \<or> stateIndex command < 1)"
    "\<not> stateIndex command \<ge> int (nextIndex st)"
    using lt by linarith+
  have sl: "nth_opt (stateLeaves p) ?i = Some (stateLeaves p ! ?i)"
    using i2 by (simp add: nth_opt_def)
  let ?leaf = "stateLeaves p ! ?i" and ?ballot = "ballots p ! ?i"
  have step1: "processMessageBody ex p m k =
      (if \<not> verifySignature ex command signature (sl_pubKey ?leaf)
        then Inl (ProcessMessageError InvalidSignature)
      else if cmd_nonce command \<noteq> nonce ?ballot + 1
        then Inl (ProcessMessageError InvalidNonce)
      else if voteOptionIndex command < 0
              \<or> voteOptionIndex command \<ge> int (maxVoteOptions (p_maxValues p))
        then Inl (ProcessMessageError InvalidVoteOptionIndex)
      else
      orThrow (nth_opt (votes ?ballot) (nat (voteOptionIndex command))) SyntaxError (\<lambda>ovw.
      if voiceCreditBalance ?leaf + ovw * ovw
              - newVoteWeight command * newVoteWeight command < 0
        then Inl (ProcessMessageError InsufficientVoiceCredits)
      else
      orThrow (genMerklePath ex st ?i) ExternalError (\<lambda>slPath.
      orThrow (ballotTree p) TypeError (\<lambda>bt.
      orThrow (genMerklePath ex bt ?i) ExternalError (\<lambda>bPath.
      orThrow (voteTreePath ex (voteOptionTreeDepth (p_treeDepths p))
                 (map (nth_opt (votes ?ballot)) [0 ..< length (votes (ballots p ! 0))])
                 (nat (voteOptionIndex command)))
        ExternalError (\<lambda>vPath.
          Inr \<lparr>stateLeafIndex = ?i,
               newStateLeaf = ?leaf\<lparr>voiceCreditBalance := voiceCreditBalance ?leaf + ovw * ovw
              - newVoteWeight command * newVoteWeight command,
                          sl_pubKey := newPubKey command\<rparr>,
               originalStateLeaf = ?leaf,
               originalStateLeafPathElements = slPath,
               originalVoteWeight = ovw,
               originalVoteWeightsPathElements = vPath,
               newBallot = ?ballot\<lparr>nonce := nonce ?ballot + 1,
                      votes := (votes ?ballot)[nat (voteOptionIndex command) := newVoteWeight command]\<rparr>,
               originalBallot = ?ballot,
               originalBallotPathElements = bPath,
               o_command = command\<rparr>))))))"
    unfolding processMessageBody_def Let_def
    by (simp only: d st orThrow.simps prod.case c1 sl if_False)
  show ?thesis
  proof (cases "verifySignature ex command signature (sl_pubKey ?leaf)")
    case False
    then show ?thesis using r1 by (simp add: step1 specRejection_def Let_def)
  next
    case r2: True
    show ?thesis
    proof (cases "cmd_nonce command = nonce ?ballot + 1")
      case False
      then show ?thesis using r1 r2 by (simp add: step1 specRejection_def Let_def)
    next
      case r3: True
      show ?thesis
      proof (cases "0 \<le> voteOptionIndex command
                    \<and> voteOptionIndex command < int (maxVoteOptions (p_maxValues p))")
        case False
        then have "voteOptionIndex command < 0
              \<or> voteOptionIndex command \<ge> int (maxVoteOptions (p_maxValues p))" by linarith
        then show ?thesis using r1 r2 r3 False by (simp add: step1 specRejection_def Let_def)
      next
        case r4: True
        let ?v = "nat (voteOptionIndex command)"
        have "?ballot \<in> set (ballots p)" using i1 by simp
        with wf have "maxVoteOptions (p_maxValues p) \<le> length (votes ?ballot)" by blast
        with r4 have "?v < length (votes ?ballot)" by linarith
        then have w: "nth_opt (votes ?ballot) ?v = Some (votes ?ballot ! ?v)"
          by (simp add: nth_opt_def)
        have c4: "\<not> (voteOptionIndex command < 0
              \<or> voteOptionIndex command \<ge> int (maxVoteOptions (p_maxValues p)))"
          using r4 by linarith
        let ?left = "voiceCreditBalance ?leaf + (votes ?ballot ! ?v) * (votes ?ballot ! ?v)
              - newVoteWeight command * newVoteWeight command"
        show ?thesis
        proof (cases "?left < 0")
          case True
          then have "processMessageBody ex p m k
                       = Inl (ProcessMessageError InsufficientVoiceCredits)"
            by (simp only: step1 r2 r3 c4 w orThrow.simps not_True_eq_False if_False if_True simp_thms)
          moreover have "specRejection ex p st command signature = Some InsufficientVoiceCredits"
            using r1 r2 r3 r4 True by (simp add: specRejection_def Let_def power2_eq_square)
          ultimately show ?thesis by simp
        next
          case False
          have none: "specRejection ex p st command signature = None"
            using r1 r2 r3 r4 False by (simp add: specRejection_def Let_def power2_eq_square)
          have rest: "processMessageBody ex p m k =
            orThrow (genMerklePath ex st ?i) ExternalError (\<lambda>slPath.
            orThrow (ballotTree p) TypeError (\<lambda>bt.
            orThrow (genMerklePath ex bt ?i) ExternalError (\<lambda>bPath.
            orThrow (voteTreePath ex (voteOptionTreeDepth (p_treeDepths p))
                 (map (nth_opt (votes ?ballot)) [0 ..< length (votes (ballots p ! 0))]) ?v)
              ExternalError (\<lambda>vPath.
          Inr \<lparr>stateLeafIndex = ?i,
               newStateLeaf = ?leaf\<lparr>voiceCreditBalance := ?left,
                          sl_pubKey := newPubKey command\<rparr>,
               originalStateLeaf = ?leaf,
               originalStateLeafPathElements = slPath,
               originalVoteWeight = votes ?ballot ! ?v,
               originalVoteWeightsPathElements = vPath,
               newBallot = ?ballot\<lparr>nonce := nonce ?ballot + 1,
                      votes := (votes ?ballot)[?v := newVoteWeight command]\<rparr>,
               originalBallot = ?ballot,
               originalBallotPathElements = bPath,
               o_command = command\<rparr>))))"
            using False
            by (simp only: step1 r2 r3 c4 w orThrow.simps not_True_eq_False if_False if_True simp_thms)
          have "\<not> (\<exists>e. processMessageBody ex p m k = Inl (ProcessMessageError e))"
          proof
            assume "\<exists>e. processMessageBody ex p m k = Inl (ProcessMessageError e)"
            then obtain e where e: "processMessageBody ex p m k = Inl (ProcessMessageError e)" ..
            from e[unfolded rest] show False
              by (auto dest!: orThrow_Inl_cases)
          qed
          with none show ?thesis by simp
        qed
      qed
    qed
  qed
qed


text \<open>C2. A message whose command decrypts is judged by the five rules in their order:
  the first rule that fails gives the kind of the ProcessMessageError (\<open>specRejection\<close>
  states the rules in the spec's words); when all five pass the message is accepted,
  unless a collaborator throws. A message that does not decrypt, and every exception
  other than a ProcessMessageError, comes out as \<open>FailedDecryption\<close>; so
  \<open>processMessage\<close> throws nothing but ProcessMessageErrors. The poll is one with its
  state snapshot taken (the state tree is defined and has one leaf for each state leaf)
  and with a vote for each option in every ballot.\<close>

theorem processMessage_rejection_order:
  assumes st: "stateTree p = Some st"
    and len: "length (stateLeaves p) = nextIndex st"
    and wf: "\<forall>b \<in> set (ballots p). maxVoteOptions (p_maxValues p) \<le> length (votes b)"
  shows "(case decrypt ex m (genEcdhSharedKey ex (kp_privKey (coordinatorKeypair p)) k) of
            None \<Rightarrow> processMessage ex p m k = Inl (ProcessMessageError FailedDecryption)
          | Some (command, signature) \<Rightarrow>
              (case specRejection ex p st command signature of
                 Some e \<Rightarrow> processMessage ex p m k = Inl (ProcessMessageError e)
               | None \<Rightarrow>
                   (\<exists>r. processMessage ex p m k = Inr r)
                   \<or> processMessage ex p m k = Inl (ProcessMessageError FailedDecryption)))
       \<and> (\<forall>x. processMessage ex p m k = Inl x \<longrightarrow> (\<exists>e. x = ProcessMessageError e))"
proof (intro conjI allI impI)
  show "case decrypt ex m (genEcdhSharedKey ex (kp_privKey (coordinatorKeypair p)) k) of
            None \<Rightarrow> processMessage ex p m k = Inl (ProcessMessageError FailedDecryption)
          | Some (command, signature) \<Rightarrow>
              (case specRejection ex p st command signature of
                 Some e \<Rightarrow> processMessage ex p m k = Inl (ProcessMessageError e)
               | None \<Rightarrow>
                   (\<exists>r. processMessage ex p m k = Inr r)
                   \<or> processMessage ex p m k = Inl (ProcessMessageError FailedDecryption))"
  proof (cases "decrypt ex m (genEcdhSharedKey ex (kp_privKey (coordinatorKeypair p)) k)")
    case None
    then show ?thesis using processMessage_decrypt_None[of ex m p k] by simp
  next
    case (Some cs)
    obtain command signature where cs: "cs = (command, signature)" by (cases cs)
    note rules = processMessageBody_rules[OF Some[unfolded cs] st len wf]
    show ?thesis
    proof (cases "specRejection ex p st command signature")
      case None
      with rules have "\<not> (\<exists>e. processMessageBody ex p m k = Inl (ProcessMessageError e))"
        by simp
      with processMessage_cases[of ex p m k] show ?thesis using Some cs None by auto
    next
      case (Some e)
      with rules have "processMessageBody ex p m k = Inl (ProcessMessageError e)" by simp
      then have "processMessage ex p m k = Inl (ProcessMessageError e)"
        by (simp add: processMessage_def)
      then show ?thesis using \<open>decrypt ex m _ = Some cs\<close> cs Some by simp
    qed
  qed
next
  fix x assume "processMessage ex p m k = Inl x"
  then show "\<exists>e. x = ProcessMessageError e" by (rule processMessage_throws_ProcessMessageError)
qed

theorem processMessage_rejection_order_witness:
  "processMessage ex0 poll2 overspend (9, 9)
     = Inl (ProcessMessageError InsufficientVoiceCredits)
   \<and> processMessage ex0 poll2 badNonceAndOption (9, 9)
     = Inl (ProcessMessageError InvalidNonce)
   \<and> processMessage ex0 poll2 garbled (9, 9)
     = Inl (ProcessMessageError FailedDecryption)"
proof -
  have st: "stateTree poll2 = Some (ms_stateTree ms0)"
    and len: "length (stateLeaves poll2) = nextIndex (ms_stateTree ms0)"
    and wf: "\<forall>b \<in> set (ballots poll2). maxVoteOptions (p_maxValues poll2) \<le> length (votes b)"
    by (simp_all add: poll2_def poll1_def poll0_def newPoll_def ms0_def nextIndex_def
        genBlankBallot_def)
  note t = processMessage_rejection_order[OF st len wf, of ex0 _ "(9, 9)"]
  have d1: "decrypt ex0 overspend (genEcdhSharedKey ex0 (kp_privKey (coordinatorKeypair poll2)) (9, 9))
      = Some (\<lparr>stateIndex = 1, newPubKey = (21, 22), voteOptionIndex = 2,
                        newVoteWeight = 11, cmd_nonce = 1, cmd_pollId = 0, salt = 0\<rparr>, 11)"
    by (simp add: ex0_def overspend_def)
  have s1: "specRejection ex0 poll2 (ms_stateTree ms0) \<lparr>stateIndex = 1, newPubKey = (21, 22), voteOptionIndex = 2,
                        newVoteWeight = 11, cmd_nonce = 1, cmd_pollId = 0, salt = 0\<rparr> 11
      = Some InsufficientVoiceCredits"
    by (simp add: specRejection_def poll2_def poll1_def poll0_def newPoll_def ms0_def
        nextIndex_def genBlankBallot_def ex0_def Let_def numeral_3_eq_3)
  have d2: "decrypt ex0 badNonceAndOption (genEcdhSharedKey ex0 (kp_privKey (coordinatorKeypair poll2)) (9, 9))
      = Some (\<lparr>stateIndex = 1, newPubKey = (21, 22), voteOptionIndex = 7,
                        newVoteWeight = 11, cmd_nonce = 3, cmd_pollId = 0, salt = 0\<rparr>, 11)"
    by (simp add: ex0_def badNonceAndOption_def)
  have s2: "specRejection ex0 poll2 (ms_stateTree ms0) \<lparr>stateIndex = 1, newPubKey = (21, 22), voteOptionIndex = 7,
                        newVoteWeight = 11, cmd_nonce = 3, cmd_pollId = 0, salt = 0\<rparr> 11
      = Some InvalidNonce"
    by (simp add: specRejection_def poll2_def poll1_def poll0_def newPoll_def ms0_def
        nextIndex_def genBlankBallot_def ex0_def Let_def)
  have d3: "decrypt ex0 garbled (genEcdhSharedKey ex0 (kp_privKey (coordinatorKeypair poll2)) (9, 9))
      = None"
    by (simp add: ex0_def garbled_def)
  show ?thesis
    using t[of overspend] t[of badNonceAndOption] t[of garbled]
    by (simp add: d1 s1 d2 s2 d3)
qed

subsection \<open>Rejected votes in a batch\<close>

lemma orThrow_eq_Inr_iff: "orThrow v e f = Inr r \<longleftrightarrow> (\<exists>x. v = Some x \<and> f x = Inr r)"
  by (cases v) auto




lemma publish_poll4: "publishMessage ex0 (0, 0) poll1 overspend (9, 9) = Inr poll4"
  by (simp add: publishMessage_def poll4_def instance_defs dataInRange_def SNARK_FIELD_SIZE_def
      insert_leaf_def newTree_def Let_def)




subsection \<open>The batches of \<open>processMessages\<close>\<close>

lemma processBatchLoop_runSlots_from:
  "processBatchLoop ex start bs i s
     = runSlots ex (map (\<lambda>j. start + bs - j - 1) [i ..< bs]) s"
proof (induction ex start bs i s rule: processBatchLoop.induct)
  case (1 ex start bs i s)
  show ?case
  proof (cases "i < bs")
    case True
    then have u: "[i ..< bs] = i # [i + 1 ..< bs]" by (simp add: upt_conv_Cons)
    show ?thesis
      using True "1.IH"
      by (subst processBatchLoop.simps) (simp add: u split: sum.splits)
  next
    case False
    then show ?thesis by (subst processBatchLoop.simps) simp
  qed
qed

lemma descending_indices: "map (\<lambda>j. start + bs - j - 1) [0 ..< bs] = rev [start ..< start + (bs::nat)]"
proof (rule nth_equalityI)
  show "length (map (\<lambda>j. start + bs - j - 1) [0 ..< bs]) = length (rev [start ..< start + bs])"
    by simp
next
  fix i assume "i < length (map (\<lambda>j. start + bs - j - 1) [0 ..< bs])"
  then have i: "i < bs" by simp
  then show "map (\<lambda>j. start + bs - j - 1) [0 ..< bs] ! i = rev [start ..< start + bs] ! i"
    by (simp add: rev_nth)
qed

lemma processBatchLoop_runSlots:
  "processBatchLoop ex start bs 0 s = runSlots ex (rev [start ..< start + bs]) s"
  by (simp only: processBatchLoop_runSlots_from descending_indices)

lemma sameButState_refl: "sameButState p p"
  unfolding sameButState_def
  by (rule exI[of _ "stateLeaves p"], rule exI[of _ "stateTree p"],
      rule exI[of _ "ballots p"], rule exI[of _ "ballotTree p"]) simp

lemma sameButState_trans: "sameButState p q \<Longrightarrow> sameButState q r \<Longrightarrow> sameButState p r"
  unfolding sameButState_def by (elim exE) (simp, blast)

lemma sameButState_fields:
  assumes "sameButState p q"
  shows "messages q = messages p" "encPubKeys q = encPubKeys p" "commands q = commands p"
    "messageTree q = messageTree p" "numBatchesProcessed q = numBatchesProcessed p"
    "p_batchSizes q = p_batchSizes p" "p_maxValues q = p_maxValues p"
    "currentMessageBatchIndex q = currentMessageBatchIndex p" "sbSalts q = sbSalts p"
    "coordinatorKeypair q = coordinatorKeypair p" "pollId q = pollId p"
  using assms unfolding sameButState_def by auto

lemma processVoteSlot_same:
  assumes "processVoteSlot ex idx m (p, w) = Inr (q, w1)"
  shows "sameButState p q"
proof -
  let ?r = "case nth_opt (encPubKeys p) idx of
              None \<Rightarrow> Inl (ProcessMessageError FailedDecryption)
            | Some encPubKey \<Rightarrow> processMessage ex p m encPubKey"
  show ?thesis
  proof (cases ?r)
    case (Inr r)
    from assms have "orThrow (stateTree p) TypeError (\<lambda>st.
              orThrow (update_leaf st (stateLeafIndex r) (hashStateLeaf ex (newStateLeaf r)))
                ExternalError (\<lambda>st1.
              orThrow (ballotTree p) TypeError (\<lambda>bt.
              orThrow (update_leaf bt (stateLeafIndex r) (hashBallot ex (newBallot r)))
                ExternalError (\<lambda>bt1.
                Inr (p\<lparr>stateLeaves := (stateLeaves p)[stateLeafIndex r := newStateLeaf r],
                        stateTree := Some st1,
                        ballots := (ballots p)[stateLeafIndex r := newBallot r],
                        ballotTree := Some bt1\<rparr>,
                     w\<lparr>currentStateLeaves := originalStateLeaf r # currentStateLeaves w,
                      currentBallots := originalBallot r # currentBallots w,
                      currentVoteWeights := Some (originalVoteWeight r) # currentVoteWeights w,
                      currentVoteWeightsPathElements :=
                        originalVoteWeightsPathElements r # currentVoteWeightsPathElements w,
                      currentStateLeavesPathElements :=
                        originalStateLeafPathElements r # currentStateLeavesPathElements w,
                      currentBallotsPathElements :=
                        originalBallotPathElements r # currentBallotsPathElements w\<rparr>)))))
             = Inr (q, w1)"
      by (simp add: processVoteSlot_def Let_def Inr)
    then show ?thesis
      unfolding sameButState_def by (simp add: orThrow_eq_Inr_iff) blast
  next
    case (Inl x)
    show ?thesis
    proof (cases x)
      case (ProcessMessageError e)
      with Inl assms have "q = p"
        by (simp add: processVoteSlot_def Let_def split: sum.splits)
      then show ?thesis by (simp add: sameButState_refl)
    qed (use Inl assms in \<open>simp_all add: processVoteSlot_def Let_def\<close>)
  qed
qed

lemma processTopupSlot_same:
  assumes "processTopupSlot ex m (p, w) = Inr (q, w1)"
  shows "sameButState p q"
proof -
  from assms have "\<exists>sl st. q = p\<lparr>stateLeaves := sl, stateTree := st\<rparr>"
    by (simp add: processTopupSlot_def Let_def orThrow_eq_Inr_iff split: if_splits) blast+
  then obtain sl st where "q = p\<lparr>stateLeaves := sl, stateTree := st\<rparr>" by blast
  then show ?thesis
    unfolding sameButState_def
    by (intro exI[of _ sl] exI[of _ st] exI[of _ "ballots p"] exI[of _ "ballotTree p"]) simp
qed

lemma processSlot_same:
  assumes "processSlot ex idx (p, w) = Inr (q, w1)"
  shows "sameButState p q"
proof (cases "idx < length (messages p)")
  case True
  show ?thesis
  proof (cases "msgType (messages p ! idx) = 1")
    case t1: True
    with True assms show ?thesis
      by (simp add: processSlot_def Let_def processVoteSlot_same)
  next
    case f1: False
    show ?thesis
    proof (cases "msgType (messages p ! idx) = 2")
      case True
      with \<open>idx < length (messages p)\<close> f1 assms show ?thesis
        by (simp add: processSlot_def Let_def processTopupSlot_same)
    next
      case False
      with \<open>idx < length (messages p)\<close> f1 assms show ?thesis
        by (simp add: processSlot_def Let_def sameButState_refl)
    qed
  qed
next
  case False
  with assms have "q = p" by (simp add: processSlot_def split: sum.splits)
  then show ?thesis by (simp add: sameButState_refl)
qed

lemma runSlots_same:
  "runSlots ex idxs (p, w) = Inr (q, w1) \<Longrightarrow> sameButState p q"
proof (induction idxs arbitrary: p w)
  case Nil
  then show ?case by (simp add: sameButState_refl)
next
  case (Cons idx rest)
  from Cons.prems obtain p1 w2 where
    s: "processSlot ex idx (p, w) = Inr (p1, w2)" and r: "runSlots ex rest (p1, w2) = Inr (q, w1)"
    by (auto split: sum.splits)
  from processSlot_same[OF s] Cons.IH[OF r] show ?case by (rule sameButState_trans)
qed

lemma copyStateFromMaci_Inr:
  assumes "copyStateFromMaci ex p ms = Inr q"
  shows "\<exists>sl st bl bt. q = p\<lparr>stateLeaves := sl, stateTree := Some st, ballotTree := Some bt,
                              ballots := bl, stateCopied := True\<rparr>"
  using assms
  by (simp add: copyStateFromMaci_def Let_def split: if_splits prod.splits) blast

lemma firstBatchIndex_Some:
  assumes "firstBatchIndex n bs = Some c" "0 < bs"
  shows "c = (if 0 < n then n - (if n mod bs = 0 then bs else n mod bs) else 0)"
    and "bs dvd c"
proof -
  show c: "c = (if 0 < n then n - (if n mod bs = 0 then bs else n mod bs) else 0)"
    using assms by (auto simp: firstBatchIndex_def split: if_splits)
  show "bs dvd c"
  proof (cases "0 < n")
    case False
    with c show ?thesis by simp
  next
    case True
    show ?thesis
    proof (cases "n mod bs = 0")
      case True
      then have "bs dvd n" by (simp add: dvd_eq_mod_eq_0)
      then have "bs dvd (n - bs)" by (simp add: dvd_diff_nat)
      with c \<open>0 < n\<close> True show ?thesis by simp
    next
      case False
      have "bs dvd (n - n mod bs)" by (simp add: dvd_minus_mod)
      with c \<open>0 < n\<close> False show ?thesis by simp
    qed
  qed
qed

lemma startBatch_Inr:
  assumes "startBatch ex pid (p, ms) = Inr (p1, ms1)"
  defines "bs \<equiv> messageBatchSize (p_batchSizes p)" and "n \<equiv> length (messages p)"
  shows "\<exists>start. hasUnprocessedMessages p \<and> 0 < bs \<and> bs dvd start
       \<and> currentMessageBatchIndex p1 = Some start
       \<and> (numBatchesProcessed p = 0 \<longrightarrow>
            start = (if 0 < n then n - (if n mod bs = 0 then bs else n mod bs) else 0))
       \<and> (0 < numBatchesProcessed p \<longrightarrow> currentMessageBatchIndex p = Some start)
       \<and> messages p1 = messages p \<and> encPubKeys p1 = encPubKeys p
       \<and> commands p1 = commands p \<and> messageTree p1 = messageTree p
       \<and> p_batchSizes p1 = p_batchSizes p \<and> p_maxValues p1 = p_maxValues p
       \<and> numBatchesProcessed p1 = numBatchesProcessed p
       \<and> numSignUps ms1 = numSignUps ms
       \<and> (pollBeingProcessed ms1 \<longrightarrow> currentPollBeingProcessed ms1 = Some pid)"
proof -
  define MS1 where "MS1 = (if numBatchesProcessed p = 0
                 then ms\<lparr>pollBeingProcessed := True, currentPollBeingProcessed := Some pid\<rparr>
                 else ms)"
  define P1 where "P1 = (if numBatchesProcessed p = 0
                then (case firstBatchIndex (length (messages p)) (messageBatchSize (p_batchSizes p)) of
                        None \<Rightarrow> p\<lparr>currentMessageBatchIndex := None\<rparr>
                      | Some c \<Rightarrow> p\<lparr>currentMessageBatchIndex := Some c,
                                     sbSalts := (sbSalts p)(c \<mapsto> 0)\<rparr>)
                else p)"
  have unfold: "startBatch ex pid (p, ms) =
     (if \<not> hasUnprocessedMessages p
        then Inl (AssertionError ''No more messages to process'')
      else if numBatchesProcessed p = 0 \<and> currentMessageBatchIndex p \<noteq> None
        then Inl (AssertionError
          ''The current message batch index should not be defined if this is the first batch'')
      else
      if pollBeingProcessed MS1 \<and> currentPollBeingProcessed MS1 \<noteq> Some pid
        then Inl (AssertionError ''Another poll is currently being processed'')
      else
      case currentMessageBatchIndex P1 of
        None \<Rightarrow> Inl (AssertionError ''The starting index must be >= 0'')
      | Some c \<Rightarrow>
          if messageBatchSize (p_batchSizes p) = 0 \<or> c mod messageBatchSize (p_batchSizes p) \<noteq> 0
            then Inl (AssertionError
              ''The starting index must be a multiple of the batch size'')
          else if \<not> stateCopied P1
            then (case copyStateFromMaci ex P1 MS1 of
                    Inl e \<Rightarrow> Inl e | Inr p2 \<Rightarrow> Inr (p2, MS1))
          else Inr (P1, MS1))"
    unfolding startBatch_def Let_def fst_conv snd_conv MS1_def P1_def ..
  from assms(1) have h: "hasUnprocessedMessages p"
    unfolding unfold by (simp split: if_splits)
  from assms(1) have lock: "\<not> (pollBeingProcessed MS1 \<and> currentPollBeingProcessed MS1 \<noteq> Some pid)"
    unfolding unfold by (simp split: if_splits)
  from assms(1) have r2: "(case currentMessageBatchIndex P1 of
        None \<Rightarrow> Inl (AssertionError ''The starting index must be >= 0'')
      | Some c \<Rightarrow>
          if messageBatchSize (p_batchSizes p) = 0 \<or> c mod messageBatchSize (p_batchSizes p) \<noteq> 0
            then Inl (AssertionError
              ''The starting index must be a multiple of the batch size'')
          else if \<not> stateCopied P1
            then (case copyStateFromMaci ex P1 MS1 of
                    Inl e \<Rightarrow> Inl e | Inr p2 \<Rightarrow> Inr (p2, MS1))
          else Inr (P1, MS1)) = Inr (p1, ms1)"
    unfolding unfold by (simp split: if_splits)
  then obtain start where c: "currentMessageBatchIndex P1 = Some start"
    by (cases "currentMessageBatchIndex P1") simp_all
  from r2 c have b: "\<not> (bs = 0 \<or> start mod bs \<noteq> 0)"
    by (simp add: bs_def split: if_splits)
  from r2 c b have rest: "(if \<not> stateCopied P1
            then (case copyStateFromMaci ex P1 MS1 of
                    Inl e \<Rightarrow> Inl e | Inr p2 \<Rightarrow> Inr (p2, MS1))
          else Inr (P1, MS1)) = Inr (p1, ms1)"
    by (simp add: bs_def split: if_splits)
  from rest have ms1: "ms1 = MS1" by (simp split: if_splits sum.splits)
  have "p1 = P1 \<or> (\<exists>sl st bl bt. p1 = P1\<lparr>stateLeaves := sl, stateTree := Some st,
        ballotTree := Some bt, ballots := bl, stateCopied := True\<rparr>)"
  proof (cases "stateCopied P1")
    case True
    with rest show ?thesis by simp
  next
    case False
    with rest have "copyStateFromMaci ex P1 MS1 = Inr p1" by (simp split: sum.splits)
    from copyStateFromMaci_Inr[OF this] show ?thesis by blast
  qed
  then have f: "currentMessageBatchIndex p1 = currentMessageBatchIndex P1"
    "messages p1 = messages P1" "encPubKeys p1 = encPubKeys P1"
    "commands p1 = commands P1" "messageTree p1 = messageTree P1"
    "p_batchSizes p1 = p_batchSizes P1" "p_maxValues p1 = p_maxValues P1"
    "numBatchesProcessed p1 = numBatchesProcessed P1"
    by auto
  have g: "messages P1 = messages p" "encPubKeys P1 = encPubKeys p"
    "commands P1 = commands p" "messageTree P1 = messageTree p"
    "p_batchSizes P1 = p_batchSizes p" "p_maxValues P1 = p_maxValues p"
    "numBatchesProcessed P1 = numBatchesProcessed p"
    by (simp_all add: P1_def split: option.splits)
  have gm: "numSignUps MS1 = numSignUps ms" by (simp add: MS1_def)
  have pos: "0 < bs" using b by simp
  have dvd: "bs dvd start" using b by (simp add: dvd_eq_mod_eq_0)
  have first: "start = (if 0 < n then n - (if n mod bs = 0 then bs else n mod bs) else 0)"
    if "numBatchesProcessed p = 0"
  proof -
    from c that have "firstBatchIndex n bs = Some start"
      by (cases "firstBatchIndex n bs") (simp_all add: P1_def n_def bs_def)
    from firstBatchIndex_Some(1)[OF this pos] show ?thesis .
  qed
  have later: "currentMessageBatchIndex p = Some start" if "0 < numBatchesProcessed p"
    using c that by (simp add: P1_def)
  show ?thesis
    apply (rule exI[of _ start])
    using h pos dvd c first later lock by (simp add: f g gm ms1)
qed

lemma startBatch_poll:
  assumes sb: "startBatch ex pid (p, ms) = Inr (p0, ms1)"
    and c0: "currentMessageBatchIndex p0 = Some start"
  defines "pc \<equiv> (if numBatchesProcessed p = 0
                  then p\<lparr>currentMessageBatchIndex := Some start,
                         sbSalts := (sbSalts p)(start \<mapsto> 0)\<rparr>
                  else p)"
  shows "ms1 = (if numBatchesProcessed p = 0
                then ms\<lparr>pollBeingProcessed := True, currentPollBeingProcessed := Some pid\<rparr>
                else ms)"
    and "stateCopied p \<Longrightarrow> p0 = pc"
    and "\<not> stateCopied p \<Longrightarrow> copyStateFromMaci ex pc ms1 = Inr p0"
proof -
  define MS1 where "MS1 = (if numBatchesProcessed p = 0
                 then ms\<lparr>pollBeingProcessed := True, currentPollBeingProcessed := Some pid\<rparr>
                 else ms)"
  define P1 where "P1 = (if numBatchesProcessed p = 0
                then (case firstBatchIndex (length (messages p)) (messageBatchSize (p_batchSizes p)) of
                        None \<Rightarrow> p\<lparr>currentMessageBatchIndex := None\<rparr>
                      | Some c \<Rightarrow> p\<lparr>currentMessageBatchIndex := Some c,
                                     sbSalts := (sbSalts p)(c \<mapsto> 0)\<rparr>)
                else p)"
  have unfold: "startBatch ex pid (p, ms) =
     (if \<not> hasUnprocessedMessages p
        then Inl (AssertionError ''No more messages to process'')
      else if numBatchesProcessed p = 0 \<and> currentMessageBatchIndex p \<noteq> None
        then Inl (AssertionError
          ''The current message batch index should not be defined if this is the first batch'')
      else
      if pollBeingProcessed MS1 \<and> currentPollBeingProcessed MS1 \<noteq> Some pid
        then Inl (AssertionError ''Another poll is currently being processed'')
      else
      case currentMessageBatchIndex P1 of
        None \<Rightarrow> Inl (AssertionError ''The starting index must be >= 0'')
      | Some c \<Rightarrow>
          if messageBatchSize (p_batchSizes p) = 0 \<or> c mod messageBatchSize (p_batchSizes p) \<noteq> 0
            then Inl (AssertionError
              ''The starting index must be a multiple of the batch size'')
          else if \<not> stateCopied P1
            then (case copyStateFromMaci ex P1 MS1 of
                    Inl e \<Rightarrow> Inl e | Inr p2 \<Rightarrow> Inr (p2, MS1))
          else Inr (P1, MS1))"
    unfolding startBatch_def Let_def fst_conv snd_conv MS1_def P1_def ..
  from sb have r2: "(case currentMessageBatchIndex P1 of
        None \<Rightarrow> Inl (AssertionError ''The starting index must be >= 0'')
      | Some c \<Rightarrow>
          if messageBatchSize (p_batchSizes p) = 0 \<or> c mod messageBatchSize (p_batchSizes p) \<noteq> 0
            then Inl (AssertionError
              ''The starting index must be a multiple of the batch size'')
          else if \<not> stateCopied P1
            then (case copyStateFromMaci ex P1 MS1 of
                    Inl e \<Rightarrow> Inl e | Inr p2 \<Rightarrow> Inr (p2, MS1))
          else Inr (P1, MS1)) = Inr (p0, ms1)"
    unfolding unfold by (simp split: if_splits)
  then obtain c where c: "currentMessageBatchIndex P1 = Some c"
    by (cases "currentMessageBatchIndex P1") simp_all
  from r2 c have rest: "(if \<not> stateCopied P1
            then (case copyStateFromMaci ex P1 MS1 of
                    Inl e \<Rightarrow> Inl e | Inr p2 \<Rightarrow> Inr (p2, MS1))
          else Inr (P1, MS1)) = Inr (p0, ms1)"
    by (simp split: if_splits)
  from rest show ms1: "ms1 = (if numBatchesProcessed p = 0
                then ms\<lparr>pollBeingProcessed := True, currentPollBeingProcessed := Some pid\<rparr>
                else ms)"
    unfolding MS1_def[symmetric] by (simp split: if_splits sum.splits)
  then have ms1': "ms1 = MS1" by (simp add: MS1_def)
  have "p0 = P1 \<or> (\<exists>sl st bl bt. p0 = P1\<lparr>stateLeaves := sl, stateTree := Some st,
        ballotTree := Some bt, ballots := bl, stateCopied := True\<rparr>)"
  proof (cases "stateCopied P1")
    case True
    with rest show ?thesis by simp
  next
    case False
    with rest have "copyStateFromMaci ex P1 MS1 = Inr p0" by (simp split: sum.splits)
    from copyStateFromMaci_Inr[OF this] show ?thesis by blast
  qed
  then have "currentMessageBatchIndex p0 = currentMessageBatchIndex P1" by auto
  with c c0 have cs: "c = start" by simp
  have P1: "P1 = pc"
  proof (cases "numBatchesProcessed p = 0")
    case False
    then show ?thesis by (simp add: P1_def pc_def)
  next
    case True
    with c cs have "firstBatchIndex (length (messages p)) (messageBatchSize (p_batchSizes p))
                      = Some start"
      by (cases "firstBatchIndex (length (messages p)) (messageBatchSize (p_batchSizes p))")
         (simp_all add: P1_def)
    with True show ?thesis by (simp add: P1_def pc_def)
  qed
  have sc: "stateCopied P1 = stateCopied p"
    by (simp add: P1_def split: option.splits)
  show "p0 = pc" if "stateCopied p"
    using rest[unfolded sc] that by (simp add: P1)
  show "copyStateFromMaci ex pc ms1 = Inr p0" if "\<not> stateCopied p"
    using rest[unfolded sc] that by (simp add: P1[symmetric] ms1' split: sum.splits)
qed

lemma genPartial_Inr:
  assumes "genProcessMessagesCircuitInputsPartial ex p ms index = Inr (q, inputs)"
  shows "q = p\<lparr>messageTree := padTree (index + messageBatchSize (p_batchSizes p)) (messageTree p)\<rparr>
       \<and> index \<le> length (messages p)
       \<and> packedVals inputs =
            int (maxVoteOptions (p_maxValues p)) + int (numSignUps ms) * 2 ^ 50
              + int index * 2 ^ 100
              + int (min (index + messageBatchSize (p_batchSizes p)) (length (messages p))) * 2 ^ 150
       \<and> msgs inputs = slice (padLast (messageBatchSize (p_batchSizes p)) (messages p)) index
                          (index + messageBatchSize (p_batchSizes p))"
  using assms
  by (auto simp add: genProcessMessagesCircuitInputsPartial_def Let_def orThrow_eq_Inr_iff min_def
      split: if_splits)

lemma finishBatch_Inr:
  assumes "finishBatch ex salts (p, ms) = Some (Inr (q, ms1, out))"
  shows "\<exists>start p1 inputs p2 w newSalt.
           currentMessageBatchIndex p = Some start
         \<and> genProcessMessagesCircuitInputsPartial ex p ms start = Inr (p1, inputs)
         \<and> processBatchLoop ex start (messageBatchSize (p_batchSizes p)) 0 (p1, emptyWitness)
             = Inr (p2, w)
         \<and> q = p2\<lparr>numBatchesProcessed := numBatchesProcessed p2 + 1,
                   currentMessageBatchIndex :=
                     Some (if start > 0 then start - messageBatchSize (p_batchSizes p) else start),
                   sbSalts := (sbSalts p2)
                     ((if start > 0 then start - messageBatchSize (p_batchSizes p) else start)
                        \<mapsto> newSalt)\<rparr>
         \<and> ms1 = (if numBatchesProcessed q * messageBatchSize (p_batchSizes p)
                       \<ge> length (messages q)
                     then ms\<lparr>pollBeingProcessed := False\<rparr> else ms)
         \<and> out = inputs\<lparr>ci_witness := w, newSbSalt := Some newSalt\<rparr>
         \<and> pickSalt (sbSalts p2
               (if start > 0 then start - messageBatchSize (p_batchSizes p) else start)) salts
             = Some newSalt"
proof -
  let ?bs = "messageBatchSize (p_batchSizes p)"
  from assms(1) obtain start where c: "currentMessageBatchIndex p = Some start"
    by (cases "currentMessageBatchIndex p") (simp_all add: finishBatch_def Let_def)
  from assms(1) c obtain p1 inputs where
    g: "genProcessMessagesCircuitInputsPartial ex p ms start = Inr (p1, inputs)"
    by (cases "genProcessMessagesCircuitInputsPartial ex p ms start")
       (auto simp add: finishBatch_def Let_def)
  from assms(1) c g obtain p2 w where
    l: "processBatchLoop ex start ?bs 0 (p1, emptyWitness) = Inr (p2, w)"
    by (cases "processBatchLoop ex start ?bs 0 (p1, emptyWitness)")
       (auto simp add: finishBatch_def Let_def)
  let ?next = "if start > 0 then start - ?bs else start"
  from assms(1) c g l obtain newSalt where
    s: "pickSalt (sbSalts p2 ?next) salts = Some newSalt"
    by (cases "pickSalt (sbSalts p2 ?next) salts")
       (auto simp add: finishBatch_def Let_def)
  from assms(1) c g l s have
    "q = p2\<lparr>numBatchesProcessed := numBatchesProcessed p2 + 1,
                   currentMessageBatchIndex := Some ?next,
                   sbSalts := (sbSalts p2)(?next \<mapsto> newSalt)\<rparr>"
    "ms1 = (if numBatchesProcessed q * ?bs \<ge> length (messages q)
                     then ms\<lparr>pollBeingProcessed := False\<rparr> else ms)"
    "out = inputs\<lparr>ci_witness := w, newSbSalt := Some newSalt\<rparr>"
    by (auto simp add: finishBatch_def Let_def split: if_splits)
  with c g l s show ?thesis by blast
qed

lemma processMessages_Inr:
  assumes "processMessages ex salts pid (p, ms) = Some (Inr (q, ms2, out))"
  shows "\<exists>p1 ms1. startBatch ex pid (p, ms) = Inr (p1, ms1)
                 \<and> finishBatch ex salts (p1, ms1) = Some (Inr (q, ms2, out))"
  using assms by (cases "startBatch ex pid (p, ms)") (auto simp: processMessages_def)

text \<open>C3. A call of \<open>processMessages\<close> that returns has worked on the batch that
  starts at \<open>start\<close>, a multiple of the (positive) batch size \<open>bs\<close>: on the first call
  \<open>start\<close> is the number \<open>n\<close> of messages minus \<open>bs\<close> when \<open>n mod bs\<close> is 0 and minus
  \<open>n mod bs\<close> otherwise (0 when there are no messages), later it is the stored
  \<open>currentMessageBatchIndex\<close>; it is the index packed into \<open>packedVals\<close>. The poll \<open>p0\<close>
  the batch starts from is the poll of the call, with the index and its salt set on the
  first call and the snapshot of the MaciState taken when there was none. The loop runs
  the \<open>bs\<close> slots \<open>start + bs - 1\<close> down to \<open>start\<close>, in this order, on \<open>p0\<close> with its
  message tree padded; the poll \<open>p2\<close> it ends with, with the counters and the new salt
  set, is the poll of the result, and the arrays it has collected are those of the circuit
  inputs. Afterwards \<open>currentMessageBatchIndex\<close> is \<open>start - bs\<close> when \<open>start\<close> is positive
  and \<open>start\<close> otherwise, again a multiple of \<open>bs\<close>, and one more batch is counted.\<close>

theorem processMessages_batch_order:
  assumes "processMessages ex salts pid (p, ms) = Some (Inr (q, ms2, out))"
  defines "bs \<equiv> messageBatchSize (p_batchSizes p)" and "n \<equiv> length (messages p)"
  shows "\<exists>start p0 ms1 p2 w newSalt.
           0 < bs \<and> bs dvd start
         \<and> (numBatchesProcessed p = 0 \<longrightarrow>
              start = (if 0 < n then n - (if n mod bs = 0 then bs else n mod bs) else 0))
         \<and> (0 < numBatchesProcessed p \<longrightarrow> currentMessageBatchIndex p = Some start)
         \<and> packedVals out =
              int (maxVoteOptions (p_maxValues p)) + int (numSignUps ms) * 2 ^ 50
                + int start * 2 ^ 100 + int (min (start + bs) n) * 2 ^ 150
         \<and> ms1 = (if numBatchesProcessed p = 0
                   then ms\<lparr>pollBeingProcessed := True, currentPollBeingProcessed := Some pid\<rparr>
                   else ms)
         \<and> (stateCopied p \<longrightarrow>
              p0 = (if numBatchesProcessed p = 0
                    then p\<lparr>currentMessageBatchIndex := Some start,
                           sbSalts := (sbSalts p)(start \<mapsto> 0)\<rparr>
                    else p))
         \<and> (\<not> stateCopied p \<longrightarrow>
              copyStateFromMaci ex
                (if numBatchesProcessed p = 0
                 then p\<lparr>currentMessageBatchIndex := Some start,
                        sbSalts := (sbSalts p)(start \<mapsto> 0)\<rparr>
                 else p) ms1 = Inr p0)
         \<and> processBatchLoop ex start bs 0
              (p0\<lparr>messageTree := padTree (start + bs) (messageTree p)\<rparr>, emptyWitness)
             = Inr (p2, w)
         \<and> runSlots ex (rev [start ..< start + bs])
              (p0\<lparr>messageTree := padTree (start + bs) (messageTree p)\<rparr>, emptyWitness)
             = Inr (p2, w)
         \<and> length (rev [start ..< start + bs]) = bs
         \<and> pickSalt (sbSalts p2 (if 0 < start then start - bs else start)) salts = Some newSalt
         \<and> q = p2\<lparr>numBatchesProcessed := numBatchesProcessed p + 1,
                   currentMessageBatchIndex := Some (if 0 < start then start - bs else start),
                   sbSalts := (sbSalts p2)
                     ((if 0 < start then start - bs else start) \<mapsto> newSalt)\<rparr>
         \<and> messages p0 = messages p \<and> messages q = messages p
         \<and> ci_witness out = w \<and> newSbSalt out = Some newSalt
         \<and> currentMessageBatchIndex q = Some (if 0 < start then start - bs else start)
         \<and> bs dvd (if 0 < start then start - bs else start)
         \<and> numBatchesProcessed q = numBatchesProcessed p + 1"
proof -
  from processMessages_Inr[OF assms(1)] obtain p0 ms1 where
    sb: "startBatch ex pid (p, ms) = Inr (p0, ms1)"
    and fb: "finishBatch ex salts (p0, ms1) = Some (Inr (q, ms2, out))" by blast
  from startBatch_Inr[OF sb] show ?thesis
  proof (elim exE conjE, goal_cases)
    case (1 start)
    note pos = 1(2)[folded bs_def] and dvd = 1(3)[folded bs_def] and c0 = 1(4)
      and first = 1(5)[folded bs_def n_def] and later = 1(6)
      and m0 = 1(7) and t0 = 1(10) and b0 = 1(11) and v0 = 1(12) and n0 = 1(13) and s0 = 1(14)
    note sp = startBatch_poll[OF sb c0]
    have cp1: "stateCopied p \<longrightarrow>
              p0 = (if numBatchesProcessed p = 0
                    then p\<lparr>currentMessageBatchIndex := Some start,
                           sbSalts := (sbSalts p)(start \<mapsto> 0)\<rparr>
                    else p)"
      using sp(2) by blast
    have cp2: "\<not> stateCopied p \<longrightarrow>
              copyStateFromMaci ex
                (if numBatchesProcessed p = 0
                 then p\<lparr>currentMessageBatchIndex := Some start,
                        sbSalts := (sbSalts p)(start \<mapsto> 0)\<rparr>
                 else p) ms1 = Inr p0"
      using sp(3) by blast
    from finishBatch_Inr[OF fb] show ?case
    proof (elim exE conjE, goal_cases)
      case (1 start' p1 inputs p2 w newSalt)
      from 1(1) c0 have st: "start' = start" by simp
      note g = 1(2)[unfolded st] and l0 = 1(3)[unfolded st b0, folded bs_def]
        and q0 = 1(4)[unfolded st b0, folded bs_def] and out = 1(6)
      from genPartial_Inr[OF g] have
        p1: "p1 = p0\<lparr>messageTree := padTree (start + bs) (messageTree p)\<rparr>"
        and pv: "packedVals inputs =
            int (maxVoteOptions (p_maxValues p)) + int (numSignUps ms) * 2 ^ 50
              + int start * 2 ^ 100 + int (min (start + bs) n) * 2 ^ 150"
        by (simp_all add: bs_def n_def m0 b0 v0 s0 t0)
      note l = l0[unfolded p1]
      have n1: "numBatchesProcessed p1 = numBatchesProcessed p"
        by (simp add: p1 n0)
      have m1: "messages p1 = messages p"
        by (simp add: p1 m0)
      from l have rs: "runSlots ex (rev [start ..< start + bs])
          (p0\<lparr>messageTree := padTree (start + bs) (messageTree p)\<rparr>, emptyWitness) = Inr (p2, w)"
        by (simp only: processBatchLoop_runSlots)
      from runSlots_same[OF rs] have same: "sameButState p1 p2" unfolding p1 .
      have n2: "numBatchesProcessed p2 = numBatchesProcessed p"
        using sameButState_fields(5)[OF same] n1 by simp
      have q: "q = p2\<lparr>numBatchesProcessed := numBatchesProcessed p + 1,
                   currentMessageBatchIndex := Some (if 0 < start then start - bs else start),
                   sbSalts := (sbSalts p2)
                     ((if 0 < start then start - bs else start) \<mapsto> newSalt)\<rparr>"
        using q0 by (simp only: n2)
      have m2: "messages q = messages p"
        using sameButState_fields(1)[OF same] m1 by (simp add: q)
      have nq: "numBatchesProcessed q = numBatchesProcessed p + 1"
        by (simp add: q)
      have cq: "currentMessageBatchIndex q = Some (if 0 < start then start - bs else start)"
        by (simp add: q)
      have d2: "bs dvd (if 0 < start then start - bs else start)"
        using dvd by (simp add: dvd_diff_nat)
      have wq: "ci_witness out = w" and pq: "packedVals out = packedVals inputs"
        and sq: "newSbSalt out = Some newSalt"
        by (simp_all add: out)
      note ps = 1(7)[unfolded st b0, folded bs_def]
      show ?case
        apply (rule exI[of _ start], rule exI[of _ p0], rule exI[of _ ms1],
               rule exI[of _ p2], rule exI[of _ w], rule exI[of _ newSalt])
        apply (intro conjI)
        apply (rule pos, rule dvd, rule first, rule later)
        apply (simp only: pq pv)
        apply (rule sp(1), rule cp1, rule cp2)
        apply (rule l, rule rs)
        apply simp
        apply (rule ps, rule q, rule m0, rule m2, rule wq, rule sq, rule cq, rule d2, rule nq)
        done
    qed
  qed
qed

lemma Some_Inr_cases:
  assumes "case x of Some (Inr (q, ms1, out)) \<Rightarrow> P q ms1 out | _ \<Rightarrow> False"
  obtains q ms1 out where "x = Some (Inr (q, ms1, out))" "P q ms1 out"
  using assms by (auto split: option.splits sum.splits)

text \<open>The two batches of \<open>poll3\<close>. The first holds the topup; in the second the vote of
  weight 11 (message 1) is handled before the vote of weight 5 (message 0), so that the
  first is applied and the second, its nonce now stale, is rejected. In the order 0, 1
  the vote of weight 5 would be the one applied.\<close>

lemma both_batches_poll3:
  "case processMessages ex0 [5] 0 (poll3, ms0) of
     Some (Inr (q1, ms1, out1)) \<Rightarrow>
       stateCopied q1 \<and> numBatchesProcessed q1 = 1 \<and> currentMessageBatchIndex q1 = Some 0
     \<and> messageBatchSize (p_batchSizes q1) = 2 \<and> length (messages q1) = 3
     \<and> map voiceCreditBalance (stateLeaves q1) = [0, 150]
     \<and> packedVals out1 = 3 + 1 * 2 ^ 50 + 2 * 2 ^ 100 + 3 * 2 ^ 150
     \<and> (case processMessages ex0 [5, 6] 0 (q1, ms1) of
          Some (Inr (q2, ms2, out2)) \<Rightarrow>
            ballots q2 = [\<lparr>nonce = 0, votes = [0, 0, 0]\<rparr>, \<lparr>nonce = 1, votes = [0, 0, 11]\<rparr>]
          \<and> map voiceCreditBalance (stateLeaves q2) = [0, 29]
          \<and> newSbSalt out2 = Some 6
          \<and> \<not> pollBeingProcessed ms2
        | _ \<Rightarrow> False)
     \<and> (case runSlots ex0 [0, 1]
                 (q1\<lparr>messageTree := padTree 2 (messageTree q1)\<rparr>, emptyWitness) of
          Inr (pa, wa) \<Rightarrow>
            ballots pa = [\<lparr>nonce = 0, votes = [0, 0, 0]\<rparr>, \<lparr>nonce = 1, votes = [0, 0, 5]\<rparr>]
          \<and> map voiceCreditBalance (stateLeaves pa) = [0, 125]
        | _ \<Rightarrow> False)
   | _ \<Rightarrow> False"
  by (simp add: batch_defs instance_defs processBatchLoop_runSlots
        fillBallots.simps padTree.simps padLast.simps
        one_enat_def numeral_eq_enat plus_enat_simps numeral_3_eq_3)


lemma Inr_pair_cases:
  assumes "case x of Inr (a, b) \<Rightarrow> P a b | _ \<Rightarrow> False"
  obtains a b where "x = Inr (a, b)" "P a b"
  using assms by (auto split: sum.splits)

theorem processMessages_batch_order_witness:
  "\<exists>q1 ms1 out1 q2 ms2 out2 p2 pa wa.
     processMessages ex0 [5] 0 (poll3, ms0) = Some (Inr (q1, ms1, out1))
   \<and> packedVals out1 = 3 + 1 * 2 ^ 50 + 2 * 2 ^ 100 + 3 * 2 ^ 150
   \<and> currentMessageBatchIndex q1 = Some 0 \<and> numBatchesProcessed q1 = 1
   \<and> map voiceCreditBalance (stateLeaves q1) = [0, 150]
   \<and> processMessages ex0 [5, 6] 0 (q1, ms1) = Some (Inr (q2, ms2, out2))
   \<and> runSlots ex0 [1, 0] (q1\<lparr>messageTree := padTree 2 (messageTree q1)\<rparr>, emptyWitness)
        = Inr (p2, ci_witness out2)
   \<and> q2 = p2\<lparr>numBatchesProcessed := 2, currentMessageBatchIndex := Some 0,
              sbSalts := (sbSalts p2)(0 \<mapsto> 6)\<rparr>
   \<and> ballots q2 = [\<lparr>nonce = 0, votes = [0, 0, 0]\<rparr>, \<lparr>nonce = 1, votes = [0, 0, 11]\<rparr>]
   \<and> map voiceCreditBalance (stateLeaves q2) = [0, 29]
   \<and> runSlots ex0 [0, 1] (q1\<lparr>messageTree := padTree 2 (messageTree q1)\<rparr>, emptyWitness)
        = Inr (pa, wa)
   \<and> ballots pa = [\<lparr>nonce = 0, votes = [0, 0, 0]\<rparr>, \<lparr>nonce = 1, votes = [0, 0, 5]\<rparr>]
   \<and> map voiceCreditBalance (stateLeaves pa) = [0, 125]"
proof -
  from both_batches_poll3 obtain q1 ms1 out1 where
    r1: "processMessages ex0 [5] 0 (poll3, ms0) = Some (Inr (q1, ms1, out1))"
    and big: "stateCopied q1 \<and> numBatchesProcessed q1 = 1 \<and> currentMessageBatchIndex q1 = Some 0
     \<and> messageBatchSize (p_batchSizes q1) = 2 \<and> length (messages q1) = 3
     \<and> map voiceCreditBalance (stateLeaves q1) = [0, 150]
     \<and> packedVals out1 = 3 + 1 * 2 ^ 50 + 2 * 2 ^ 100 + 3 * 2 ^ 150
     \<and> (case processMessages ex0 [5, 6] 0 (q1, ms1) of
          Some (Inr (q2, ms2, out2)) \<Rightarrow>
            ballots q2 = [\<lparr>nonce = 0, votes = [0, 0, 0]\<rparr>, \<lparr>nonce = 1, votes = [0, 0, 11]\<rparr>]
          \<and> map voiceCreditBalance (stateLeaves q2) = [0, 29]
          \<and> newSbSalt out2 = Some 6
          \<and> \<not> pollBeingProcessed ms2
        | _ \<Rightarrow> False)
     \<and> (case runSlots ex0 [0, 1]
                 (q1\<lparr>messageTree := padTree 2 (messageTree q1)\<rparr>, emptyWitness) of
          Inr (pa, wa) \<Rightarrow>
            ballots pa = [\<lparr>nonce = 0, votes = [0, 0, 0]\<rparr>, \<lparr>nonce = 1, votes = [0, 0, 5]\<rparr>]
          \<and> map voiceCreditBalance (stateLeaves pa) = [0, 125]
        | _ \<Rightarrow> False)"
    by (rule Some_Inr_cases)
  note f1 = big[THEN conjunct1]
    big[THEN conjunct2, THEN conjunct1]
    big[THEN conjunct2, THEN conjunct2, THEN conjunct1]
    big[THEN conjunct2, THEN conjunct2, THEN conjunct2, THEN conjunct1]
    big[THEN conjunct2, THEN conjunct2, THEN conjunct2, THEN conjunct2, THEN conjunct1]
    big[THEN conjunct2, THEN conjunct2, THEN conjunct2, THEN conjunct2, THEN conjunct2, THEN conjunct1]
    big[THEN conjunct2, THEN conjunct2, THEN conjunct2, THEN conjunct2, THEN conjunct2, THEN conjunct2, THEN conjunct1]
  note c2 = big[THEN conjunct2, THEN conjunct2, THEN conjunct2, THEN conjunct2, THEN conjunct2, THEN conjunct2, THEN conjunct2, THEN conjunct1]
  note ca = big[THEN conjunct2, THEN conjunct2, THEN conjunct2, THEN conjunct2, THEN conjunct2, THEN conjunct2, THEN conjunct2, THEN conjunct2]
  from c2 obtain q2 ms2 out2 where
    r2: "processMessages ex0 [5, 6] 0 (q1, ms1) = Some (Inr (q2, ms2, out2))"
    and f2: "ballots q2 = [\<lparr>nonce = 0, votes = [0, 0, 0]\<rparr>, \<lparr>nonce = 1, votes = [0, 0, 11]\<rparr>]"
      "map voiceCreditBalance (stateLeaves q2) = [0, 29]" "newSbSalt out2 = Some 6"
    by (rule Some_Inr_cases) (elim conjE, rule that)
  from ca obtain pa wa where
    ra: "runSlots ex0 [0, 1] (q1\<lparr>messageTree := padTree 2 (messageTree q1)\<rparr>, emptyWitness)
           = Inr (pa, wa)"
    and fa: "ballots pa = [\<lparr>nonce = 0, votes = [0, 0, 0]\<rparr>, \<lparr>nonce = 1, votes = [0, 0, 5]\<rparr>]"
      "map voiceCreditBalance (stateLeaves pa) = [0, 125]"
    by (rule Inr_pair_cases) (elim conjE, rule that)
  have u: "rev [0 ..< 2] = [1, 0::nat]" by (simp add: numeral_2_eq_2)
  have z: "(0::nat) + 2 = 2" by simp
  from processMessages_batch_order[OF r2]
  have "\<exists>p2. runSlots ex0 [1, 0] (q1\<lparr>messageTree := padTree 2 (messageTree q1)\<rparr>, emptyWitness)
                = Inr (p2, ci_witness out2)
            \<and> q2 = p2\<lparr>numBatchesProcessed := 2, currentMessageBatchIndex := Some 0,
                       sbSalts := (sbSalts p2)(0 \<mapsto> 6)\<rparr>"
  proof (elim exE conjE, goal_cases)
    case (1 start p0 ms1' p2 w newSalt)
    from 1(4) f1 have st: "start = 0" by simp
    from 1(7) f1 have p0: "p0 = q1" by simp
    from 1(17) f2 have ns: "newSalt = 6" by simp
    from 1(10)[unfolded st p0 f1(4) z u] have "runSlots ex0 [1, 0]
        (q1\<lparr>messageTree := padTree 2 (messageTree q1)\<rparr>, emptyWitness) = Inr (p2, w)" .
    moreover from 1(13) have "q2 = p2\<lparr>numBatchesProcessed := 2, currentMessageBatchIndex := Some 0,
                       sbSalts := (sbSalts p2)(0 \<mapsto> 6)\<rparr>"
      by (simp add: st f1 ns)
    ultimately show ?case using 1(16) by blast
  qed
  then obtain p2 where
    t: "runSlots ex0 [1, 0] (q1\<lparr>messageTree := padTree 2 (messageTree q1)\<rparr>, emptyWitness)
                = Inr (p2, ci_witness out2)"
       "q2 = p2\<lparr>numBatchesProcessed := 2, currentMessageBatchIndex := Some 0,
                       sbSalts := (sbSalts p2)(0 \<mapsto> 6)\<rparr>"
    by blast
  show ?thesis
    apply (rule exI[of _ q1], rule exI[of _ ms1], rule exI[of _ out1],
           rule exI[of _ q2], rule exI[of _ ms2], rule exI[of _ out2],
           rule exI[of _ p2], rule exI[of _ pa], rule exI[of _ wa])
    apply (intro conjI)
    apply (rule r1, rule f1(7), rule f1(3), rule f1(2), rule f1(6), rule r2)
    apply (rule t(1), rule t(2), rule f2(1), rule f2(2), rule ra, rule fa(1), rule fa(2))
    done
qed

subsection \<open>The lock on the MaciState\<close>

lemma first_batch_poll3_lock:
  "case processMessages ex0 [5] 0 (poll3, ms0) of
     Some (Inr (q, ms1, out)) \<Rightarrow>
       hasUnprocessedMessages q
     \<and> ms1 = ms0\<lparr>pollBeingProcessed := True, currentPollBeingProcessed := Some 0\<rparr>
   | _ \<Rightarrow> False"
  by (simp add: batch_defs instance_defs processBatchLoop_runSlots
        fillBallots.simps padTree.simps padLast.simps
        one_enat_def numeral_eq_enat plus_enat_simps)

lemma first_batch_pollB:
  "case processMessages ex0 [6] 1
          (pollB, ms0\<lparr>pollBeingProcessed := True, currentPollBeingProcessed := Some 0\<rparr>) of
     Some (Inr (q, ms1, out)) \<Rightarrow>
       numBatchesProcessed q = 1
     \<and> ms1 = ms0\<lparr>pollBeingProcessed := False, currentPollBeingProcessed := Some 1\<rparr>
   | _ \<Rightarrow> False"
  by (simp add: batch_defs pollB_def instance_defs processBatchLoop_runSlots
        fillBallots.simps padTree.simps padLast.simps
        one_enat_def numeral_eq_enat plus_enat_simps zero_enat_def)

text \<open>C8. The first call of \<open>processMessages\<close> of a poll takes the lock before the
  lock is looked at. \<open>poll3\<close> (id 0) has processed one of its two batches and holds the
  lock; the first call of \<open>pollB\<close> (id 1) on the same MaciState does not fail: it returns,
  the lock names \<open>pollB\<close>, and, \<open>pollB\<close> having a single batch, the lock is released
  while \<open>poll3\<close> still has a batch to process.\<close>

theorem first_call_takes_the_lock:
  "\<exists>qA msA outA qB msB outB.
     processMessages ex0 [5] 0 (poll3, ms0) = Some (Inr (qA, msA, outA))
   \<and> hasUnprocessedMessages qA
   \<and> pollBeingProcessed msA \<and> currentPollBeingProcessed msA = Some (pollId poll3)
   \<and> pollId pollB = 1 \<and> pollId poll3 = 0 \<and> numBatchesProcessed pollB = 0
   \<and> processMessages ex0 [6] (pollId pollB) (pollB, msA) = Some (Inr (qB, msB, outB))
   \<and> numBatchesProcessed qB = 1
   \<and> currentPollBeingProcessed msB = Some (pollId pollB)
   \<and> \<not> pollBeingProcessed msB"
proof -
  from first_batch_poll3_lock obtain qA msA outA where
    a: "processMessages ex0 [5] 0 (poll3, ms0) = Some (Inr (qA, msA, outA))"
    and a': "hasUnprocessedMessages qA
     \<and> msA = ms0\<lparr>pollBeingProcessed := True, currentPollBeingProcessed := Some 0\<rparr>"
    by (rule Some_Inr_cases) blast
  from first_batch_pollB obtain qB msB outB where
    b: "processMessages ex0 [6] 1
          (pollB, ms0\<lparr>pollBeingProcessed := True, currentPollBeingProcessed := Some 0\<rparr>)
        = Some (Inr (qB, msB, outB))"
    and b': "numBatchesProcessed qB = 1
     \<and> msB = ms0\<lparr>pollBeingProcessed := False, currentPollBeingProcessed := Some 1\<rparr>"
    by (rule Some_Inr_cases) blast
  have ids: "pollId pollB = 1" "pollId poll3 = 0" "numBatchesProcessed pollB = 0"
    by (simp_all add: pollB_def poll3_def instance_defs)
  show ?thesis
    apply (rule exI[of _ qA], rule exI[of _ msA], rule exI[of _ outA],
           rule exI[of _ qB], rule exI[of _ msB], rule exI[of _ outB])
    using a a' b b' ids by simp
qed

subsection \<open>The tally\<close>

lemma tallyOptions_Inr:
  "tallyOptions b k j p = Inr q \<Longrightarrow>
     (\<exists>tr pv t. q = p\<lparr>tallyResult := tr, perVOSpentVoiceCredits := pv,
                       totalSpentVoiceCredits := t\<rparr>)
   \<and> length (tallyResult q) = length (tallyResult p)
   \<and> length (perVOSpentVoiceCredits q) = length (perVOSpentVoiceCredits p)
   \<and> (\<forall>i < length (tallyResult p).
         tallyResult q ! i = tallyResult p ! i + (if j \<le> i \<and> i < k then votes b ! i else 0))
   \<and> (\<forall>i < length (perVOSpentVoiceCredits p).
         perVOSpentVoiceCredits q ! i
           = perVOSpentVoiceCredits p ! i + (if j \<le> i \<and> i < k then (votes b ! i)\<^sup>2 else 0))
   \<and> totalSpentVoiceCredits q = totalSpentVoiceCredits p + (\<Sum>i = j ..< k. (votes b ! i)\<^sup>2)"
proof (induction b k j p arbitrary: q rule: tallyOptions.induct)
  case (1 b k j p)
  show ?case
  proof (cases "j < k")
    case False
    with "1.prems" have "q = p" by (simp add: tallyOptions.simps)
    moreover have "\<exists>tr pv t. p = p\<lparr>tallyResult := tr, perVOSpentVoiceCredits := pv,
                       totalSpentVoiceCredits := t\<rparr>"
      by (rule exI[of _ "tallyResult p"], rule exI[of _ "perVOSpentVoiceCredits p"],
          rule exI[of _ "totalSpentVoiceCredits p"]) simp
    ultimately show ?thesis using False by simp
  next
    case True
    from "1.prems" True obtain v where v: "nth_opt (votes b) j = Some v"
      by (cases "nth_opt (votes b) j") (simp_all add: tallyOptions.simps[of b k j p])
    from "1.prems" True v obtain t where t: "nth_opt (tallyResult p) j = Some t"
      by (cases "nth_opt (tallyResult p) j") (simp_all add: tallyOptions.simps[of b k j p])
    from "1.prems" True v t obtain c where c: "nth_opt (perVOSpentVoiceCredits p) j = Some c"
      by (cases "nth_opt (perVOSpentVoiceCredits p) j")
         (simp_all add: tallyOptions.simps[of b k j p])
    define p1 where "p1 = p\<lparr>tallyResult := (tallyResult p)[j := t + v],
                  perVOSpentVoiceCredits := (perVOSpentVoiceCredits p)[j := c + v * v],
                  totalSpentVoiceCredits := totalSpentVoiceCredits p + v * v\<rparr>"
    from "1.prems" True v t c have rec: "tallyOptions b k (j + 1) p1 = Inr q"
      by (simp add: tallyOptions.simps[of b k j p] p1_def)
    note ih = "1.IH"[OF True v t c rec[unfolded p1_def], folded p1_def]
    from v have vj: "j < length (votes b)" "votes b ! j = v"
      by (simp_all add: nth_opt_def split: if_splits)
    from t have tj: "j < length (tallyResult p)" "tallyResult p ! j = t"
      by (simp_all add: nth_opt_def split: if_splits)
    from c have cj: "j < length (perVOSpentVoiceCredits p)" "perVOSpentVoiceCredits p ! j = c"
      by (simp_all add: nth_opt_def split: if_splits)
    from ih obtain tr pv tt where q: "q = p1\<lparr>tallyResult := tr, perVOSpentVoiceCredits := pv,
                       totalSpentVoiceCredits := tt\<rparr>" by blast
    have e: "\<exists>tr pv t. q = p\<lparr>tallyResult := tr, perVOSpentVoiceCredits := pv,
                       totalSpentVoiceCredits := t\<rparr>"
      by (rule exI[of _ tr], rule exI[of _ pv], rule exI[of _ tt]) (simp add: q p1_def)
    have l1: "length (tallyResult q) = length (tallyResult p)"
      and l2: "length (perVOSpentVoiceCredits q) = length (perVOSpentVoiceCredits p)"
      using ih by (simp_all add: p1_def)
    have r1: "tallyResult q ! i = tallyResult p ! i + (if j \<le> i \<and> i < k then votes b ! i else 0)"
      if "i < length (tallyResult p)" for i
    proof -
      from ih that have "tallyResult q ! i
          = tallyResult p1 ! i + (if j + 1 \<le> i \<and> i < k then votes b ! i else 0)"
        by (simp add: p1_def)
      also have "tallyResult p1 ! i = tallyResult p ! i + (if i = j then v else 0)"
        using that tj by (auto simp add: p1_def nth_list_update)
      finally show ?thesis using True vj by (cases "i = j") auto
    qed
    have r2: "perVOSpentVoiceCredits q ! i
           = perVOSpentVoiceCredits p ! i + (if j \<le> i \<and> i < k then (votes b ! i)\<^sup>2 else 0)"
      if "i < length (perVOSpentVoiceCredits p)" for i
    proof -
      from ih that have "perVOSpentVoiceCredits q ! i
          = perVOSpentVoiceCredits p1 ! i + (if j + 1 \<le> i \<and> i < k then (votes b ! i)\<^sup>2 else 0)"
        by (simp add: p1_def)
      also have "perVOSpentVoiceCredits p1 ! i
          = perVOSpentVoiceCredits p ! i + (if i = j then v * v else 0)"
        using that cj by (auto simp add: p1_def nth_list_update)
      finally show ?thesis using True vj by (cases "i = j") (auto simp: power2_eq_square)
    qed
    have r3: "totalSpentVoiceCredits q
                = totalSpentVoiceCredits p + (\<Sum>i = j ..< k. (votes b ! i)\<^sup>2)"
    proof -
      from ih have "totalSpentVoiceCredits q
          = totalSpentVoiceCredits p1 + (\<Sum>i = j + 1 ..< k. (votes b ! i)\<^sup>2)" by simp
      moreover have "(\<Sum>i = j ..< k. (votes b ! i)\<^sup>2)
          = (votes b ! j)\<^sup>2 + (\<Sum>i = j + 1 ..< k. (votes b ! i)\<^sup>2)"
        using True by (simp add: sum.atLeast_Suc_lessThan)
      ultimately show ?thesis using vj by (simp add: p1_def power2_eq_square)
    qed
    show ?thesis using e l1 l2 r1 r2 r3 by blast
  qed
qed

lemma tallyOnly_refl: "tallyOnly p p"
  unfolding tallyOnly_def
  by (rule exI[of _ "tallyResult p"], rule exI[of _ "perVOSpentVoiceCredits p"],
          rule exI[of _ "totalSpentVoiceCredits p"]) simp

lemma tallyOnly_trans: "tallyOnly p q \<Longrightarrow> tallyOnly q r \<Longrightarrow> tallyOnly p r"
  unfolding tallyOnly_def by (elim exE) (simp, blast)

lemma tallyOnly_fields:
  assumes "tallyOnly p q"
  shows "ballots q = ballots p" "p_maxValues q = p_maxValues p" "p_batchSizes q = p_batchSizes p"
    "numBatchesTallied q = numBatchesTallied p" "stateTree q = stateTree p"
    "ballotTree q = ballotTree p"
  using assms unfolding tallyOnly_def by auto

lemma tallyBallots_Inr:
  "tallyBallots i stop s = Inr s' \<Longrightarrow>
     tallyOnly (fst s) (fst s')
   \<and> length (tallyResult (fst s')) = length (tallyResult (fst s))
   \<and> length (perVOSpentVoiceCredits (fst s')) = length (perVOSpentVoiceCredits (fst s))
   \<and> (\<forall>j < length (tallyResult (fst s)).
         tallyResult (fst s') ! j = tallyResult (fst s) ! j
           + (if j < maxVoteOptions (p_maxValues (fst s))
              then (\<Sum>x = i ..< min stop (length (ballots (fst s))).
                      votes (ballots (fst s) ! x) ! j)
              else 0))
   \<and> (\<forall>j < length (perVOSpentVoiceCredits (fst s)).
         perVOSpentVoiceCredits (fst s') ! j = perVOSpentVoiceCredits (fst s) ! j
           + (if j < maxVoteOptions (p_maxValues (fst s))
              then (\<Sum>x = i ..< min stop (length (ballots (fst s))).
                      (votes (ballots (fst s) ! x) ! j)\<^sup>2)
              else 0))
   \<and> totalSpentVoiceCredits (fst s') = totalSpentVoiceCredits (fst s)
         + (\<Sum>x = i ..< min stop (length (ballots (fst s))).
              \<Sum>j = 0 ..< maxVoteOptions (p_maxValues (fst s)).
                (votes (ballots (fst s) ! x) ! j)\<^sup>2)
   \<and> snd s' = snd s @ map (\<lambda>x. ballots (fst s) ! x) [i ..< min stop (length (ballots (fst s)))]"
proof (induction i stop s arbitrary: s' rule: tallyBallots.induct)
  case (1 i stop s)
  let ?p = "fst s"
  let ?e = "min stop (length (ballots ?p))"
  let ?k = "maxVoteOptions (p_maxValues ?p)"
  show ?case
  proof (cases "i < stop \<and> i < length (ballots ?p)")
    case False
    with "1.prems" have s': "s' = s"
      by (auto simp: tallyBallots.simps[of i stop s] not_less split: if_splits)
    from False have "?e \<le> i" by auto
    then have emp: "{i ..< ?e} = {}" "[i ..< ?e] = []" by simp_all
    show ?thesis unfolding s' emp by (simp add: tallyOnly_refl)
  next
    case True
    then have e: "i < ?e" by simp
    from "1.prems" True obtain p1 where
      o: "tallyOptions (ballots ?p ! i) ?k 0 ?p = Inr p1"
      and rec: "tallyBallots (i + 1) stop (p1, snd s @ [ballots ?p ! i]) = Inr s'"
      by (cases "tallyOptions (ballots ?p ! i) ?k 0 ?p")
         (auto simp: tallyBallots.simps[of i stop s])
    have c1: "i < stop" and c2: "\<not> length (ballots ?p) \<le> i" using True by simp_all
    note ih = "1.IH"[OF c1 c2 o rec, simplified]
    note oo = tallyOptions_Inr[OF o]
    from oo have t1: "tallyOnly ?p p1" by (simp add: tallyOnly_def)
    note f = tallyOnly_fields[OF t1]
    have split_sum: "(\<Sum>x = i ..< ?e. g x) = g i + (\<Sum>x = i + 1 ..< ?e. g x)" for g :: "nat \<Rightarrow> int"
      using e by (simp add: sum.atLeast_Suc_lessThan)
    have split_list: "[i ..< ?e] = i # [i + 1 ..< ?e]" using e by (simp add: upt_conv_Cons)
    have a: "tallyOnly ?p (fst s')" using t1 ih by (blast intro: tallyOnly_trans)
    have l1: "length (tallyResult (fst s')) = length (tallyResult ?p)"
      and l2: "length (perVOSpentVoiceCredits (fst s')) = length (perVOSpentVoiceCredits ?p)"
      using ih oo by simp_all
    have r1: "tallyResult (fst s') ! j = tallyResult ?p ! j
           + (if j < ?k then (\<Sum>x = i ..< ?e. votes (ballots ?p ! x) ! j) else 0)"
      if "j < length (tallyResult ?p)" for j
    proof -
      from that oo have "j < length (tallyResult p1)" by simp
      with ih have "tallyResult (fst s') ! j = tallyResult p1 ! j
           + (if j < ?k then (\<Sum>x = i + 1 ..< ?e. votes (ballots ?p ! x) ! j) else 0)"
        by (simp add: f)
      moreover from oo that have "tallyResult p1 ! j = tallyResult ?p ! j
           + (if j < ?k then votes (ballots ?p ! i) ! j else 0)" by simp
      ultimately show ?thesis by (simp add: split_sum)
    qed
    have r2: "perVOSpentVoiceCredits (fst s') ! j = perVOSpentVoiceCredits ?p ! j
           + (if j < ?k then (\<Sum>x = i ..< ?e. (votes (ballots ?p ! x) ! j)\<^sup>2) else 0)"
      if "j < length (perVOSpentVoiceCredits ?p)" for j
    proof -
      from that oo have "j < length (perVOSpentVoiceCredits p1)" by simp
      with ih have "perVOSpentVoiceCredits (fst s') ! j = perVOSpentVoiceCredits p1 ! j
           + (if j < ?k then (\<Sum>x = i + 1 ..< ?e. (votes (ballots ?p ! x) ! j)\<^sup>2) else 0)"
        by (simp add: f)
      moreover from oo that have "perVOSpentVoiceCredits p1 ! j = perVOSpentVoiceCredits ?p ! j
           + (if j < ?k then (votes (ballots ?p ! i) ! j)\<^sup>2 else 0)" by simp
      ultimately show ?thesis by (simp add: split_sum)
    qed
    have r3: "totalSpentVoiceCredits (fst s') = totalSpentVoiceCredits ?p
         + (\<Sum>x = i ..< ?e. \<Sum>j = 0 ..< ?k. (votes (ballots ?p ! x) ! j)\<^sup>2)"
    proof -
      from ih have "totalSpentVoiceCredits (fst s') = totalSpentVoiceCredits p1
         + (\<Sum>x = i + 1 ..< ?e. \<Sum>j = 0 ..< ?k. (votes (ballots ?p ! x) ! j)\<^sup>2)"
        by (simp add: f)
      moreover from oo have "totalSpentVoiceCredits p1 = totalSpentVoiceCredits ?p
         + (\<Sum>j = 0 ..< ?k. (votes (ballots ?p ! i) ! j)\<^sup>2)" by simp
      ultimately show ?thesis by (simp add: split_sum)
    qed
    have r4: "snd s' = snd s @ map (\<lambda>x. ballots ?p ! x) [i ..< ?e]"
      using ih by (simp add: f split_list)
    show ?thesis using a l1 l2 r1 r2 r3 r4 by blast
  qed
qed

lemma tallyVotes_Inr:
  assumes "tallyVotes ex salts p = Inr (q, out)"
  defines "bs \<equiv> tallyBatchSize (p_batchSizes p)"
  defines "start \<equiv> numBatchesTallied p * bs"
  defines "stop \<equiv> min (start + bs) (length (ballots p))"
  defines "k \<equiv> maxVoteOptions (p_maxValues p)"
  shows "hasUntalliedBallots p"
    and "ballots q = ballots p" and "p_maxValues q = p_maxValues p"
    and "p_batchSizes q = p_batchSizes p"
    and "numBatchesTallied q = numBatchesTallied p + 1"
    and "length (tallyResult q) = length (tallyResult p)"
    and "length (perVOSpentVoiceCredits q) = length (perVOSpentVoiceCredits p)"
    and "\<And>j. j < length (tallyResult p) \<Longrightarrow>
           tallyResult q ! j = tallyResult p ! j
             + (if j < k then (\<Sum>x = start ..< stop. votes (ballots p ! x) ! j) else 0)"
    and "\<And>j. j < length (perVOSpentVoiceCredits p) \<Longrightarrow>
           perVOSpentVoiceCredits q ! j = perVOSpentVoiceCredits p ! j
             + (if j < k then (\<Sum>x = start ..< stop. (votes (ballots p ! x) ! j)\<^sup>2) else 0)"
    and "totalSpentVoiceCredits q = totalSpentVoiceCredits p
           + (\<Sum>x = start ..< stop. \<Sum>j = 0 ..< k. (votes (ballots p ! x) ! j)\<^sup>2)"
proof -
  from assms(1) show h: "hasUntalliedBallots p"
    by (simp add: tallyVotes_def Let_def split: if_splits)
  from assms(1) h obtain s' where
    tb: "tallyBallots start (start + bs) (p, []) = Inr s'"
    by (cases "tallyBallots start (start + bs) (p, [])")
       (auto simp: tallyVotes_def Let_def bs_def start_def split: if_splits)
  obtain p1 bl where s': "s' = (p1, bl)" by (cases s')
  from assms(1) h tb s' have
    "\<exists>a b c n. q = p1\<lparr>resultRootSalts := a, preVOSpentVoiceCreditsRootSalts := b,
                        spentVoiceCreditSubtotalSalts := c, numBatchesTallied := n\<rparr>"
    and n: "numBatchesTallied q = numBatchesTallied p1 + 1"
    by (auto simp: tallyVotes_def Let_def bs_def start_def orThrow_eq_Inr_iff split: if_splits)
  then obtain a b c n' where q: "q = p1\<lparr>resultRootSalts := a, preVOSpentVoiceCreditsRootSalts := b,
                        spentVoiceCreditSubtotalSalts := c, numBatchesTallied := n'\<rparr>" by blast
  note t = tallyBallots_Inr[OF tb, unfolded s' fst_conv snd_conv]
  from t have only: "tallyOnly p p1" by simp
  note f = tallyOnly_fields[OF only]
  show "ballots q = ballots p" "p_maxValues q = p_maxValues p" "p_batchSizes q = p_batchSizes p"
    by (simp_all add: q f)
  show "numBatchesTallied q = numBatchesTallied p + 1" using n f by simp
  show "length (tallyResult q) = length (tallyResult p)"
    "length (perVOSpentVoiceCredits q) = length (perVOSpentVoiceCredits p)"
    using t by (simp_all add: q)
  show "tallyResult q ! j = tallyResult p ! j
             + (if j < k then (\<Sum>x = start ..< stop. votes (ballots p ! x) ! j) else 0)"
    if "j < length (tallyResult p)" for j
    using t that by (simp add: q stop_def k_def)
  show "perVOSpentVoiceCredits q ! j = perVOSpentVoiceCredits p ! j
             + (if j < k then (\<Sum>x = start ..< stop. (votes (ballots p ! x) ! j)\<^sup>2) else 0)"
    if "j < length (perVOSpentVoiceCredits p)" for j
    using t that by (simp add: q stop_def k_def)
  show "totalSpentVoiceCredits q = totalSpentVoiceCredits p
           + (\<Sum>x = start ..< stop. \<Sum>j = 0 ..< k. (votes (ballots p ! x) ! j)\<^sup>2)"
    using t by (simp add: q stop_def k_def)
qed

lemma tallyInv_fresh:
  assumes "tallyResult p = replicate (maxVoteOptions (p_maxValues p)) 0"
    "perVOSpentVoiceCredits p = replicate (maxVoteOptions (p_maxValues p)) 0"
    "totalSpentVoiceCredits p = 0" "numBatchesTallied p = 0"
  shows "tallyInv p"
  using assms by (simp add: tallyInv_def)

lemma tallyVotes_inv:
  assumes tv: "tallyVotes ex salts p = Inr (q, out)" and inv: "tallyInv p"
  shows "tallyInv q"
proof -
  let ?bs = "tallyBatchSize (p_batchSizes p)"
  let ?start = "numBatchesTallied p * ?bs"
  let ?stop = "min (?start + ?bs) (length (ballots p))"
  let ?k = "maxVoteOptions (p_maxValues p)"
  note t = tallyVotes_Inr[OF tv]
  from t(1) have lt: "?start < length (ballots p)" by (simp add: hasUntalliedBallots_def)
  then have n0: "min ?start (length (ballots p)) = ?start" by simp
  have n1: "min (numBatchesTallied q * tallyBatchSize (p_batchSizes q)) (length (ballots q)) = ?stop"
    by (simp add: t(2,4,5) add.commute)
  have le: "?start \<le> ?stop" using lt by simp
  have cat: "(\<Sum>x = 0 ..< ?start. g x) + (\<Sum>x = ?start ..< ?stop. g x) = (\<Sum>x = 0 ..< ?stop. g x)"
    for g :: "nat \<Rightarrow> int"
    using le by (simp add: sum.atLeastLessThan_concat)
  from inv have i: "length (tallyResult p) = ?k" "length (perVOSpentVoiceCredits p) = ?k"
    "\<And>j. j < ?k \<Longrightarrow> tallyResult p ! j = (\<Sum>x = 0 ..< ?start. votes (ballots p ! x) ! j)"
    "\<And>j. j < ?k \<Longrightarrow> perVOSpentVoiceCredits p ! j
        = (\<Sum>x = 0 ..< ?start. (votes (ballots p ! x) ! j)\<^sup>2)"
    "totalSpentVoiceCredits p
           = (\<Sum>x = 0 ..< ?start. \<Sum>j = 0 ..< ?k. (votes (ballots p ! x) ! j)\<^sup>2)"
    unfolding tallyInv_def Let_def n0 by blast+
  have a: "tallyResult q ! j = (\<Sum>x = 0 ..< ?stop. votes (ballots p ! x) ! j)" if "j < ?k" for j
    using t(8)[of j] i(1) i(3)[OF that] that by (simp add: cat)
  have b: "perVOSpentVoiceCredits q ! j = (\<Sum>x = 0 ..< ?stop. (votes (ballots p ! x) ! j)\<^sup>2)"
    if "j < ?k" for j
    using t(9)[of j] i(2) i(4)[OF that] that by (simp add: cat)
  have c: "totalSpentVoiceCredits q
           = (\<Sum>x = 0 ..< ?stop. \<Sum>j = 0 ..< ?k. (votes (ballots p ! x) ! j)\<^sup>2)"
    using t(10) i(5) by (simp add: cat)
  show ?thesis
    unfolding tallyInv_def Let_def n1
    using a b c i(1,2) by (simp add: t(2,3,6,7))
qed

lemma tallyRun_inv:
  "tallyRun ex saltss p = Inr q \<Longrightarrow> tallyInv p \<Longrightarrow> tallyInv q \<and> ballots q = ballots p
     \<and> p_maxValues q = p_maxValues p"
proof (induction saltss arbitrary: p)
  case Nil
  then show ?case by simp
next
  case (Cons salts rest)
  from Cons.prems(1) obtain p1 out where
    tv: "tallyVotes ex salts p = Inr (p1, out)" and r: "tallyRun ex rest p1 = Inr q"
    by (auto split: sum.splits)
  from tallyVotes_inv[OF tv Cons.prems(2)] Cons.IH[OF r] tallyVotes_Inr(2,3)[OF tv]
  show ?case by simp
qed

lemma tally_complete:
  assumes inv: "tallyInv q" and fin: "\<not> hasUntalliedBallots q"
    and wf: "\<forall>b \<in> set (ballots q). length (votes b) = maxVoteOptions (p_maxValues q)"
  shows "(\<Sum>b\<leftarrow>ballots q. sum_list (votes b)) = sum_list (tallyResult q)"
    and "sum_list (perVOSpentVoiceCredits q) = totalSpentVoiceCredits q"
proof -
  let ?k = "maxVoteOptions (p_maxValues q)"
  let ?n = "length (ballots q)"
  from fin have n: "min (numBatchesTallied q * tallyBatchSize (p_batchSizes q)) ?n = ?n"
    by (simp add: hasUntalliedBallots_def)
  from inv have i: "length (tallyResult q) = ?k" "length (perVOSpentVoiceCredits q) = ?k"
    "\<And>j. j < ?k \<Longrightarrow> tallyResult q ! j = (\<Sum>x = 0 ..< ?n. votes (ballots q ! x) ! j)"
    "\<And>j. j < ?k \<Longrightarrow> perVOSpentVoiceCredits q ! j
        = (\<Sum>x = 0 ..< ?n. (votes (ballots q ! x) ! j)\<^sup>2)"
    "totalSpentVoiceCredits q
           = (\<Sum>x = 0 ..< ?n. \<Sum>j = 0 ..< ?k. (votes (ballots q ! x) ! j)\<^sup>2)"
    unfolding tallyInv_def Let_def n by blast+
  have "sum_list (tallyResult q) = (\<Sum>j = 0 ..< ?k. tallyResult q ! j)"
    by (simp add: sum_list_sum_nth i(1))
  also have "\<dots> = (\<Sum>j = 0 ..< ?k. \<Sum>x = 0 ..< ?n. votes (ballots q ! x) ! j)"
    by (rule sum.cong) (simp_all add: i(3))
  also have "\<dots> = (\<Sum>x = 0 ..< ?n. \<Sum>j = 0 ..< ?k. votes (ballots q ! x) ! j)"
    by (rule sum.swap)
  also have "\<dots> = (\<Sum>x = 0 ..< ?n. sum_list (votes (ballots q ! x)))"
  proof (rule sum.cong)
    fix x assume "x \<in> {0 ..< ?n}"
    then have "ballots q ! x \<in> set (ballots q)" by simp
    with wf have "length (votes (ballots q ! x)) = ?k" by blast
    then show "(\<Sum>j = 0 ..< ?k. votes (ballots q ! x) ! j) = sum_list (votes (ballots q ! x))"
      by (simp add: sum_list_sum_nth)
  qed simp
  also have "\<dots> = (\<Sum>b\<leftarrow>ballots q. sum_list (votes b))"
    by (simp add: sum_list_sum_nth[of "map (\<lambda>b. sum_list (votes b)) (ballots q)"])
  finally show "(\<Sum>b\<leftarrow>ballots q. sum_list (votes b)) = sum_list (tallyResult q)" by simp
  have "sum_list (perVOSpentVoiceCredits q) = (\<Sum>j = 0 ..< ?k. perVOSpentVoiceCredits q ! j)"
    by (simp add: sum_list_sum_nth i(2))
  also have "\<dots> = (\<Sum>j = 0 ..< ?k. \<Sum>x = 0 ..< ?n. (votes (ballots q ! x) ! j)\<^sup>2)"
    by (rule sum.cong) (simp_all add: i(4))
  also have "\<dots> = (\<Sum>x = 0 ..< ?n. \<Sum>j = 0 ..< ?k. (votes (ballots q ! x) ! j)\<^sup>2)"
    by (rule sum.swap)
  finally show "sum_list (perVOSpentVoiceCredits q) = totalSpentVoiceCredits q"
    by (simp add: i(5))
qed

lemma process_poll2:
  "case processMessages ex0 [5] 0 (poll2, ms0) of
     Some (Inr (q, ms1, out)) \<Rightarrow> q = poll5 \<and> \<not> pollBeingProcessed ms1
   | _ \<Rightarrow> False"
  by (simp add: batch_defs poll5_def instance_defs processBatchLoop_runSlots
        fillBallots.simps padTree.simps padLast.simps numeral_3_eq_3
        one_enat_def numeral_eq_enat plus_enat_simps zero_enat_def)

text \<open>C6. A call of \<open>tallyVotes\<close> that returns has added, for every ballot \<open>x\<close> of its
  batch (from \<open>numBatchesTallied * tallyBatchSize\<close> up to that plus \<open>tallyBatchSize\<close>, or
  to the end of the ballots) and every vote option \<open>j\<close>, the vote \<open>v\<close> to
  \<open>tallyResult[j]\<close> and \<open>v\<^sup>2\<close> to \<open>perVOSpentVoiceCredits[j]\<close> and to
  \<open>totalSpentVoiceCredits\<close>. Hence, starting from the tally of a new poll whose ballots
  have a vote for each option, once a run of calls has left no untallied ballots the sum
  of all votes of all ballots is the sum of \<open>tallyResult\<close>, and the sum of
  \<open>perVOSpentVoiceCredits\<close> is \<open>totalSpentVoiceCredits\<close>.\<close>

theorem tally_law:
  "(\<forall>salts p q out. tallyVotes ex salts p = Inr (q, out) \<longrightarrow>
      ballots q = ballots p \<and> numBatchesTallied q = numBatchesTallied p + 1
    \<and> (\<forall>j < maxVoteOptions (p_maxValues p).
          j < length (tallyResult p) \<longrightarrow>
          tallyResult q ! j = tallyResult p ! j
            + (\<Sum>x = numBatchesTallied p * tallyBatchSize (p_batchSizes p)
                 ..< min (numBatchesTallied p * tallyBatchSize (p_batchSizes p)
                            + tallyBatchSize (p_batchSizes p)) (length (ballots p)).
                 votes (ballots p ! x) ! j))
    \<and> (\<forall>j < maxVoteOptions (p_maxValues p).
          j < length (perVOSpentVoiceCredits p) \<longrightarrow>
          perVOSpentVoiceCredits q ! j = perVOSpentVoiceCredits p ! j
            + (\<Sum>x = numBatchesTallied p * tallyBatchSize (p_batchSizes p)
                 ..< min (numBatchesTallied p * tallyBatchSize (p_batchSizes p)
                            + tallyBatchSize (p_batchSizes p)) (length (ballots p)).
                 (votes (ballots p ! x) ! j)\<^sup>2))
    \<and> totalSpentVoiceCredits q = totalSpentVoiceCredits p
          + (\<Sum>x = numBatchesTallied p * tallyBatchSize (p_batchSizes p)
               ..< min (numBatchesTallied p * tallyBatchSize (p_batchSizes p)
                          + tallyBatchSize (p_batchSizes p)) (length (ballots p)).
               \<Sum>j = 0 ..< maxVoteOptions (p_maxValues p). (votes (ballots p ! x) ! j)\<^sup>2))
   \<and> (\<forall>saltss p q.
        tallyResult p = replicate (maxVoteOptions (p_maxValues p)) 0
      \<and> perVOSpentVoiceCredits p = replicate (maxVoteOptions (p_maxValues p)) 0
      \<and> totalSpentVoiceCredits p = 0 \<and> numBatchesTallied p = 0
      \<and> (\<forall>b \<in> set (ballots p). length (votes b) = maxVoteOptions (p_maxValues p))
      \<and> tallyRun ex saltss p = Inr q \<and> \<not> hasUntalliedBallots q
      \<longrightarrow> (\<Sum>b\<leftarrow>ballots q. sum_list (votes b)) = sum_list (tallyResult q)
        \<and> sum_list (perVOSpentVoiceCredits q) = totalSpentVoiceCredits q)"
proof (intro conjI allI impI)
  fix salts p q out
  assume tv: "tallyVotes ex salts p = Inr (q, out)"
  note t = tallyVotes_Inr[OF tv]
  show "ballots q = ballots p" by (rule t(2))
  show "numBatchesTallied q = numBatchesTallied p + 1" by (rule t(5))
  show "totalSpentVoiceCredits q = totalSpentVoiceCredits p
          + (\<Sum>x = numBatchesTallied p * tallyBatchSize (p_batchSizes p)
               ..< min (numBatchesTallied p * tallyBatchSize (p_batchSizes p)
                          + tallyBatchSize (p_batchSizes p)) (length (ballots p)).
               \<Sum>j = 0 ..< maxVoteOptions (p_maxValues p). (votes (ballots p ! x) ! j)\<^sup>2)"
    by (rule t(10))
  fix j assume j: "j < maxVoteOptions (p_maxValues p)"
  {
    assume "j < length (tallyResult p)"
    from t(8)[OF this] j
    show "tallyResult q ! j = tallyResult p ! j
            + (\<Sum>x = numBatchesTallied p * tallyBatchSize (p_batchSizes p)
                 ..< min (numBatchesTallied p * tallyBatchSize (p_batchSizes p)
                            + tallyBatchSize (p_batchSizes p)) (length (ballots p)).
                 votes (ballots p ! x) ! j)" by simp
  }
  {
    assume "j < length (perVOSpentVoiceCredits p)"
    from t(9)[OF this] j
    show "perVOSpentVoiceCredits q ! j = perVOSpentVoiceCredits p ! j
            + (\<Sum>x = numBatchesTallied p * tallyBatchSize (p_batchSizes p)
                 ..< min (numBatchesTallied p * tallyBatchSize (p_batchSizes p)
                            + tallyBatchSize (p_batchSizes p)) (length (ballots p)).
                 (votes (ballots p ! x) ! j)\<^sup>2)" by simp
  }
next
  fix saltss p q
  assume a: "tallyResult p = replicate (maxVoteOptions (p_maxValues p)) 0
      \<and> perVOSpentVoiceCredits p = replicate (maxVoteOptions (p_maxValues p)) 0
      \<and> totalSpentVoiceCredits p = 0 \<and> numBatchesTallied p = 0
      \<and> (\<forall>b \<in> set (ballots p). length (votes b) = maxVoteOptions (p_maxValues p))
      \<and> tallyRun ex saltss p = Inr q \<and> \<not> hasUntalliedBallots q"
  then have "tallyInv p" by (simp add: tallyInv_fresh)
  with a tallyRun_inv[of ex saltss p q] have inv: "tallyInv q" and b: "ballots q = ballots p"
    and m: "p_maxValues q = p_maxValues p" by simp_all
  from a b m have wf: "\<forall>b \<in> set (ballots q). length (votes b) = maxVoteOptions (p_maxValues q)"
    by simp
  from a have fin: "\<not> hasUntalliedBallots q" by simp
  show "(\<Sum>b\<leftarrow>ballots q. sum_list (votes b)) = sum_list (tallyResult q)"
    by (rule tally_complete(1)[OF inv fin wf])
  show "sum_list (perVOSpentVoiceCredits q) = totalSpentVoiceCredits q"
    by (rule tally_complete(2)[OF inv fin wf])
qed

lemmas tally_defs = tallyVotes_def hasUntalliedBallots_def votesReadable_def
  tallyBallots.simps tallyOptions.simps padTo.simps nth_opt_def orThrow.simps Let_def

theorem tally_law_witness:
  "\<exists>q. tallyRun ex0 [(1, 2, 3)] poll5 = Inr q \<and> \<not> hasUntalliedBallots q
       \<and> tallyResult q = [0, 0, 5]
       \<and> (\<Sum>b\<leftarrow>ballots q. sum_list (votes b)) = 5
       \<and> perVOSpentVoiceCredits q = [0, 0, 25]
       \<and> totalSpentVoiceCredits q = 25"
proof -
  define q where "q = (case tallyRun ex0 [(1, 2, 3)] poll5 of Inr q \<Rightarrow> q | Inl e \<Rightarrow> poll5)"
  have r: "tallyRun ex0 [(1, 2, 3)] poll5 = Inr q"
    unfolding q_def
    by (simp add: tally_defs poll5_def instance_defs numeral_3_eq_3)
  have v: "tallyResult q = [0, 0, 5]" "perVOSpentVoiceCredits q = [0, 0, 25]"
    "\<not> hasUntalliedBallots q"
    unfolding q_def
    by (simp_all add: tally_defs poll5_def instance_defs numeral_3_eq_3)
  have f: "tallyResult poll5 = replicate (maxVoteOptions (p_maxValues poll5)) 0
      \<and> perVOSpentVoiceCredits poll5 = replicate (maxVoteOptions (p_maxValues poll5)) 0
      \<and> totalSpentVoiceCredits poll5 = 0 \<and> numBatchesTallied poll5 = 0
      \<and> (\<forall>b \<in> set (ballots poll5). length (votes b) = maxVoteOptions (p_maxValues poll5))"
    by (simp add: poll5_def instance_defs)
  from tally_law[of ex0] f r v(3)
  have "(\<Sum>b\<leftarrow>ballots q. sum_list (votes b)) = sum_list (tallyResult q)
        \<and> sum_list (perVOSpentVoiceCredits q) = totalSpentVoiceCredits q"
    by blast
  with r v show ?thesis by simp
qed

subsection \<open>The subsidy\<close>

lemma dotProduct_eval:
  "k \<le> length (votes r) \<Longrightarrow> k \<le> length (votes c) \<Longrightarrow>
   dotProduct r c k q acc = Inr (acc + (\<Sum>i = q ..< k. votes r ! i * votes c ! i))"
proof (induction r c k q acc rule: dotProduct.induct)
  case (1 r c k q acc)
  show ?case
  proof (cases "q < k")
    case False
    then show ?thesis by (simp add: dotProduct.simps[of r c k q acc])
  next
    case True
    with "1.prems" have v: "nth_opt (votes r) q = Some (votes r ! q)"
      "nth_opt (votes c) q = Some (votes c ! q)" by (simp_all add: nth_opt_def)
    have s: "(\<Sum>i = q ..< k. votes r ! i * votes c ! i)
        = votes r ! q * votes c ! q + (\<Sum>i = q + 1 ..< k. votes r ! i * votes c ! i)"
      using True by (simp add: sum.atLeast_Suc_lessThan)
    from "1.IH"[OF True v "1.prems"] True v show ?thesis
      by (simp add: dotProduct.simps[of r c k q acc] s)
  qed
qed

lemma bigintDiv_nonneg: "0 \<le> a \<Longrightarrow> 0 < b \<Longrightarrow> bigintDiv a b = a div b"
  by (cases "a = 0") (simp_all add: bigintDiv_def sgn_if)

lemma ballotAt_ready:
  assumes "subsidyReady p"
  shows "maxVoteOptions (p_maxValues p) \<le> length (votes (ballotAt p x))"
    and "\<forall>v \<in> set (votes (ballotAt p x)). 0 \<le> v"
  using assms by (auto simp: subsidyReady_def ballotAt_def genBlankBallot_def)

lemma coefficientCalculation_eval:
  assumes "subsidyReady p"
  shows "coefficientCalculation p (ballotAt p x) (ballotAt p y)
           = Inr (specCoefficient p (ballotAt p x) (ballotAt p y))"
proof -
  let ?k = "maxVoteOptions (p_maxValues p)"
  let ?r = "ballotAt p x" and ?c = "ballotAt p y"
  note rx = ballotAt_ready[OF assms, of x] and ry = ballotAt_ready[OF assms, of y]
  have d: "dotProduct ?r ?c ?k 0 0 = Inr (\<Sum>i = 0 ..< ?k. votes ?r ! i * votes ?c ! i)"
    using dotProduct_eval[OF rx(1) ry(1), of 0 0] by simp
  have "0 \<le> votes ?r ! i * votes ?c ! i" if "i < ?k" for i
  proof -
    from that rx(1) ry(1) have "votes ?r ! i \<in> set (votes ?r)" "votes ?c ! i \<in> set (votes ?c)"
      by simp_all
    with rx(2) ry(2) show ?thesis by simp
  qed
  then have nn: "0 \<le> (\<Sum>i = 0 ..< ?k. votes ?r ! i * votes ?c ! i)"
    by (intro sum_nonneg) simp
  from assms have mm: "0 < MM p" by (simp add: subsidyReady_def)
  from nn mm have pos: "0 < int (MM p) + (\<Sum>i = 0 ..< ?k. votes ?r ! i * votes ?c ! i)" by simp
  show ?thesis
    using pos by (simp add: coefficientCalculation_def d specCoefficient_def bigintDiv_nonneg)
qed

lemma subsidyOptions_eval:
  "k \<le> length (votes r) \<Longrightarrow> k \<le> length (votes c) \<Longrightarrow> k \<le> length sub \<Longrightarrow>
   \<exists>sub'. subsidyOptions r c kij cond k q sub = Inr sub' \<and> length sub' = length sub
     \<and> (\<forall>i < length sub. sub' ! i = sub ! i
           + (if cond \<and> q \<le> i \<and> i < k then 2 * kij * votes r ! i * votes c ! i else 0))"
proof (induction r c kij cond k q sub rule: subsidyOptions.induct)
  case (1 r c kij cond k q sub)
  show ?case
  proof (cases "q < k")
    case False
    then show ?thesis by (simp add: subsidyOptions.simps[of r c kij cond k q sub])
  next
    case True
    with "1.prems" have v: "nth_opt (votes r) q = Some (votes r ! q)"
      "nth_opt (votes c) q = Some (votes c ! q)" "nth_opt sub q = Some (sub ! q)"
      by (simp_all add: nth_opt_def)
    show ?thesis
    proof (cases cond)
      case c: True
      let ?sub1 = "sub[q := sub ! q + 2 * kij * votes r ! q * votes c ! q]"
      from "1.IH"(1)[OF True v(1,2) c v(3) "1.prems"(1,2)] "1.prems"(3)
      obtain sub' where s: "subsidyOptions r c kij cond k (q + 1) ?sub1 = Inr sub'"
        "length sub' = length sub"
        "\<forall>i < length sub. sub' ! i = ?sub1 ! i
           + (if cond \<and> q + 1 \<le> i \<and> i < k then 2 * kij * votes r ! i * votes c ! i else 0)"
        by auto
      have e: "subsidyOptions r c kij cond k q sub = Inr sub'"
        using True v c s(1) by (subst subsidyOptions.simps) simp
      have "sub' ! i = sub ! i
           + (if cond \<and> q \<le> i \<and> i < k then 2 * kij * votes r ! i * votes c ! i else 0)"
        if "i < length sub" for i
        using s(3) that True c by (cases "i = q") (auto simp: nth_list_update)
      with e s(2) show ?thesis by blast
    next
      case c: False
      from "1.IH"(2)[OF True v(1,2) c "1.prems"]
      obtain sub' where s: "subsidyOptions r c kij cond k (q + 1) sub = Inr sub'"
        "length sub' = length sub"
        "\<forall>i < length sub. sub' ! i = sub ! i
           + (if cond \<and> q + 1 \<le> i \<and> i < k then 2 * kij * votes r ! i * votes c ! i else 0)"
        by auto
      have e: "subsidyOptions r c kij cond k q sub = Inr sub'"
        using True v c s(1) by (subst subsidyOptions.simps) simp
      from s(3) c have "\<forall>i < length sub. sub' ! i = sub ! i
           + (if cond \<and> q \<le> i \<and> i < k then 2 * kij * votes r ! i * votes c ! i else 0)"
        by simp
      with e s(2) show ?thesis by blast
    qed
  qed
qed

lemma subsidyCols_eval:
  "subsidyReady p \<Longrightarrow> maxVoteOptions (p_maxValues p) \<le> length sub \<Longrightarrow>
   \<exists>sub'. subsidyCols p rs cs i j sub = Inr sub' \<and> length sub' = length sub
     \<and> (\<forall>q < length sub. sub' ! q = sub ! q
           + (if q < maxVoteOptions (p_maxValues p)
              then (\<Sum>j' = j ..< subsidyBatchSize (p_batchSizes p). specPairSubsidy p rs cs i j' q)
              else 0))"
proof (induction p rs cs i j sub rule: subsidyCols.induct)
  case (1 p rs cs i j sub)
  let ?bs = "subsidyBatchSize (p_batchSizes p)"
  let ?k = "maxVoteOptions (p_maxValues p)"
  show ?case
  proof (cases "j < ?bs")
    case False
    then show ?thesis by (subst subsidyCols.simps) simp
  next
    case True
    let ?r = "ballotAt p (rs + i)" and ?c = "ballotAt p (cs + j)"
    let ?kij = "specCoefficient p ?r ?c"
    let ?cond = "rs \<noteq> cs \<or> (rs = cs \<and> i < j)"
    note ready = "1.prems"(1)
    have co: "coefficientCalculation p ?r ?c = Inr ?kij"
      by (rule coefficientCalculation_eval[OF ready])
    from subsidyOptions_eval[OF ballotAt_ready(1)[OF ready] ballotAt_ready(1)[OF ready]
        "1.prems"(2), of "rs + i" "cs + j" ?kij ?cond 0]
    obtain sub1 where o: "subsidyOptions ?r ?c ?kij ?cond ?k 0 sub = Inr sub1"
      and l1: "length sub1 = length sub"
      and v1: "\<forall>q < length sub. sub1 ! q = sub ! q
           + (if ?cond \<and> 0 \<le> q \<and> q < ?k then 2 * ?kij * votes ?r ! q * votes ?c ! q else 0)"
      by blast
    have k1: "?k \<le> length sub1" using l1 "1.prems"(2) by simp
    from "1.IH"[OF True refl refl co o ready k1]
    obtain sub' where r: "subsidyCols p rs cs i (j + 1) sub1 = Inr sub'"
      and l2: "length sub' = length sub1"
      and v2: "\<forall>q < length sub1. sub' ! q = sub1 ! q
           + (if q < ?k then (\<Sum>j' = j + 1 ..< ?bs. specPairSubsidy p rs cs i j' q) else 0)"
      by blast
    have e: "subsidyCols p rs cs i j sub = Inr sub'"
      using True co o r by (subst subsidyCols.simps) (simp add: Let_def)
    have s: "(\<Sum>j' = j ..< ?bs. specPairSubsidy p rs cs i j' q)
        = specPairSubsidy p rs cs i j q + (\<Sum>j' = j + 1 ..< ?bs. specPairSubsidy p rs cs i j' q)"
      for q
      using True by (simp add: sum.atLeast_Suc_lessThan)
    have "sub' ! q = sub ! q
           + (if q < ?k then (\<Sum>j' = j ..< ?bs. specPairSubsidy p rs cs i j' q) else 0)"
      if "q < length sub" for q
    proof -
      from that l1 v2 have "sub' ! q = sub1 ! q
           + (if q < ?k then (\<Sum>j' = j + 1 ..< ?bs. specPairSubsidy p rs cs i j' q) else 0)"
        by simp
      moreover from that v1 have "sub1 ! q = sub ! q
           + (if q < ?k then specPairSubsidy p rs cs i j q else 0)"
        by (auto simp: specPairSubsidy_def)
      ultimately show ?thesis by (simp add: s)
    qed
    with e l1 l2 show ?thesis by simp
  qed
qed

lemma subsidyRows_eval:
  "subsidyReady p \<Longrightarrow> maxVoteOptions (p_maxValues p) \<le> length sub \<Longrightarrow>
   \<exists>sub'. subsidyRows p rs cs i sub = Inr sub' \<and> length sub' = length sub
     \<and> (\<forall>q < length sub. sub' ! q = sub ! q
           + (if q < maxVoteOptions (p_maxValues p)
              then (\<Sum>i' = i ..< subsidyBatchSize (p_batchSizes p).
                      \<Sum>j = 0 ..< subsidyBatchSize (p_batchSizes p).
                        specPairSubsidy p rs cs i' j q)
              else 0))"
proof (induction p rs cs i sub rule: subsidyRows.induct)
  case (1 p rs cs i sub)
  let ?bs = "subsidyBatchSize (p_batchSizes p)"
  let ?k = "maxVoteOptions (p_maxValues p)"
  show ?case
  proof (cases "i < ?bs")
    case False
    then show ?thesis by (subst subsidyRows.simps) simp
  next
    case True
    note ready = "1.prems"(1)
    from subsidyCols_eval[OF ready "1.prems"(2), of rs cs i 0]
    obtain sub1 where o: "subsidyCols p rs cs i 0 sub = Inr sub1"
      and l1: "length sub1 = length sub"
      and v1: "\<forall>q < length sub. sub1 ! q = sub ! q
           + (if q < ?k then (\<Sum>j = 0 ..< ?bs. specPairSubsidy p rs cs i j q) else 0)"
      by blast
    have k1: "?k \<le> length sub1" using l1 "1.prems"(2) by simp
    from "1.IH"[OF True o ready k1]
    obtain sub' where r: "subsidyRows p rs cs (i + 1) sub1 = Inr sub'"
      and l2: "length sub' = length sub1"
      and v2: "\<forall>q < length sub1. sub' ! q = sub1 ! q
           + (if q < ?k then (\<Sum>i' = i + 1 ..< ?bs. \<Sum>j = 0 ..< ?bs.
                                specPairSubsidy p rs cs i' j q) else 0)"
      by blast
    have e: "subsidyRows p rs cs i sub = Inr sub'"
      using True o r by (subst subsidyRows.simps) simp
    have s: "(\<Sum>i' = i ..< ?bs. g i') = g i + (\<Sum>i' = i + 1 ..< ?bs. g i')"
      for g :: "nat \<Rightarrow> int"
      using True by (simp add: sum.atLeast_Suc_lessThan)
    have "sub' ! q = sub ! q
           + (if q < ?k then (\<Sum>i' = i ..< ?bs. \<Sum>j = 0 ..< ?bs.
                                specPairSubsidy p rs cs i' j q) else 0)"
      if "q < length sub" for q
      using that l1 v1 v2 by (simp add: s)
    with e l1 l2 show ?thesis by simp
  qed
qed

lemma subsidyCalculation_eval:
  assumes "subsidyReady p"
  shows "\<exists>sub. subsidyCalculation p rs cs =
           Inr (p\<lparr>subsidy := sub\<rparr>,
                map (\<lambda>i. ballotAt p (rs + i)) [0 ..< subsidyBatchSize (p_batchSizes p)],
                map (\<lambda>i. ballotAt p (cs + i)) [0 ..< subsidyBatchSize (p_batchSizes p)])
         \<and> length sub = length (subsidy p)
         \<and> (\<forall>q < maxVoteOptions (p_maxValues p).
               sub ! q = subsidy p ! q + specSubsidyIncrease p rs cs q)"
proof -
  from assms have k: "maxVoteOptions (p_maxValues p) \<le> length (subsidy p)"
    by (simp add: subsidyReady_def)
  from subsidyRows_eval[OF assms k, of rs cs 0]
  obtain sub where r: "subsidyRows p rs cs 0 (subsidy p) = Inr sub"
    and l: "length sub = length (subsidy p)"
    and v: "\<forall>q < length (subsidy p). sub ! q = subsidy p ! q
           + (if q < maxVoteOptions (p_maxValues p)
              then (\<Sum>i' = 0 ..< subsidyBatchSize (p_batchSizes p).
                      \<Sum>j = 0 ..< subsidyBatchSize (p_batchSizes p).
                        specPairSubsidy p rs cs i' j q)
              else 0)"
    by blast
  have "\<forall>q < maxVoteOptions (p_maxValues p).
               sub ! q = subsidy p ! q + specSubsidyIncrease p rs cs q"
    using v k by (simp add: specSubsidyIncrease_def)
  with r l show ?thesis
    by (intro exI[of _ sub]) (simp add: subsidyCalculation_def Let_def)
qed

lemma subsidyPerBatch_Inr:
  assumes "subsidyPerBatch ex newSalt p = Inr (q, out)"
  shows "\<exists>p1 bs1 bs2.
           subsidyCalculation p (rbi p * subsidyBatchSize (p_batchSizes p))
             (cbi p * subsidyBatchSize (p_batchSizes p)) = Inr (p1, bs1, bs2)
         \<and> subsidy q = subsidy p1 \<and> currentSubsidy out = subsidy p
         \<and> ballots1 out = bs1 \<and> ballots2 out = bs2"
proof -
  let ?bs = "subsidyBatchSize (p_batchSizes p)"
  let ?sc = "subsidyCalculation p (rbi p * ?bs) (cbi p * ?bs)"
  from assms obtain st where st: "stateTree p = Some st"
    by (cases "stateTree p") (simp_all add: subsidyPerBatch_def Let_def split: if_splits)
  from assms st obtain bt where bt: "ballotTree p = Some bt"
    by (cases "ballotTree p") (simp_all add: subsidyPerBatch_def Let_def split: if_splits)
  from assms st bt obtain r where r: "?sc = Inr r"
    by (cases ?sc) (simp_all add: subsidyPerBatch_def Let_def split: if_splits)
  obtain p1 bs1 bs2 where r': "r = (p1, bs1, bs2)" by (cases r)
  from assms st bt r r' have "subsidy q = subsidy p1 \<and> currentSubsidy out = subsidy p
         \<and> ballots1 out = bs1 \<and> ballots2 out = bs2"
    by (auto simp: subsidyPerBatch_def Let_def orThrow_eq_Inr_iff increaseSubsidyIndex_def
        split: if_splits)
  with r r' show ?thesis by blast
qed

lemma specPairSubsidy_diagonal:
  "j \<le> i \<Longrightarrow> specPairSubsidy p rs rs i j q = 0"
  by (simp add: specPairSubsidy_def)

text \<open>C9. For a poll as described by \<open>subsidyReady\<close>: the coefficient of two ballots is
  \<open>floor (MM * 10^WW / (MM + sum over the options p of v\<^sub>i[p] * v\<^sub>j[p]))\<close> over the
  integers; \<open>subsidyCalculation\<close> for the row block at \<open>rowStart\<close> and the column block at
  \<open>colStart\<close> returns, with the two blocks of ballots (the empty ballot beyond the
  ballots), and has added to \<open>subsidy[q]\<close>, for every option \<open>q\<close>, the sum over all pairs
  \<open>(i, j)\<close> of the batch with \<open>rowStart \<noteq> colStart\<close> or \<open>i < j\<close> of
  \<open>2 * k\<^sub>i\<^sub>j * v\<^sub>i[q] * v\<^sub>j[q]\<close>. A call of \<open>subsidyPerBatch\<close> on a poll with a batch left,
  its snapshot taken, the salt of the previous batch stored (from the second batch on)
  and the two subroot paths given by the library returns: it has done so for the blocks
  at \<open>rbi * batchSize\<close> and \<open>cbi * batchSize\<close>, stored the new salt, moved to the next pair
  of blocks, and hands out the subsidy as it was with the two blocks of ballots; and every
  call that returns has added these sums. A pair of the diagonal block with \<open>j \<le> i\<close> adds
  nothing.\<close>

theorem subsidy_per_pair:
  assumes ready: "subsidyReady p"
  defines "bs \<equiv> subsidyBatchSize (p_batchSizes p)"
  shows "(\<forall>x y. coefficientCalculation p (ballotAt p x) (ballotAt p y)
              = Inr (int (MM p * 10 ^ WW p)
                     div (int (MM p)
                          + (\<Sum>q = 0 ..< maxVoteOptions (p_maxValues p).
                               votes (ballotAt p x) ! q * votes (ballotAt p y) ! q))))
       \<and> (\<forall>rowStart colStart. \<exists>sub.
             subsidyCalculation p rowStart colStart =
               Inr (p\<lparr>subsidy := sub\<rparr>,
                    map (\<lambda>i. ballotAt p (rowStart + i)) [0 ..< bs],
                    map (\<lambda>i. ballotAt p (colStart + i)) [0 ..< bs])
           \<and> (\<forall>q < maxVoteOptions (p_maxValues p).
                 sub ! q = subsidy p ! q + specSubsidyIncrease p rowStart colStart q))
       \<and> (\<forall>(ex::externals) newSalt st (bt::tree) path1 path2.
             hasUnfinishedSubsidyCalculation p
           \<and> stateTree p = Some st \<and> ballotTree p = Some bt
           \<and> ((rbi p = 0 \<and> cbi p = 0)
              \<or> (\<exists>k s. previousSubsidyIndex p = Some k \<and> subsidySalts p k = Some s))
           \<and> genMerkleSubrootPath ex bt (rbi p * bs) (rbi p * bs + bs) = Some path1
           \<and> genMerkleSubrootPath ex bt (cbi p * bs) (cbi p * bs + bs) = Some path2
           \<longrightarrow> (\<exists>sub.
                 subsidyPerBatch ex newSalt p =
                   Inr (increaseSubsidyIndex
                          (p\<lparr>subsidy := sub,
                             subsidySalts := (subsidySalts p)((rbi p, cbi p) \<mapsto> newSalt)\<rparr>),
                        \<lparr>currentSubsidy = subsidy p,
                         ballots1 = map (\<lambda>i. ballotAt p (rbi p * bs + i)) [0 ..< bs],
                         ballots2 = map (\<lambda>i. ballotAt p (cbi p * bs + i)) [0 ..< bs],
                         ballotPathElements1 = path1,
                         ballotPathElements2 = path2\<rparr>)
               \<and> length sub = length (subsidy p)
               \<and> (\<forall>q < maxVoteOptions (p_maxValues p).
                     sub ! q = subsidy p ! q
                       + specSubsidyIncrease p (rbi p * bs) (cbi p * bs) q)))
       \<and> (\<forall>ex newSalt p1 out. subsidyPerBatch ex newSalt p = Inr (p1, out) \<longrightarrow>
             (\<forall>q < maxVoteOptions (p_maxValues p).
                 subsidy p1 ! q = subsidy p ! q + specSubsidyIncrease p (rbi p * bs) (cbi p * bs) q))
       \<and> (\<forall>rowStart i j q. j \<le> i \<longrightarrow> specPairSubsidy p rowStart rowStart i j q = 0)"
proof (intro conjI allI impI)
  fix x y
  show "coefficientCalculation p (ballotAt p x) (ballotAt p y)
              = Inr (int (MM p * 10 ^ WW p)
                     div (int (MM p)
                          + (\<Sum>q = 0 ..< maxVoteOptions (p_maxValues p).
                               votes (ballotAt p x) ! q * votes (ballotAt p y) ! q)))"
    using coefficientCalculation_eval[OF ready, of x y] by (simp add: specCoefficient_def)
next
  fix rowStart colStart
  from subsidyCalculation_eval[OF ready, of rowStart colStart]
  show "\<exists>sub.
             subsidyCalculation p rowStart colStart =
               Inr (p\<lparr>subsidy := sub\<rparr>,
                    map (\<lambda>i. ballotAt p (rowStart + i)) [0 ..< bs],
                    map (\<lambda>i. ballotAt p (colStart + i)) [0 ..< bs])
           \<and> (\<forall>q < maxVoteOptions (p_maxValues p).
                 sub ! q = subsidy p ! q + specSubsidyIncrease p rowStart colStart q)"
    unfolding bs_def by blast
next
  fix ex :: externals and newSalt :: int and st :: tree and bt :: tree
    and path1 path2 :: pathElements
  assume a: "hasUnfinishedSubsidyCalculation p
           \<and> stateTree p = Some st \<and> ballotTree p = Some bt
           \<and> ((rbi p = 0 \<and> cbi p = 0)
              \<or> (\<exists>k s. previousSubsidyIndex p = Some k \<and> subsidySalts p k = Some s))
           \<and> genMerkleSubrootPath ex bt (rbi p * bs) (rbi p * bs + bs) = Some path1
           \<and> genMerkleSubrootPath ex bt (cbi p * bs) (cbi p * bs + bs) = Some path2"
  then have h: "hasUnfinishedSubsidyCalculation p" and st: "stateTree p = Some st"
    and bt: "ballotTree p = Some bt"
    and sl: "(rbi p = 0 \<and> cbi p = 0)
              \<or> (\<exists>k s. previousSubsidyIndex p = Some k \<and> subsidySalts p k = Some s)"
    and p1: "genMerkleSubrootPath ex bt (rbi p * bs) (rbi p * bs + bs) = Some path1"
    and p2: "genMerkleSubrootPath ex bt (cbi p * bs) (cbi p * bs + bs) = Some path2"
    by blast+
  from subsidyCalculation_eval[OF ready, of "rbi p * bs" "cbi p * bs"]
  obtain sub where
    sc: "subsidyCalculation p (rbi p * bs) (cbi p * bs) =
           Inr (p\<lparr>subsidy := sub\<rparr>,
                map (\<lambda>i. ballotAt p (rbi p * bs + i)) [0 ..< bs],
                map (\<lambda>i. ballotAt p (cbi p * bs + i)) [0 ..< bs])"
    and l: "length sub = length (subsidy p)"
    and v: "\<forall>q < maxVoteOptions (p_maxValues p).
               sub ! q = subsidy p ! q + specSubsidyIncrease p (rbi p * bs) (cbi p * bs) q"
    unfolding bs_def by blast
  have salt: "\<not> ((rbi p \<noteq> 0 \<or> cbi p \<noteq> 0)
         \<and> (case previousSubsidyIndex p of None \<Rightarrow> None | Some k \<Rightarrow> subsidySalts p k) = None)"
    using sl by auto
  have "subsidyPerBatch ex newSalt p =
                   Inr (increaseSubsidyIndex
                          (p\<lparr>subsidy := sub,
                             subsidySalts := (subsidySalts p)((rbi p, cbi p) \<mapsto> newSalt)\<rparr>),
                        \<lparr>currentSubsidy = subsidy p,
                         ballots1 = map (\<lambda>i. ballotAt p (rbi p * bs + i)) [0 ..< bs],
                         ballots2 = map (\<lambda>i. ballotAt p (cbi p * bs + i)) [0 ..< bs],
                         ballotPathElements1 = path1,
                         ballotPathElements2 = path2\<rparr>)"
    unfolding subsidyPerBatch_def Let_def
    using h st bt salt sc p1 p2 unfolding bs_def by simp
  with l v show "\<exists>sub.
                 subsidyPerBatch ex newSalt p =
                   Inr (increaseSubsidyIndex
                          (p\<lparr>subsidy := sub,
                             subsidySalts := (subsidySalts p)((rbi p, cbi p) \<mapsto> newSalt)\<rparr>),
                        \<lparr>currentSubsidy = subsidy p,
                         ballots1 = map (\<lambda>i. ballotAt p (rbi p * bs + i)) [0 ..< bs],
                         ballots2 = map (\<lambda>i. ballotAt p (cbi p * bs + i)) [0 ..< bs],
                         ballotPathElements1 = path1,
                         ballotPathElements2 = path2\<rparr>)
               \<and> length sub = length (subsidy p)
               \<and> (\<forall>q < maxVoteOptions (p_maxValues p).
                     sub ! q = subsidy p ! q
                       + specSubsidyIncrease p (rbi p * bs) (cbi p * bs) q)"
    by blast
next
  fix ex newSalt p1 out q
  assume spb: "subsidyPerBatch ex newSalt p = Inr (p1, out)"
    and q: "q < maxVoteOptions (p_maxValues p)"
  from subsidyPerBatch_Inr[OF spb] obtain p2 bs1 bs2 where
    sc: "subsidyCalculation p (rbi p * bs) (cbi p * bs) = Inr (p2, bs1, bs2)"
    and s: "subsidy p1 = subsidy p2"
    unfolding bs_def by blast
  from subsidyCalculation_eval[OF ready, of "rbi p * bs" "cbi p * bs"] sc q
  have "subsidy p2 ! q = subsidy p ! q + specSubsidyIncrease p (rbi p * bs) (cbi p * bs) q"
    by auto
  with s show "subsidy p1 ! q = subsidy p ! q + specSubsidyIncrease p (rbi p * bs) (cbi p * bs) q"
    by simp
next
  fix rowStart i j q
  assume "j \<le> (i::nat)"
  then show "specPairSubsidy p rowStart rowStart i j q = 0" by (rule specPairSubsidy_diagonal)
qed

lemma sum_upto_2: "(\<Sum>i = 0 ..< (2::nat). f i) = f 0 + (f 1 :: int)"
  by (simp add: numeral_2_eq_2)

lemma sum_upto_3: "(\<Sum>i = 0 ..< (3::nat). f i) = f 0 + f 1 + (f 2 :: int)"
  by (simp add: numeral_3_eq_3 numeral_2_eq_2)

text \<open>The first two batches of \<open>pollS\<close>: the diagonal block of the ballots 0 and 1 adds
  nothing, ballot 0 being empty; the block of the rows 0, 1 and the columns 2, 3 adds
  \<open>2 * 9433 * 1 * 3\<close> for option 0.\<close>

lemmas subsidy_defs = subsidyPerBatch_def hasUnfinishedSubsidyCalculation_def
  subsidyCalculation_def subsidyRows.simps subsidyCols.simps subsidyOptions.simps
  coefficientCalculation_def dotProduct.simps bigintDiv_def ballotAt_def
  increaseSubsidyIndex_def previousSubsidyIndex_def nth_opt_def orThrow.simps Let_def

lemma first_subsidy_batch_pollS:
  "subsidyPerBatch ex0 20 pollS =
     Inr (pollS1,
          \<lparr>currentSubsidy = [0, 0, 0],
           ballots1 = [\<lparr>nonce = 0, votes = [0, 0, 0]\<rparr>, \<lparr>nonce = 1, votes = [1, 2, 0]\<rparr>],
           ballots2 = [\<lparr>nonce = 0, votes = [0, 0, 0]\<rparr>, \<lparr>nonce = 1, votes = [1, 2, 0]\<rparr>],
           ballotPathElements1 = [],
           ballotPathElements2 = []\<rparr>)"
  by (simp add: subsidy_defs pollS1_def pollS_def instance_defs numeral_3_eq_3 numeral_2_eq_2)


lemma list_of_length_3: "length xs = 3 \<Longrightarrow> xs = [xs ! 0, xs ! 1, xs ! 2]"
  by (cases xs; cases "tl xs"; cases "tl (tl xs)"; cases "tl (tl (tl xs))") auto

theorem subsidy_per_pair_witness:
  "subsidyReady pollS
   \<and> coefficientCalculation pollS (ballotAt pollS 1) (ballotAt pollS 2) = Inr 9433
   \<and> (\<exists>sub. subsidyCalculation pollS 0 2 =
              Inr (pollS\<lparr>subsidy := sub\<rparr>,
                   [\<lparr>nonce = 0, votes = [0, 0, 0]\<rparr>, \<lparr>nonce = 1, votes = [1, 2, 0]\<rparr>],
                   [\<lparr>nonce = 1, votes = [3, 0, 5]\<rparr>, \<lparr>nonce = 0, votes = [0, 0, 0]\<rparr>])
            \<and> sub ! 0 = 56598 \<and> sub ! 1 = 0 \<and> sub ! 2 = 0)
   \<and> (\<exists>out1. subsidyPerBatch ex0 20 pollS = Inr (pollS1, out1)
            \<and> currentSubsidy out1 = [0, 0, 0])
   \<and> subsidyReady pollS1 \<and> rbi pollS1 = 0 \<and> cbi pollS1 = 1
   \<and> (\<exists>p2 out2. subsidyPerBatch ex0 21 pollS1 = Inr (p2, out2)
            \<and> subsidy p2 = [56598, 0, 0] \<and> rbi p2 = 1 \<and> cbi p2 = 1
            \<and> subsidySalts p2 (0, 1) = Some 21
            \<and> hasUnfinishedSubsidyCalculation p2
            \<and> currentSubsidy out2 = [0, 0, 0]
            \<and> ballots1 out2
                = [\<lparr>nonce = 0, votes = [0, 0, 0]\<rparr>, \<lparr>nonce = 1, votes = [1, 2, 0]\<rparr>]
            \<and> ballots2 out2
                = [\<lparr>nonce = 1, votes = [3, 0, 5]\<rparr>, \<lparr>nonce = 0, votes = [0, 0, 0]\<rparr>])"
proof -
  have f: "ballots pollS = [\<lparr>nonce = 0, votes = [0, 0, 0]\<rparr>, \<lparr>nonce = 1, votes = [1, 2, 0]\<rparr>,
                  \<lparr>nonce = 1, votes = [3, 0, 5]\<rparr>]"
    "maxVoteOptions (p_maxValues pollS) = 3" "subsidyBatchSize (p_batchSizes pollS) = 2"
    "MM pollS = 50" "WW pollS = 4" "subsidy pollS = [0, 0, 0]"
    by (simp_all add: pollS_def instance_defs numeral_3_eq_3)
  have ready: "subsidyReady pollS"
    by (simp add: subsidyReady_def f)
  note t = subsidy_per_pair[OF ready]
  note t1 = t[THEN conjunct1, rule_format]
    and t2 = t[THEN conjunct2, THEN conjunct1, rule_format]
  from t1[of 1 2] have "coefficientCalculation pollS (ballotAt pollS 1) (ballotAt pollS 2)
              = Inr (int (MM pollS * 10 ^ WW pollS)
                     div (int (MM pollS)
                          + (\<Sum>q = 0 ..< maxVoteOptions (p_maxValues pollS).
                               votes (ballotAt pollS 1) ! q * votes (ballotAt pollS 2) ! q)))" .
  then have c: "coefficientCalculation pollS (ballotAt pollS 1) (ballotAt pollS 2) = Inr 9433"
    by (simp add: f ballotAt_def sum_upto_3)
  have inc: "specSubsidyIncrease pollS 0 2 0 = 56598" "specSubsidyIncrease pollS 0 2 (Suc 0) = 0"
    "specSubsidyIncrease pollS 0 2 2 = 0"
    by (simp_all add: specSubsidyIncrease_def specPairSubsidy_def specCoefficient_def f
        ballotAt_def genBlankBallot_def sum_upto_2 sum_upto_3 numeral_3_eq_3)
  from t2[of 0 2] obtain sub where
    s: "subsidyCalculation pollS 0 2 =
               Inr (pollS\<lparr>subsidy := sub\<rparr>,
                    map (\<lambda>i. ballotAt pollS (0 + i)) [0 ..< subsidyBatchSize (p_batchSizes pollS)],
                    map (\<lambda>i. ballotAt pollS (2 + i)) [0 ..< subsidyBatchSize (p_batchSizes pollS)])"
    and v: "\<forall>q < maxVoteOptions (p_maxValues pollS).
                 sub ! q = subsidy pollS ! q + specSubsidyIncrease pollS 0 2 q"
    by blast
  have u: "[0 ..< 2] = [0, Suc 0]" by (simp add: numeral_2_eq_2)
  have m: "map (\<lambda>i. ballotAt pollS (0 + i)) [0 ..< subsidyBatchSize (p_batchSizes pollS)]
        = [\<lparr>nonce = 0, votes = [0, 0, 0]\<rparr>, \<lparr>nonce = 1, votes = [1, 2, 0]\<rparr>]"
    "map (\<lambda>i. ballotAt pollS (2 + i)) [0 ..< subsidyBatchSize (p_batchSizes pollS)]
        = [\<lparr>nonce = 1, votes = [3, 0, 5]\<rparr>, \<lparr>nonce = 0, votes = [0, 0, 0]\<rparr>]"
    by (simp_all add: f u ballotAt_def genBlankBallot_def numeral_3_eq_3)
  from v have "sub ! 0 = subsidy pollS ! 0 + specSubsidyIncrease pollS 0 2 0"
    "sub ! 1 = subsidy pollS ! 1 + specSubsidyIncrease pollS 0 2 1"
    "sub ! 2 = subsidy pollS ! 2 + specSubsidyIncrease pollS 0 2 2"
    by (simp_all add: f(2))
  then have e: "sub ! 0 = 56598 \<and> sub ! 1 = 0 \<and> sub ! 2 = 0"
    by (simp add: inc f(6))
  note s' = s[unfolded m]
  have part3: "\<exists>sub. subsidyCalculation pollS 0 2 =
              Inr (pollS\<lparr>subsidy := sub\<rparr>,
                   [\<lparr>nonce = 0, votes = [0, 0, 0]\<rparr>, \<lparr>nonce = 1, votes = [1, 2, 0]\<rparr>],
                   [\<lparr>nonce = 1, votes = [3, 0, 5]\<rparr>, \<lparr>nonce = 0, votes = [0, 0, 0]\<rparr>])
            \<and> sub ! 0 = 56598 \<and> sub ! 1 = 0 \<and> sub ! 2 = 0"
    using s' e by blast
  have part4: "\<exists>out1. subsidyPerBatch ex0 20 pollS = Inr (pollS1, out1)
            \<and> currentSubsidy out1 = [0, 0, 0]"
    by (simp add: first_subsidy_batch_pollS)
  have f1: "ballots pollS1 = ballots pollS" "p_maxValues pollS1 = p_maxValues pollS"
    "p_batchSizes pollS1 = p_batchSizes pollS" "MM pollS1 = MM pollS" "WW pollS1 = WW pollS"
    "subsidy pollS1 = subsidy pollS" "rbi pollS1 = 0" "cbi pollS1 = 1"
    "subsidySalts pollS1 (0, 0) = Some 20"
    "stateTree pollS1 = Some \<lparr>t_depth = 10, zeroValue = 0, leaves = [0, 111]\<rparr>"
    "ballotTree pollS1 = Some \<lparr>t_depth = 10, zeroValue = 0, leaves = [0, 0]\<rparr>"
    by (simp_all add: pollS1_def pollS_def instance_defs fillBallots.simps
          copyStateFromMaci_def insert_leaf_def newTree_def nextIndex_def)
  have ready1: "subsidyReady pollS1"
    using ready by (simp add: subsidyReady_def f1)
  have at1: "ballotAt pollS1 = ballotAt pollS"
    by (simp add: ballotAt_def f1 fun_eq_iff)
  have inc1: "specSubsidyIncrease pollS1 0 2 = specSubsidyIncrease pollS 0 2"
    by (simp add: specSubsidyIncrease_def specPairSubsidy_def specCoefficient_def f1 at1
          fun_eq_iff)
  have pre: "hasUnfinishedSubsidyCalculation pollS1
           \<and> stateTree pollS1 = Some \<lparr>t_depth = 10, zeroValue = 0, leaves = [0, 111]\<rparr>
           \<and> ballotTree pollS1 = Some \<lparr>t_depth = 10, zeroValue = 0, leaves = [0, 0]\<rparr>
           \<and> ((rbi pollS1 = 0 \<and> cbi pollS1 = 0)
              \<or> (\<exists>k s. previousSubsidyIndex pollS1 = Some k \<and> subsidySalts pollS1 k = Some s))
           \<and> genMerkleSubrootPath ex0 \<lparr>t_depth = 10, zeroValue = 0, leaves = [0, 0]\<rparr>
                (rbi pollS1 * subsidyBatchSize (p_batchSizes pollS1))
                (rbi pollS1 * subsidyBatchSize (p_batchSizes pollS1)
                   + subsidyBatchSize (p_batchSizes pollS1)) = Some []
           \<and> genMerkleSubrootPath ex0 \<lparr>t_depth = 10, zeroValue = 0, leaves = [0, 0]\<rparr>
                (cbi pollS1 * subsidyBatchSize (p_batchSizes pollS1))
                (cbi pollS1 * subsidyBatchSize (p_batchSizes pollS1)
                   + subsidyBatchSize (p_batchSizes pollS1)) = Some []"
    by (simp add: hasUnfinishedSubsidyCalculation_def previousSubsidyIndex_def f1 f ex0_def)
  note t3 = subsidy_per_pair[OF ready1, THEN conjunct2, THEN conjunct2, THEN conjunct1,
      rule_format, where newSalt = 21, OF pre]
  from t3 obtain sub2 where
    r2: "subsidyPerBatch ex0 21 pollS1 =
           Inr (increaseSubsidyIndex
                  (pollS1\<lparr>subsidy := sub2,
                     subsidySalts := (subsidySalts pollS1)((rbi pollS1, cbi pollS1) \<mapsto> 21)\<rparr>),
                \<lparr>currentSubsidy = subsidy pollS1,
                 ballots1 = map (\<lambda>i. ballotAt pollS1
                     (rbi pollS1 * subsidyBatchSize (p_batchSizes pollS1) + i))
                     [0 ..< subsidyBatchSize (p_batchSizes pollS1)],
                 ballots2 = map (\<lambda>i. ballotAt pollS1
                     (cbi pollS1 * subsidyBatchSize (p_batchSizes pollS1) + i))
                     [0 ..< subsidyBatchSize (p_batchSizes pollS1)],
                 ballotPathElements1 = [],
                 ballotPathElements2 = []\<rparr>)"
    and l2: "length sub2 = length (subsidy pollS1)"
    and v2: "\<forall>q < maxVoteOptions (p_maxValues pollS1).
                     sub2 ! q = subsidy pollS1 ! q
                       + specSubsidyIncrease pollS1
                           (rbi pollS1 * subsidyBatchSize (p_batchSizes pollS1))
                           (cbi pollS1 * subsidyBatchSize (p_batchSizes pollS1)) q"
    by blast
  from v2 have "sub2 ! 0 = 56598" "sub2 ! 1 = 0" "sub2 ! 2 = 0"
    by (simp_all add: f1 f inc1 inc)
  with l2 list_of_length_3[of sub2] have sub2: "sub2 = [56598, 0, 0]"
    by (simp add: f1 f)
  have part6: "\<exists>p2 out2. subsidyPerBatch ex0 21 pollS1 = Inr (p2, out2)
            \<and> subsidy p2 = [56598, 0, 0] \<and> rbi p2 = 1 \<and> cbi p2 = 1
            \<and> subsidySalts p2 (0, 1) = Some 21
            \<and> hasUnfinishedSubsidyCalculation p2
            \<and> currentSubsidy out2 = [0, 0, 0]
            \<and> ballots1 out2
                = [\<lparr>nonce = 0, votes = [0, 0, 0]\<rparr>, \<lparr>nonce = 1, votes = [1, 2, 0]\<rparr>]
            \<and> ballots2 out2
                = [\<lparr>nonce = 1, votes = [3, 0, 5]\<rparr>, \<lparr>nonce = 0, votes = [0, 0, 0]\<rparr>]"
    unfolding r2
    by (simp add: increaseSubsidyIndex_def hasUnfinishedSubsidyCalculation_def f1 f sub2 at1
          u ballotAt_def genBlankBallot_def numeral_3_eq_3)
  show ?thesis
    apply (intro conjI)
    apply (rule ready, rule c, rule part3, rule part4, rule ready1, rule f1(7), rule f1(8))
    apply (rule part6)
    done
qed

subsection \<open>The JSON round trip\<close>

lemma if_not_False: "(if \<not> c then False else x) \<longleftrightarrow> (c \<and> x)"
  by simp

lemma same_length_nth:
  "(length xs = length ys \<and> list_all (\<lambda>i. xs ! i = ys ! i) [0 ..< length xs]) \<longleftrightarrow> xs = ys"
proof -
  have "list_all (\<lambda>i. xs ! i = ys ! i) [0 ..< length xs]
          \<longleftrightarrow> (\<forall>i < length xs. xs ! i = ys ! i)"
    by (auto simp add: list_all_iff)
  with list_eq_iff_nth_eq[of xs ys] show ?thesis by blast
qed

lemma equals_iff:
  "equals a b \<longleftrightarrow>
     coordinatorKeypair a = coordinatorKeypair b
   \<and> intStateTreeDepth (p_treeDepths a) = intStateTreeDepth (p_treeDepths b)
   \<and> messageTreeDepth (p_treeDepths a) = messageTreeDepth (p_treeDepths b)
   \<and> messageTreeSubDepth (p_treeDepths a) = messageTreeSubDepth (p_treeDepths b)
   \<and> voteOptionTreeDepth (p_treeDepths a) = voteOptionTreeDepth (p_treeDepths b)
   \<and> tallyBatchSize (p_batchSizes a) = tallyBatchSize (p_batchSizes b)
   \<and> messageBatchSize (p_batchSizes a) = messageBatchSize (p_batchSizes b)
   \<and> maxMessages (p_maxValues a) = maxMessages (p_maxValues b)
   \<and> maxVoteOptions (p_maxValues a) = maxVoteOptions (p_maxValues b)
   \<and> messages a = messages b \<and> encPubKeys a = encPubKeys b"
  unfolding equals_def if_not_False
    same_length_nth[symmetric, of "messages a" "messages b"]
    same_length_nth[symmetric, of "encPubKeys a" "encPubKeys b"]
  by (simp only: conj_ac simp_thms)

lemma fillMessageTree_eval:
  "length (messages p) \<le> length (encPubKeys p) \<Longrightarrow>
   fillMessageTree ex i p =
     Inr (p\<lparr>messageTree := (messageTree p)\<lparr>leaves := leaves (messageTree p)
            @ map (\<lambda>j. hashMessage ex (messages p ! j) (encPubKeys p ! j))
                [i ..< length (messages p)]\<rparr>\<rparr>)"
proof (induction ex i p rule: fillMessageTree.induct)
  case (1 ex i p)
  show ?case
  proof (cases "i < length (messages p)")
    case False
    then show ?thesis by (subst fillMessageTree.simps) simp
  next
    case True
    with "1.prems" have k: "nth_opt (encPubKeys p) i = Some (encPubKeys p ! i)"
      by (simp add: nth_opt_def)
    let ?p1 = "p\<lparr>messageTree :=
                    insert_leaf (messageTree p) (hashMessage ex (messages p ! i) (encPubKeys p ! i))\<rparr>"
    have u: "[i ..< length (messages p)] = i # [i + 1 ..< length (messages p)]"
      using True by (simp add: upt_conv_Cons)
    from "1.IH"[OF True k] "1.prems"
    have "fillMessageTree ex (i + 1) ?p1 =
       Inr (?p1\<lparr>messageTree := (messageTree ?p1)\<lparr>leaves := leaves (messageTree ?p1)
            @ map (\<lambda>j. hashMessage ex (messages ?p1 ! j) (encPubKeys ?p1 ! j))
                [i + 1 ..< length (messages ?p1)]\<rparr>\<rparr>)"
      by simp
    then show ?thesis
      using True k by (subst fillMessageTree.simps) (simp add: u insert_leaf_def)
  qed
qed

lemma copyStateFromMaci_eval:
  assumes "length (ms_stateLeaves ms) = nextIndex (ms_stateTree ms)"
  shows "\<exists>bt bl. copyStateFromMaci ex p ms =
           Inr (p\<lparr>stateLeaves := ms_stateLeaves ms, stateTree := Some (ms_stateTree ms),
                  ballotTree := Some bt, ballots := bl, stateCopied := True\<rparr>)"
  using assms by (simp add: copyStateFromMaci_def Let_def split: prod.splits) blast

text \<open>C7. For a poll \<open>p\<close> whose messages and public keys are read back as they were
  written, with as many messages as keys, and a MaciState whose state leaves are as many as
  the leaves of its state tree, \<open>fromJSON (toJSON p) maciState\<close> returns a poll \<open>q\<close> with
  the tree depths, batch sizes, maximum values, messages and keys of \<open>p\<close>; its coordinator
  keypair is the one \<open>fromJSON\<close> has generated, so \<open>q\<close> equals \<open>p\<close> exactly when that
  keypair is the one of \<open>p\<close>, and it equals \<open>p\<close> once the keypair of \<open>p\<close> is set again. The
  message tree of \<open>q\<close> holds the hashes of the messages of \<open>p\<close>, in their order, and its
  state leaves and state tree are those of the MaciState.\<close>

theorem fromJSON_toJSON_round_trip:
  assumes rm: "\<forall>m \<in> set (messages p). messageFromJSON cd (messageToJSON cd m) = m"
    and rk: "\<forall>k \<in> set (encPubKeys p). pubKeyDeserialize cd (pubKeySerialize cd k) = k"
    and len: "length (messages p) = length (encPubKeys p)"
    and ms: "length (ms_stateLeaves ms) = nextIndex (ms_stateTree ms)"
  shows "\<exists>q. fromJSON cd ex kp (toJSON cd p) ms = Inr q
     \<and> coordinatorKeypair q = kp
     \<and> p_treeDepths q = p_treeDepths p \<and> p_batchSizes q = p_batchSizes p
     \<and> p_maxValues q = p_maxValues p
     \<and> messages q = messages p \<and> encPubKeys q = encPubKeys p
     \<and> (equals q p \<longleftrightarrow> kp = coordinatorKeypair p)
     \<and> equals (q\<lparr>coordinatorKeypair := coordinatorKeypair p\<rparr>) p
     \<and> messageTree q =
          \<lparr>t_depth = messageTreeDepth (p_treeDepths p),
           zeroValue = NOTHING_UP_MY_SLEEVE ex,
           leaves = map (\<lambda>i. hashMessage ex (messages p ! i) (encPubKeys p ! i))
                      [0 ..< length (messages p)]\<rparr>
     \<and> stateLeaves q = ms_stateLeaves ms \<and> stateTree q = Some (ms_stateTree ms)"
proof -
  define json where "json = toJSON cd p"
  define poll0' where "poll0' = newPoll ex (j_pollEndTimestamp json) kp (j_treeDepths json)
                    (j_batchSizes json) (j_maxValues json) ms"
  define poll1' where "poll1' = poll0'\<lparr>ballots := map (ballotFromJSON cd) (j_ballots json),
                        encPubKeys := map (pubKeyDeserialize cd) (j_encPubKeys json),
                        messages := map (messageFromJSON cd) (j_messages json),
                        commands := map (commandFromJSON cd) (j_commands json),
                        tallyResult := j_results json,
                        currentMessageBatchIndex := j_currentMessageBatchIndex json,
                        numBatchesProcessed := j_numBatchesProcessed json\<rparr>"
  have m1: "messages poll1' = messages p"
    using rm by (simp add: poll1'_def json_def toJSON_def map_idI)
  have k1: "encPubKeys poll1' = encPubKeys p"
    using rk by (simp add: poll1'_def json_def toJSON_def map_idI)
  have f1: "coordinatorKeypair poll1' = kp" "p_treeDepths poll1' = p_treeDepths p"
    "p_batchSizes poll1' = p_batchSizes p" "p_maxValues poll1' = p_maxValues p"
    "messageTree poll1' = newTree (messageTreeDepth (p_treeDepths p)) (NOTHING_UP_MY_SLEEVE ex)"
    by (simp_all add: poll1'_def poll0'_def json_def toJSON_def newPoll_def)
  define poll2' where "poll2' = poll1'\<lparr>messageTree := (messageTree poll1')\<lparr>leaves :=
            leaves (messageTree poll1')
            @ map (\<lambda>j. hashMessage ex (messages poll1' ! j) (encPubKeys poll1' ! j))
                [0 ..< length (messages poll1')]\<rparr>\<rparr>"
  have fill: "fillMessageTree ex 0 poll1' = Inr poll2'"
    unfolding poll2'_def using len by (intro fillMessageTree_eval) (simp add: m1 k1)
  from copyStateFromMaci_eval[OF ms, of ex poll2'] obtain bt bl where
    cp: "copyStateFromMaci ex poll2' ms =
           Inr (poll2'\<lparr>stateLeaves := ms_stateLeaves ms, stateTree := Some (ms_stateTree ms),
                  ballotTree := Some bt, ballots := bl, stateCopied := True\<rparr>)"
    by blast
  define q where "q = poll2'\<lparr>stateLeaves := ms_stateLeaves ms, stateTree := Some (ms_stateTree ms),
                  ballotTree := Some bt, ballots := bl, stateCopied := True\<rparr>"
  have r: "fromJSON cd ex kp (toJSON cd p) ms = Inr q"
    unfolding fromJSON_def Let_def
    using fill cp
    by (simp add: q_def poll1'_def[symmetric] poll0'_def[symmetric] json_def[symmetric])
  have fq: "coordinatorKeypair q = kp" "p_treeDepths q = p_treeDepths p"
    "p_batchSizes q = p_batchSizes p" "p_maxValues q = p_maxValues p"
    "messages q = messages p" "encPubKeys q = encPubKeys p"
    "stateLeaves q = ms_stateLeaves ms" "stateTree q = Some (ms_stateTree ms)"
    by (simp_all add: q_def poll2'_def f1 m1 k1)
  have mt: "messageTree q =
          \<lparr>t_depth = messageTreeDepth (p_treeDepths p),
           zeroValue = NOTHING_UP_MY_SLEEVE ex,
           leaves = map (\<lambda>i. hashMessage ex (messages p ! i) (encPubKeys p ! i))
                      [0 ..< length (messages p)]\<rparr>"
    by (simp add: q_def poll2'_def f1 m1 k1 newTree_def)
  have e1: "equals q p \<longleftrightarrow> kp = coordinatorKeypair p"
    by (simp add: equals_iff fq)
  have e2: "equals (q\<lparr>coordinatorKeypair := coordinatorKeypair p\<rparr>) p"
    by (simp add: equals_iff fq)
  show ?thesis
    apply (rule exI[of _ q])
    apply (intro conjI)
    apply (rule r, rule fq(1), rule fq(2), rule fq(3), rule fq(4), rule fq(5), rule fq(6))
    apply (rule e1, rule e2, rule mt, rule fq(7), rule fq(8))
    done
qed

lemmas json_defs = fromJSON_def toJSON_def cd0_def copyStateFromMaci_def
  nth_opt_def nextIndex_def newTree_def insert_leaf_def Let_def

theorem fromJSON_toJSON_round_trip_witness:
  "\<exists>q. fromJSON cd0 ex0 kp0 (toJSON cd0 poll2) ms0 = Inr q \<and> equals q poll2
       \<and> leaves (messageTree q) = [81] \<and> stateTree q = Some (ms_stateTree ms0)"
proof -
  have h: "\<forall>m \<in> set (messages poll2). messageFromJSON cd0 (messageToJSON cd0 m) = m"
    "\<forall>k \<in> set (encPubKeys poll2). pubKeyDeserialize cd0 (pubKeySerialize cd0 k) = k"
    "length (messages poll2) = length (encPubKeys poll2)"
    "length (ms_stateLeaves ms0) = nextIndex (ms_stateTree ms0)"
    by (simp_all add: poll2_def cd0_def ms0_def nextIndex_def)
  have f: "coordinatorKeypair poll2 = kp0" "messages poll2 = [vote0]"
    "encPubKeys poll2 = [(9, 9)]"
    by (simp_all add: poll2_def poll1_def poll0_def newPoll_def)
  have hm: "hashMessage ex0 vote0 (9, 9) = 81"
    by (simp add: ex0_def vote0_def)
  from fromJSON_toJSON_round_trip[OF h, of ex0 kp0] show ?thesis
    by (elim exE conjE) (simp add: f hm)
qed

text \<open>The poll read back with a keypair other than the one of \<open>poll2\<close> does not equal
  \<open>poll2\<close>; and the poll read back from \<open>poll5\<close>, which has processed a vote, has the state
  tree of the MaciState and a ballot tree of empty ballots, not those of \<open>poll5\<close>.\<close>

theorem fromJSON_fresh_keypair_not_equal:
  "(\<exists>q. fromJSON cd0 ex0 kp1 (toJSON cd0 poll2) ms0 = Inr q
        \<and> coordinatorKeypair q = kp1 \<and> \<not> equals q poll2)
   \<and> (\<exists>q. fromJSON cd0 ex0 kp0 (toJSON cd0 poll5) ms0 = Inr q
        \<and> stateTree poll5 = Some \<lparr>t_depth = 10, zeroValue = 0, leaves = [0, 96]\<rparr>
        \<and> stateTree q = Some \<lparr>t_depth = 10, zeroValue = 0, leaves = [0, 111]\<rparr>
        \<and> ballotTree poll5 = Some \<lparr>t_depth = 10, zeroValue = 0, leaves = [0, 6]\<rparr>
        \<and> ballotTree q = Some \<lparr>t_depth = 10, zeroValue = 0, leaves = [0]\<rparr>)"
proof -
  define q1 where "q1 = (case fromJSON cd0 ex0 kp1 (toJSON cd0 poll2) ms0 of
                           Inr q \<Rightarrow> q | Inl e \<Rightarrow> poll2)"
  have r1: "fromJSON cd0 ex0 kp1 (toJSON cd0 poll2) ms0 = Inr q1"
    unfolding q1_def
    by (simp add: json_defs fillMessageTree.simps fillBallots.simps instance_defs)
  have k1: "coordinatorKeypair q1 = kp1"
    unfolding q1_def
    by (simp add: json_defs fillMessageTree.simps fillBallots.simps instance_defs)
  have k2: "coordinatorKeypair poll2 = kp0"
    by (simp add: poll2_def poll1_def poll0_def newPoll_def)
  have ne: "\<not> equals q1 poll2"
    by (simp add: equals_iff k1 k2 kp0_def kp1_def)
  define q2 where "q2 = (case fromJSON cd0 ex0 kp0 (toJSON cd0 poll5) ms0 of
                           Inr q \<Rightarrow> q | Inl e \<Rightarrow> poll5)"
  have r2: "fromJSON cd0 ex0 kp0 (toJSON cd0 poll5) ms0 = Inr q2"
    unfolding q2_def
    by (simp add: json_defs fillMessageTree.simps fillBallots.simps poll5_def
          instance_defs)
  have t2: "stateTree q2 = Some \<lparr>t_depth = 10, zeroValue = 0, leaves = [0, 111]\<rparr>"
    "ballotTree q2 = Some \<lparr>t_depth = 10, zeroValue = 0, leaves = [0]\<rparr>"
    unfolding q2_def
    by (simp_all add: json_defs fillMessageTree.simps fillBallots.simps poll5_def
          instance_defs sum_list_replicate)
  have t5: "stateTree poll5 = Some \<lparr>t_depth = 10, zeroValue = 0, leaves = [0, 96]\<rparr>"
    "ballotTree poll5 = Some \<lparr>t_depth = 10, zeroValue = 0, leaves = [0, 6]\<rparr>"
    by (simp_all add: poll5_def)
  from r1 k1 ne r2 t2 t5 show ?thesis by blast
qed

end
